(* ===== verification/Prelude_Lib.thy ===== *)
theory Prelude_Lib
  imports Complex_Main "HOL-Library.Word" "HOL-Library.AList" "HOL-Library.Multiset"
    "HOL-Library.List_Lexorder" "HOL-Library.Char_ord"
begin

section \<open>Shared notions of the development\<close>

text \<open>
  Generic material every component uses: the collections of rewrite rules the proofs name,
  Go's machine integers and instants, Go maps as association lists with an explicit
  iteration order, and lemmas on lists that do not mention the program.
\<close>

named_theorems f64 \<comment> \<open>evaluation and valuation rules of binary64 arithmetic\<close>
named_theorems gostr \<comment> \<open>rules about Go strings\<close>
named_theorems policy_simps \<comment> \<open>unfolding of the policy predicates\<close>

subsection \<open>Integers and time\<close>

text \<open>\<open>int32\<close> is kept at its width (\<open>sint\<close> reads it); instants and durations are
  nanoseconds. A Go \<open>time.Duration\<close> is an \<open>int64\<close> and \<open>Time.Sub\<close> saturates.\<close>

type_synonym int32 = "32 word"
type_synonym gotime = int
type_synonym duration = int

definition max_int64 :: int where "max_int64 = 2 ^ 63 - 1"
definition min_int64 :: int where "min_int64 = - (2 ^ 63)"

definition time_sub :: "gotime \<Rightarrow> gotime \<Rightarrow> duration" where
  "time_sub t u = max min_int64 (min max_int64 (t - u))"

abbreviation (input) nanosecond :: duration where "nanosecond \<equiv> 1"
definition millisecond :: duration where "millisecond = 1000000"
definition second :: duration where "second = 1000000000"

lemma time_sub_exact:
  "min_int64 \<le> t - u \<Longrightarrow> t - u \<le> max_int64 \<Longrightarrow> time_sub t u = t - u"
  by (simp add: time_sub_def)

lemma time_sub_self [simp]: "time_sub t t = 0"
  by (simp add: time_sub_def max_int64_def min_int64_def)

lemma time_sub_less_iff:
  "min_int64 < d \<Longrightarrow> d \<le> max_int64 \<Longrightarrow> time_sub t u < d \<longleftrightarrow> t - u < d"
  by (auto simp: time_sub_def)

lemma sint32_bounds: "- (2 ^ 31) \<le> sint (x :: int32)" "sint (x :: int32) < 2 ^ 31"
  using sint_greater_eq [of x] sint_lt [of x] by simp_all

lemma sint32_scaled_fits:
  assumes "0 \<le> k" "k \<le> 1000000000"
  shows "min_int64 < sint (x :: int32) * k" "sint (x :: int32) * k \<le> max_int64"
proof -
  have b: "- (2 ^ 31) \<le> sint x" "sint x \<le> 2 ^ 31" using sint32_bounds [of x] by auto
  have "- (2 ^ 31) * 1000000000 \<le> sint x * k"
  proof (cases "0 \<le> sint x")
    case True
    then have "0 \<le> sint x * k" using assms by simp
    then show ?thesis by simp
  next
    case False
    then have "sint x * 1000000000 \<le> sint x * k" using assms by (simp add: mult_left_mono_neg)
    moreover have "- (2 ^ 31) * 1000000000 \<le> sint x * 1000000000"
      using b(1) by (simp only: mult_right_mono)
    ultimately show ?thesis by linarith
  qed
  then show "min_int64 < sint x * k" by (simp add: min_int64_def)
  have "sint x * k \<le> 2 ^ 31 * 1000000000"
    using b(2) assms by (intro mult_mono) auto
  then show "sint x * k \<le> max_int64" by (simp add: max_int64_def)
qed

subsection \<open>Go maps\<close>

text \<open>
  A Go map is an association list with distinct keys; lookup is \<open>map_of\<close>, assignment is
  \<open>AList.update\<close>, \<open>delete\<close> is \<open>AList.delete\<close>. The order of a \<open>range\<close> loop over a map is
  unspecified in Go: a loop takes an \<open>order\<close>, any function that permutes the entries.
\<close>

type_synonym ('k, 'v) gomap = "('k \<times> 'v) list"

definition map_ok :: "('k, 'v) gomap \<Rightarrow> bool" where
  "map_ok m \<longleftrightarrow> distinct (map fst m)"

definition is_order :: "('a list \<Rightarrow> 'a list) \<Rightarrow> bool" where
  "is_order ord \<longleftrightarrow> (\<forall>xs. mset (ord xs) = mset xs)"

lemma is_order_id [simp]: "is_order (\<lambda>xs. xs)"
  by (simp add: is_order_def)

lemma is_order_rev [simp]: "is_order rev"
  by (simp add: is_order_def)

lemma order_set: "is_order ord \<Longrightarrow> set (ord xs) = set xs"
  unfolding is_order_def by (metis set_mset_mset)

lemma order_length: "is_order ord \<Longrightarrow> length (ord xs) = length xs"
  unfolding is_order_def by (metis size_mset)

lemma order_Nil_iff: "is_order ord \<Longrightarrow> ord xs = [] \<longleftrightarrow> xs = []"
  by (metis order_length length_0_conv)

lemma order_singleton: "is_order ord \<Longrightarrow> ord [x] = [x]"
  unfolding is_order_def by (metis mset_single_iff mset.simps)

subsection \<open>Lists\<close>

lemma map_of_update [simp]: "map_of (AList.update k v m) = (map_of m)(k \<mapsto> v)"
  by (rule update_conv')

lemma map_of_delete' [simp]: "map_of (AList.delete k m) = (map_of m)(k := None)"
  by (rule delete_conv')

lemma suffix_neq: "length a \<noteq> length b \<Longrightarrow> a \<noteq> b"
  by auto

lemma append_last_neq:
  "p \<noteq> [] \<Longrightarrow> q \<noteq> [] \<Longrightarrow> last p \<noteq> last q \<Longrightarrow> a @ p \<noteq> b @ q"
  by (metis last_appendR)

text \<open>The length of the unbroken run of \<open>True\<close> at the head of a history (newest first).\<close>

definition trailing :: "bool list \<Rightarrow> int" where
  "trailing h = int (length (takeWhile id h))"

lemma trailing_simps [simp]:
  "trailing [] = 0" "trailing (True # h) = trailing h + 1" "trailing (False # h) = 0"
  by (simp_all add: trailing_def)

lemma trailing_nonneg [simp]: "0 \<le> trailing h"
  by (simp add: trailing_def)

end
