(* ===== verification/Go_Float.thy ===== *)
theory Go_Float
  imports Prelude_Lib
begin

section \<open>IEEE 754 binary64, Go's \<open>float64\<close>\<close>

text \<open>
  Every signal, threshold and rate of the program is a \<open>float64\<close>. A finite value is a sign,
  an integer mantissa below \<open>2^53\<close> and a binary exponent; \<open>fround\<close> rounds a non-negative
  rational to nearest, ties to even, with gradual underflow and overflow to infinity. The
  operations compute the exact rational result and round it, as the hardware does. All
  of it computes on integers, so concrete inputs evaluate in the kernel.
\<close>

datatype float64 = FNaN | FInf bool | FFin bool int int
  \<comment> \<open>\<open>FFin s m e\<close> is \<open>(-1)^s * m * 2^e\<close>\<close>

fun float_ok :: "float64 \<Rightarrow> bool" where
  "float_ok (FFin s m e) \<longleftrightarrow> 0 \<le> m \<and> m < 2 ^ 53 \<and> - 1074 \<le> e \<and> e \<le> 971 \<and>
     (2 ^ 52 \<le> m \<or> e = - 1074)"
| "float_ok _ \<longleftrightarrow> True"

fun is_fin :: "float64 \<Rightarrow> bool" where
  "is_fin (FFin s m e) = True"
| "is_fin _ = False"

fun fval :: "float64 \<Rightarrow> real" where
  "fval (FFin s m e) = (if s then -1 else 1) * (of_int m * 2 powi e)"
| "fval _ = 0"

abbreviation fzero :: float64 where "fzero \<equiv> FFin False 0 (- 1074)"

subsection \<open>Rounding\<close>

function blen :: "int \<Rightarrow> nat" where
  "blen n = (if n \<le> 0 then 0 else Suc (blen (n div 2)))"
  by pat_completeness auto
termination
  by (relation "measure nat") auto

declare blen.simps [simp del]

text \<open>\<open>2^e\<close> for a possibly negative \<open>e\<close>, as a fraction of integers.\<close>

definition scale_num :: "int \<Rightarrow> int \<Rightarrow> int" where
  "scale_num n e = (if 0 \<le> e then n else n * 2 ^ nat (- e))"

definition scale_den :: "int \<Rightarrow> int \<Rightarrow> int" where
  "scale_den d e = (if 0 \<le> e then d * 2 ^ nat e else d)"

definition div_even :: "int \<Rightarrow> int \<Rightarrow> int" where
  \<comment> \<open>\<open>n/d\<close> rounded to the nearest integer, ties to even\<close>
  "div_even n d =
     (let k = n div d; r = n mod d
      in if 2 * r < d \<or> (2 * r = d \<and> even k) then k else k + 1)"

definition round_exp :: "int \<Rightarrow> int \<Rightarrow> int" where
  "round_exp p q =
     (let e0 = int (blen p) - int (blen q) - 53;
          e1 = (if scale_num p e0 < 2 ^ 53 * scale_den q e0 then e0 else e0 + 1)
      in max e1 (- 1074))"

definition fround :: "bool \<Rightarrow> int \<Rightarrow> int \<Rightarrow> float64" where
  "fround s p q =
     (if p = 0 then FFin s 0 (- 1074)
      else let e = round_exp p q;
               m = div_even (scale_num p e) (scale_den q e)
           in if m = 2 ^ 53 then (if e + 1 > 971 then FInf s else FFin s (2 ^ 52) (e + 1))
              else if e > 971 then FInf s else FFin s m e)"

definition flit :: "int \<Rightarrow> int \<Rightarrow> float64" where
  \<comment> \<open>a source literal \<open>p/q\<close>, or a conversion from an integer type with \<open>q = 1\<close>\<close>
  "flit p q = fround (p < 0) \<bar>p\<bar> q"

definition fof_int :: "int \<Rightarrow> float64" where
  "fof_int n = flit n 1"

subsection \<open>Arithmetic and comparison\<close>

definition signed :: "bool \<Rightarrow> int \<Rightarrow> int" where
  "signed s m = (if s then - m else m)"

definition align :: "int \<Rightarrow> int \<Rightarrow> int \<Rightarrow> int" where
  "align m e e' = m * 2 ^ nat (e - e')"

fun fadd :: "float64 \<Rightarrow> float64 \<Rightarrow> float64" where
  "fadd FNaN _ = FNaN"
| "fadd _ FNaN = FNaN"
| "fadd (FInf s) (FInf t) = (if s = t then FInf s else FNaN)"
| "fadd (FInf s) (FFin _ _ _) = FInf s"
| "fadd (FFin _ _ _) (FInf t) = FInf t"
| "fadd (FFin s m e) (FFin t n d) =
     (if m = 0 \<and> n = 0 then FFin (s \<and> t) 0 (- 1074)
      else if m = 0 then FFin t n d
      else if n = 0 then FFin s m e
      else let c = min e d;
               v = align (signed s m) e c + align (signed t n) d c
           in fround (v < 0) (scale_den \<bar>v\<bar> c) (scale_num 1 c))"

fun fneg :: "float64 \<Rightarrow> float64" where
  "fneg FNaN = FNaN"
| "fneg (FInf s) = FInf (\<not> s)"
| "fneg (FFin s m e) = FFin (\<not> s) m e"

definition fsub :: "float64 \<Rightarrow> float64 \<Rightarrow> float64" where
  "fsub x y = fadd x (fneg y)"

fun fmul :: "float64 \<Rightarrow> float64 \<Rightarrow> float64" where
  "fmul FNaN _ = FNaN"
| "fmul _ FNaN = FNaN"
| "fmul (FInf s) (FInf t) = FInf (s \<noteq> t)"
| "fmul (FInf s) (FFin t n d) = (if n = 0 then FNaN else FInf (s \<noteq> t))"
| "fmul (FFin s m e) (FInf t) = (if m = 0 then FNaN else FInf (s \<noteq> t))"
| "fmul (FFin s m e) (FFin t n d) =
     fround (s \<noteq> t) (scale_den (m * n) (e + d)) (scale_num 1 (e + d))"

fun fdiv :: "float64 \<Rightarrow> float64 \<Rightarrow> float64" where
  "fdiv FNaN _ = FNaN"
| "fdiv _ FNaN = FNaN"
| "fdiv (FInf s) (FInf t) = FNaN"
| "fdiv (FInf s) (FFin t n d) = FInf (s \<noteq> t)"
| "fdiv (FFin s m e) (FInf t) = FFin (s \<noteq> t) 0 (- 1074)"
| "fdiv (FFin s m e) (FFin t n d) =
     (if n = 0 then (if m = 0 then FNaN else FInf (s \<noteq> t))
      else fround (s \<noteq> t) (scale_den m (e - d)) (scale_num n (e - d)))"

fun flt :: "float64 \<Rightarrow> float64 \<Rightarrow> bool" where
  "flt FNaN _ = False"
| "flt _ FNaN = False"
| "flt (FInf s) (FInf t) = (s \<and> \<not> t)"
| "flt (FInf s) (FFin _ _ _) = s"
| "flt (FFin _ _ _) (FInf t) = (\<not> t)"
| "flt (FFin s m e) (FFin t n d) =
     (let a = signed s m; b = signed t n
      in if a = 0 then 0 < b
         else if b = 0 then a < 0
         else if e \<le> d then a < align b d e else align a e d < b)"

definition fle :: "float64 \<Rightarrow> float64 \<Rightarrow> bool" where
  \<comment> \<open>\<open><=\<close>; false when an operand is NaN\<close>
  "fle x y = (x \<noteq> FNaN \<and> y \<noteq> FNaN \<and> \<not> flt y x)"

text \<open>
  \<open>int64(x)\<close> truncates towards zero. Outside the range of \<open>int64\<close> the Go specification
  leaves the result to the implementation: it is the parameter \<open>impl\<close>.
\<close>

fun ftrunc :: "float64 \<Rightarrow> int option" where
  "ftrunc (FFin s m e) =
     Some (signed s (if 0 \<le> e then m * 2 ^ nat e else m div 2 ^ nat (- e)))"
| "ftrunc _ = None"

definition fto_int64 :: "(float64 \<Rightarrow> int) \<Rightarrow> float64 \<Rightarrow> int" where
  "fto_int64 impl x = (case ftrunc x of
     None \<Rightarrow> impl x
   | Some i \<Rightarrow> if min_int64 \<le> i \<and> i \<le> max_int64 then i else impl x)"

definition duration_seconds :: "duration \<Rightarrow> float64" where
  \<comment> \<open>\<open>Duration.Seconds\<close>: whole seconds plus the nanosecond remainder (Go's \<open>/\<close> and \<open>%\<close>
    truncate towards zero)\<close>
  "duration_seconds d =
     (let s = sgn d * (\<bar>d\<bar> div second); n = sgn d * (\<bar>d\<bar> mod second)
      in fadd (fof_int s) (fdiv (fof_int n) (fof_int 1000000000)))"

end
