(* ===== verification/Go_Strings.thy ===== *)
theory Go_Strings
  imports Go_Float
begin

section \<open>Go strings, \<open>strconv\<close> and \<open>fmt\<close> scanning\<close>

text \<open>
  A Go string is a sequence of bytes, an Isabelle \<open>string\<close>. This theory holds what the
  program uses of \<open>strings\<close>, \<open>strconv.ParseFloat\<close> and \<open>fmt.Sscanf("%f")\<close>. The two number
  parsers differ (a trailing unit, an overflow), and the program uses both.
\<close>

subsection \<open>\<open>strings\<close>\<close>

definition has_prefix :: "string \<Rightarrow> string \<Rightarrow> bool" where
  "has_prefix s p \<longleftrightarrow> take (length p) s = p"

fun str_index :: "string \<Rightarrow> string \<Rightarrow> nat option" where
  \<comment> \<open>\<open>strings.Index\<close>; \<open>None\<close> is the source's \<open>-1\<close>\<close>
  "str_index [] sub = (if sub = [] then Some 0 else None)"
| "str_index (c # s) sub =
     (if has_prefix (c # s) sub then Some 0 else map_option Suc (str_index s sub))"

fun str_last_index :: "string \<Rightarrow> string \<Rightarrow> nat option" where
  "str_last_index [] sub = (if sub = [] then Some 0 else None)"
| "str_last_index (c # s) sub = (case str_last_index s sub of
     Some i \<Rightarrow> Some (Suc i)
   | None \<Rightarrow> if has_prefix (c # s) sub then Some 0 else None)"

fun str_split :: "char \<Rightarrow> string \<Rightarrow> string list" where
  \<comment> \<open>\<open>strings.Split\<close> at a one-byte separator\<close>
  "str_split sep [] = [[]]"
| "str_split sep (c # s) =
     (if c = sep then [] # str_split sep s
      else case str_split sep s of [] \<Rightarrow> [[c]] | w # ws \<Rightarrow> (c # w) # ws)"

fun str_join :: "string \<Rightarrow> string list \<Rightarrow> string" where
  "str_join sep [] = []"
| "str_join sep [w] = w"
| "str_join sep (w # ws) = w @ sep @ str_join sep ws"

definition newline :: char where "newline = CHR 0x0A"
definition cr :: char where "cr = CHR 0x0D"

definition go_spaces :: "string list" where
  \<comment> \<open>the UTF-8 encodings of the runes \<open>unicode.IsSpace\<close> holds for\<close>
  "go_spaces = [[CHR 0x09], [CHR 0x0A], [CHR 0x0B], [CHR 0x0C], [CHR 0x0D], [CHR 0x20],
     [CHR 0xC2, CHR 0x85], [CHR 0xC2, CHR 0xA0], [CHR 0xE1, CHR 0x9A, CHR 0x80],
     [CHR 0xE2, CHR 0x80, CHR 0x80], [CHR 0xE2, CHR 0x80, CHR 0x81],
     [CHR 0xE2, CHR 0x80, CHR 0x82], [CHR 0xE2, CHR 0x80, CHR 0x83],
     [CHR 0xE2, CHR 0x80, CHR 0x84], [CHR 0xE2, CHR 0x80, CHR 0x85],
     [CHR 0xE2, CHR 0x80, CHR 0x86], [CHR 0xE2, CHR 0x80, CHR 0x87],
     [CHR 0xE2, CHR 0x80, CHR 0x88], [CHR 0xE2, CHR 0x80, CHR 0x89],
     [CHR 0xE2, CHR 0x80, CHR 0x8A], [CHR 0xE2, CHR 0x80, CHR 0xA8],
     [CHR 0xE2, CHR 0x80, CHR 0xA9], [CHR 0xE2, CHR 0x80, CHR 0xAF],
     [CHR 0xE2, CHR 0x81, CHR 0x9F], [CHR 0xE3, CHR 0x80, CHR 0x80]]"

definition leading_space :: "string \<Rightarrow> string option" where
  "leading_space s = find (has_prefix s) go_spaces"

definition trailing_space :: "string \<Rightarrow> string option" where
  "trailing_space s = find (\<lambda>sp. has_prefix (rev s) (rev sp)) go_spaces"

lemma go_spaces_nonempty: "sp \<in> set go_spaces \<Longrightarrow> 0 < length sp"
  by (auto simp: go_spaces_def)

lemma leading_space_pos:
  "leading_space s = Some sp \<Longrightarrow> 0 < length sp \<and> length sp \<le> length s"
  unfolding leading_space_def
  by (auto simp: find_Some_iff has_prefix_def dest!: nth_mem go_spaces_nonempty)
     (metis length_take min.cobounded1)

lemma trailing_space_pos:
  "trailing_space s = Some sp \<Longrightarrow> 0 < length sp \<and> length sp \<le> length s"
  unfolding trailing_space_def
  by (auto simp: find_Some_iff has_prefix_def dest!: nth_mem go_spaces_nonempty)
     (metis length_rev length_take min.cobounded1)

lemma space_shrinks:
  "leading_space s = Some sp \<Longrightarrow> length s - length sp < length s"
  "trailing_space s = Some sp \<Longrightarrow> length s - length sp < length s"
  using leading_space_pos [of s sp] trailing_space_pos [of s sp] by linarith+

function trim_left :: "string \<Rightarrow> string" where
  "trim_left s = (case leading_space s of
     None \<Rightarrow> s | Some sp \<Rightarrow> trim_left (drop (length sp) s))"
  by pat_completeness auto
termination
  by (relation "measure length") (auto dest: space_shrinks)

function trim_right :: "string \<Rightarrow> string" where
  "trim_right s = (case trailing_space s of
     None \<Rightarrow> s | Some sp \<Rightarrow> trim_right (take (length s - length sp) s))"
  by pat_completeness auto
termination
  by (relation "measure length") (auto dest: space_shrinks)

declare trim_left.simps [simp del] trim_right.simps [simp del]

definition trim_space :: "string \<Rightarrow> string" where
  "trim_space s = trim_right (trim_left s)"

subsection \<open>\<open>strconv.ParseFloat\<close>\<close>

datatype parsed = Parsed float64 | SyntaxErr | RangeErr float64

definition char_code :: "char \<Rightarrow> int" where
  "char_code c = of_char c"

definition dec_digit :: "char \<Rightarrow> int option" where
  "dec_digit c = (if 48 \<le> char_code c \<and> char_code c \<le> 57 then Some (char_code c - 48) else None)"

definition hex_digit :: "char \<Rightarrow> int option" where
  "hex_digit c = (case dec_digit c of
     Some d \<Rightarrow> Some d
   | None \<Rightarrow> if 97 \<le> char_code c \<and> char_code c \<le> 102 then Some (char_code c - 87)
             else if 65 \<le> char_code c \<and> char_code c \<le> 70 then Some (char_code c - 55)
             else None)"

definition digit_of :: "bool \<Rightarrow> char \<Rightarrow> int option" where
  "digit_of hex c = (if hex then hex_digit c else dec_digit c)"

definition is_dec :: "char \<Rightarrow> bool" where
  "is_dec c \<longleftrightarrow> dec_digit c \<noteq> None"

definition eq_fold :: "char \<Rightarrow> char \<Rightarrow> bool" where
  \<comment> \<open>equality of a byte and a lower-case letter, ignoring case\<close>
  "eq_fold c l \<longleftrightarrow> char_code c = char_code l \<or> char_code c = char_code l - 32"

fun fold_prefix :: "string \<Rightarrow> string \<Rightarrow> nat" where
  \<comment> \<open>\<open>commonPrefixLenIgnoreCase\<close>\<close>
  "fold_prefix (c # s) (l # p) = (if eq_fold c l then Suc (fold_prefix s p) else 0)"
| "fold_prefix _ _ = 0"

definition special_float :: "string \<Rightarrow> (float64 \<times> nat) option" where
  "special_float s = (case s of
     [] \<Rightarrow> None
   | c # r \<Rightarrow>
     (let neg = (c = CHR ''-''); sg = (if c = CHR ''+'' \<or> neg then 1 else 0);
          n = fold_prefix (drop sg s) ''infinity'';
          n' = (if 3 < n \<and> n < 8 then 3 else n)
      in if (sg = 1 \<or> eq_fold c (CHR ''i'')) \<and> (n' = 3 \<or> n' = 8) then Some (FInf neg, sg + n')
         else if eq_fold c (CHR ''n'') \<and> fold_prefix s ''nan'' = 3 then Some (FNaN, 3)
         else None))"

record mantissa =
  m_digits :: int \<comment> \<open>all digits read, as one integer\<close>
  m_frac :: int   \<comment> \<open>how many of them follow the point\<close>
  m_dot :: bool
  m_seen :: bool
  m_under :: bool

fun scan_mantissa :: "bool \<Rightarrow> string \<Rightarrow> mantissa \<Rightarrow> mantissa \<times> string" where
  "scan_mantissa hex [] m = (m, [])"
| "scan_mantissa hex (c # s) m =
     (if c = CHR ''_'' then scan_mantissa hex s (m\<lparr>m_under := True\<rparr>)
      else if c = CHR ''.'' then
        (if m_dot m then (m, c # s) else scan_mantissa hex s (m\<lparr>m_dot := True\<rparr>))
      else case digit_of hex c of
        None \<Rightarrow> (m, c # s)
      | Some d \<Rightarrow> scan_mantissa hex s
          (m\<lparr>m_digits := m_digits m * (if hex then 16 else 10) + d,
             m_frac := m_frac m + (if m_dot m then 1 else 0), m_seen := True\<rparr>))"

fun scan_exp :: "string \<Rightarrow> int \<Rightarrow> bool \<Rightarrow> int \<times> bool \<times> string" where
  "scan_exp [] e u = (e, u, [])"
| "scan_exp (c # s) e u =
     (if c = CHR ''_'' then scan_exp s e True
      else case dec_digit c of
        None \<Rightarrow> (e, u, c # s)
      | Some d \<Rightarrow> scan_exp s (if e < 10000 then e * 10 + d else e) u)"

fun under_loop :: "bool \<Rightarrow> char \<Rightarrow> string \<Rightarrow> bool" where
  "under_loop hex saw [] = (saw \<noteq> CHR ''_'')"
| "under_loop hex saw (c # s) =
     (if digit_of hex c \<noteq> None then under_loop hex (CHR ''0'') s
      else if c = CHR ''_'' then saw = CHR ''0'' \<and> under_loop hex (CHR ''_'') s
      else saw \<noteq> CHR ''_'' \<and> under_loop hex (CHR ''!'') s)"

definition drop_sign :: "string \<Rightarrow> string" where
  "drop_sign s = (case s of
     [] \<Rightarrow> [] | c # r \<Rightarrow> if c = CHR ''+'' \<or> c = CHR ''-'' then r else s)"

definition underscore_ok :: "string \<Rightarrow> bool" where
  "underscore_ok s0 =
     (let s = drop_sign s0
      in case s of
           c # d # r \<Rightarrow>
             if c = CHR ''0'' \<and> (eq_fold d (CHR ''b'') \<or> eq_fold d (CHR ''o'') \<or> eq_fold d (CHR ''x''))
             then under_loop (eq_fold d (CHR ''x'')) (CHR ''0'') r
             else under_loop False (CHR ''^'') s
         | _ \<Rightarrow> under_loop False (CHR ''^'') s)"

record read_float =
  rf_neg :: bool
  rf_hex :: bool
  rf_mant :: mantissa
  rf_exp :: int
  rf_rest :: string

definition read_float :: "string \<Rightarrow> read_float option" where
  "read_float s =
     (if s = [] then None
      else let neg = (hd s = CHR ''-''); s1 = drop_sign s;
               hex = (2 < length s1 \<and> s1 ! 0 = CHR ''0'' \<and> eq_fold (s1 ! 1) (CHR ''x''));
               s2 = (if hex then drop 2 s1 else s1);
               (m, r) = scan_mantissa hex s2
                 \<lparr>m_digits = 0, m_frac = 0, m_dot = False, m_seen = False, m_under = False\<rparr>;
               expc = (if hex then CHR ''p'' else CHR ''e'')
           in if \<not> m_seen m then None
              else case r of
                c # r' \<Rightarrow>
                  if eq_fold c expc then
                    (let eneg = (r' \<noteq> [] \<and> hd r' = CHR ''-''); r2 = drop_sign r'
                     in if r2 = [] \<or> \<not> is_dec (hd r2) then None
                        else let (e, u, r3) = scan_exp r2 0 (m_under m)
                             in if u \<and> \<not> underscore_ok (take (length s - length r3) s) then None
                                else Some \<lparr>rf_neg = neg, rf_hex = hex, rf_mant = m,
                                           rf_exp = (if eneg then - e else e), rf_rest = r3\<rparr>)
                  else if hex then None
                  else if m_under m \<and> \<not> underscore_ok (take (length s - length r) s) then None
                  else Some \<lparr>rf_neg = neg, rf_hex = hex, rf_mant = m, rf_exp = 0, rf_rest = r\<rparr>
              | [] \<Rightarrow>
                  if hex then None
                  else if m_under m \<and> \<not> underscore_ok s then None
                  else Some \<lparr>rf_neg = neg, rf_hex = hex, rf_mant = m, rf_exp = 0, rf_rest = []\<rparr>)"

definition rf_value :: "read_float \<Rightarrow> float64" where
  \<comment> \<open>the exact value read, correctly rounded\<close>
  "rf_value rf =
     (let k = (if rf_hex rf then rf_exp rf - 4 * m_frac (rf_mant rf)
               else rf_exp rf - m_frac (rf_mant rf));
          b = (if rf_hex rf then 2 else 10);
          d = m_digits (rf_mant rf)
      in if d = 0 then FFin (rf_neg rf) 0 (- 1074)
         else if 0 \<le> k then fround (rf_neg rf) (d * b ^ nat k) 1
         else fround (rf_neg rf) d (b ^ nat (- k)))"

definition parse_float :: "string \<Rightarrow> parsed" where
  "parse_float s = (case special_float s of
     Some (f, n) \<Rightarrow> if n = length s then Parsed f else SyntaxErr
   | None \<Rightarrow> (case read_float s of
       None \<Rightarrow> SyntaxErr
     | Some rf \<Rightarrow>
         if rf_rest rf \<noteq> [] then SyntaxErr
         else (let f = rf_value rf in if is_fin f then Parsed f else RangeErr f)))"

fun parsed_value :: "parsed \<Rightarrow> float64" where
  \<comment> \<open>the first result of \<open>ParseFloat\<close> when the error is discarded\<close>
  "parsed_value (Parsed f) = f"
| "parsed_value SyntaxErr = fzero"
| "parsed_value (RangeErr f) = f"

subsection \<open>\<open>fmt.Sscanf(s, "%f", &f)\<close>\<close>

text \<open>The scanner takes the longest token of the shape of a number and hands it to
  \<open>ParseFloat\<close>; input after the token is ignored. Any error leaves the target unchanged
  (\<open>None\<close>).\<close>

fun accept :: "string \<Rightarrow> string \<times> string \<Rightarrow> bool \<times> string \<times> string" where
  "accept cs (buf, []) = (False, buf, [])"
| "accept cs (buf, c # r) = (if c \<in> set cs then (True, buf @ [c], r) else (False, buf, c # r))"

definition accept_many :: "string \<Rightarrow> string \<times> string \<Rightarrow> string \<times> string" where
  "accept_many cs st = (fst st @ takeWhile (\<lambda>c. c \<in> set cs) (snd st),
                        dropWhile (\<lambda>c. c \<in> set cs) (snd st))"

definition accept3 :: "string \<Rightarrow> string \<Rightarrow> string \<Rightarrow> string \<times> string \<Rightarrow> bool \<times> string \<times> string" where
  \<comment> \<open>\<open>s.accept(a) && s.accept(b) && s.accept(c)\<close>: what an early failure consumed stays consumed\<close>
  "accept3 a b c st =
     (let (p, st1) = accept a st in
      if \<not> p then (False, st1)
      else let (q, st2) = accept b st1 in
           if \<not> q then (False, st2) else accept c st2)"

definition float_token :: "string \<Rightarrow> string" where
  "float_token s =
     (let (nan, st1) = accept3 ''nN'' ''aA'' ''nN'' ([], s) in
      if nan then fst st1
      else let st2 = snd (accept ''+-'' st1);
               (inf, st3) = accept3 ''iI'' ''nN'' ''fF'' st2
           in if inf then fst st3
              else let (z, st4) = accept ''0'' st3;
                       (x, st5) = (if z then accept ''xX'' st4 else (False, st4));
                       digits = (if x then ''0123456789aAbBcCdDeEfF_'' else ''0123456789_'');
                       expc = (if x then ''pP'' else ''eEpP'');
                       st6 = accept_many digits st5;
                       (dot, st7) = accept ''.'' st6;
                       st8 = (if dot then accept_many digits st7 else st7);
                       (ex, st9) = accept expc st8
                   in if ex then fst (accept_many ''0123456789_'' (snd (accept ''+-'' st9)))
                      else fst st9)"

function skip_space :: "string \<Rightarrow> string option" where
  \<comment> \<open>\<open>SkipSpace\<close>: white space is skipped, a newline is an error (a carriage return before a
    newline is consumed and the newline still fails)\<close>
  "skip_space s =
     (if s \<noteq> [] \<and> hd s = newline then None
      else case leading_space s of
        None \<Rightarrow> Some s
      | Some sp \<Rightarrow> skip_space (drop (length sp) s))"
  by pat_completeness auto
termination
  by (relation "measure length") (auto dest: space_shrinks)

declare skip_space.simps [simp del]

definition go_atoi :: "string \<Rightarrow> int option" where
  \<comment> \<open>\<open>strconv.Atoi\<close>: a sign and decimal digits within \<open>int64\<close>\<close>
  "go_atoi s =
     (let neg = (s \<noteq> [] \<and> hd s = CHR ''-''); ds = drop_sign s;
          n = foldl (\<lambda>a c. a * 10 + (case dec_digit c of Some d \<Rightarrow> d | None \<Rightarrow> 0)) 0 ds;
          v = (if neg then - n else n)
      in if ds = [] \<or> \<not> list_all is_dec ds \<or> v < min_int64 \<or> max_int64 < v then None
         else Some v)"

fun fldexp :: "float64 \<Rightarrow> int \<Rightarrow> float64" where
  \<comment> \<open>\<open>math.Ldexp\<close>\<close>
  "fldexp (FFin s m e) k =
     (if m = 0 then FFin s m e else fround s (scale_den m (e + k)) (scale_num 1 (e + k)))"
| "fldexp x k = x"

definition convert_float :: "string \<Rightarrow> float64 option" where
  "convert_float tok =
     (if CHR ''p'' \<in> set tok \<and> \<not> (CHR ''x'' \<in> set tok \<or> CHR ''X'' \<in> set tok)
      then let m = takeWhile (\<lambda>c. c \<noteq> CHR ''p'') tok;
               k = tl (dropWhile (\<lambda>c. c \<noteq> CHR ''p'') tok)
           in (case parse_float m of
                 Parsed f \<Rightarrow> map_option (fldexp f) (go_atoi k)
               | _ \<Rightarrow> None)
      else case parse_float tok of Parsed f \<Rightarrow> Some f | _ \<Rightarrow> None)"

definition sscanf_f :: "string \<Rightarrow> float64 option" where
  "sscanf_f s = (case skip_space s of
     None \<Rightarrow> None
   | Some r \<Rightarrow> if r = [] then None else convert_float (float_token r))"

end
