(* ===== verification/Go_Fmt.thy ===== *)
theory Go_Fmt
  imports Go_Strings
begin

section \<open>Go's \<open>fmt.Sprintf\<close> verbs\<close>

text \<open>
  The verbs the program formats with: \<open>%d\<close>, \<open>%.Nf\<close>, \<open>%v\<close> of a bool and of a \<open>float64\<close>, and
  \<open>%q\<close>. The decimal conversions are exact: \<open>%.Nf\<close> rounds the binary value half to even,
  \<open>%v\<close> is the shortest decimal that reads back as the same value.
\<close>

subsection \<open>Integers\<close>

definition digit_char :: "int \<Rightarrow> char" where
  "digit_char d = char_of (nat (48 + d))"

function digits_of :: "int \<Rightarrow> string" where
  "digits_of n = (if n < 10 then [digit_char (max 0 n)]
                  else digits_of (n div 10) @ [digit_char (n mod 10)])"
  by pat_completeness auto
termination
  by (relation "measure nat") auto

declare digits_of.simps [simp del]

definition fmt_d :: "int \<Rightarrow> string" where
  "fmt_d n = (if n < 0 then ''-'' @ digits_of (- n) else digits_of n)"

subsection \<open>\<open>%.Nf\<close>\<close>

definition pad_left :: "nat \<Rightarrow> string \<Rightarrow> string" where
  "pad_left k s = replicate (k - length s) (CHR ''0'') @ s"

definition fixed_digits :: "nat \<Rightarrow> int \<Rightarrow> string" where
  \<comment> \<open>\<open>n / 10^prec\<close> written with exactly \<open>prec\<close> decimals\<close>
  "fixed_digits prec n =
     (let ds = pad_left (Suc prec) (digits_of n); k = length ds - prec
      in if prec = 0 then ds else take k ds @ ''.'' @ drop k ds)"

fun fmt_f :: "nat \<Rightarrow> float64 \<Rightarrow> string" where
  "fmt_f prec FNaN = ''NaN''"
| "fmt_f prec (FInf s) = (if s then ''-Inf'' else ''+Inf'')"
| "fmt_f prec (FFin s m e) =
     (if s then ''-'' else []) @
     fixed_digits prec (div_even (scale_den (m * 10 ^ prec) e) (scale_num 1 e))"

subsection \<open>\<open>%v\<close>\<close>

definition pow10_num :: "int \<Rightarrow> int" where "pow10_num k = (if 0 \<le> k then 10 ^ nat k else 1)"
definition pow10_den :: "int \<Rightarrow> int" where "pow10_den k = (if 0 \<le> k then 1 else 10 ^ nat (- k))"

function dec_len :: "int \<Rightarrow> int" where
  "dec_len n = (if n \<le> 0 then 0 else 1 + dec_len (n div 10))"
  by pat_completeness auto
termination
  by (relation "measure nat") auto

declare dec_len.simps [simp del]

definition dec_point :: "int \<Rightarrow> int \<Rightarrow> int" where
  \<comment> \<open>the \<open>dp\<close> with \<open>10^(dp-1) \<le> p/q < 10^dp\<close>\<close>
  "dec_point p q =
     (let k = dec_len p - dec_len q
      in if p * pow10_den k < q * pow10_num k then k else k + 1)"

definition read_back :: "int \<Rightarrow> int \<Rightarrow> float64" where
  \<comment> \<open>the double nearest to \<open>c * 10^k\<close>\<close>
  "read_back c k = fround False (c * pow10_num k) (pow10_den k)"

fun shortest_from :: "nat \<Rightarrow> float64 \<Rightarrow> int \<Rightarrow> int \<Rightarrow> int \<Rightarrow> int \<Rightarrow> int \<times> int" where
  \<comment> \<open>the least number of digits \<open>n\<close> for which a decimal \<open>c * 10^(dp-n)\<close> reads back as \<open>x = p/q\<close>,
    the nearer of the two neighbours when both do; seventeen digits always suffice\<close>
  "shortest_from 0 x p q dp n =
     (div_even (p * pow10_den (dp - n)) (q * pow10_num (dp - n)), dp - n)"
| "shortest_from (Suc fuel) x p q dp n =
     (let k = dp - n; num = p * pow10_den k; den = q * pow10_num k;
          c = num div den; r = num mod den;
          lo = (read_back c k = x); hi = (read_back (c + 1) k = x)
      in if lo \<and> (\<not> hi \<or> 2 * r < den \<or> (2 * r = den \<and> even c)) then (c, k)
         else if hi then (c + 1, k)
         else shortest_from fuel x p q dp (n + 1))"

function strip_zeros :: "int \<Rightarrow> int \<Rightarrow> int \<times> int" where
  "strip_zeros c k =
     (if c \<le> 0 \<or> c mod 10 \<noteq> 0 then (c, k) else strip_zeros (c div 10) (k + 1))"
  by pat_completeness auto
termination
  by (relation "measure (\<lambda>(c, k). nat c)") auto

declare strip_zeros.simps [simp del]

definition exp_suffix :: "int \<Rightarrow> string" where
  "exp_suffix e = ''e'' @ (if e < 0 then ''-'' else ''+'') @ pad_left 2 (digits_of \<bar>e\<bar>)"

definition fmt_shortest :: "int \<Rightarrow> int \<Rightarrow> string" where
  \<comment> \<open>\<open>%g\<close> of the shortest decimal \<open>c * 10^k\<close>: exponent form for a decimal exponent below
    \<open>-4\<close> or of at least 6\<close>
  "fmt_shortest c k =
     (let ds = digits_of c; nd = int (length ds); dp = nd + k; e = dp - 1
      in if e < - 4 \<or> 6 \<le> e then
           (if nd = 1 then ds else take 1 ds @ ''.'' @ drop 1 ds) @ exp_suffix e
         else if dp \<le> 0 then ''0.'' @ replicate (nat (- dp)) (CHR ''0'') @ ds
         else if nd \<le> dp then ds @ replicate (nat (dp - nd)) (CHR ''0'')
         else take (nat dp) ds @ ''.'' @ drop (nat dp) ds)"

fun fmt_v_float :: "float64 \<Rightarrow> string" where
  "fmt_v_float FNaN = ''NaN''"
| "fmt_v_float (FInf s) = (if s then ''-Inf'' else ''+Inf'')"
| "fmt_v_float (FFin s m e) =
     (if s then ''-'' else []) @
     (if m = 0 then ''0''
      else let p = scale_den m e; q = scale_num 1 e;
               (c, k) = shortest_from 17 (FFin False m e) p q (dec_point p q) 1;
               (c', k') = strip_zeros c k
           in fmt_shortest c' k')"

definition fmt_v_bool :: "bool \<Rightarrow> string" where
  "fmt_v_bool b = (if b then ''true'' else ''false'')"


subsection \<open>\<open>%q\<close>\<close>

text \<open>
  \<open>strconv.Quote\<close>. The table of printable runes beyond ASCII (\<open>strconv.IsPrint\<close>) is the
  parameter \<open>isprint\<close>.
\<close>

definition byte_in :: "string \<Rightarrow> nat \<Rightarrow> int \<Rightarrow> int \<Rightarrow> bool" where
  "byte_in s i lo hi \<longleftrightarrow> i < length s \<and> lo \<le> char_code (s ! i) \<and> char_code (s ! i) \<le> hi"

definition cont :: "string \<Rightarrow> nat \<Rightarrow> int" where
  "cont s i = char_code (s ! i) - 128"

definition decode_rune :: "string \<Rightarrow> (int \<times> nat) option" where
  \<comment> \<open>\<open>utf8.DecodeRuneInString\<close> of a non-empty string; \<open>None\<close> is an invalid encoding, of which one
    byte is consumed\<close>
  "decode_rune s =
     (let c = char_code (hd s) in
      if c < 128 then Some (c, 1)
      else if byte_in s 0 194 223 \<and> byte_in s 1 128 191 then Some ((c - 192) * 64 + cont s 1, 2)
      else if byte_in s 0 224 239 \<and>
              byte_in s 1 (if c = 224 then 160 else 128) (if c = 237 then 159 else 191) \<and>
              byte_in s 2 128 191
           then Some ((c - 224) * 4096 + cont s 1 * 64 + cont s 2, 3)
      else if byte_in s 0 240 244 \<and>
              byte_in s 1 (if c = 240 then 144 else 128) (if c = 244 then 143 else 191) \<and>
              byte_in s 2 128 191 \<and> byte_in s 3 128 191
           then Some ((c - 240) * 262144 + cont s 1 * 4096 + cont s 2 * 64 + cont s 3, 4)
      else None)"

definition hex_char :: "int \<Rightarrow> char" where
  "hex_char d = char_of (nat (if d < 10 then 48 + d else 87 + d))"

fun hex_digits :: "nat \<Rightarrow> int \<Rightarrow> string" where
  "hex_digits 0 n = []"
| "hex_digits (Suc k) n = hex_digits k (n div 16) @ [hex_char (n mod 16)]"

definition quote_rune :: "(int \<Rightarrow> bool) \<Rightarrow> int \<Rightarrow> string \<Rightarrow> string" where
  "quote_rune isprint r enc =
     (if r = 34 \<or> r = 92 then CHR 0x5C # enc
      else if (32 \<le> r \<and> r < 127) \<or> (128 \<le> r \<and> isprint r) then enc
      else if r = 7 then [CHR 0x5C, CHR ''a''] else if r = 8 then [CHR 0x5C, CHR ''b'']
      else if r = 12 then [CHR 0x5C, CHR ''f''] else if r = 10 then [CHR 0x5C, CHR ''n'']
      else if r = 13 then [CHR 0x5C, CHR ''r''] else if r = 9 then [CHR 0x5C, CHR ''t'']
      else if r = 11 then [CHR 0x5C, CHR ''v'']
      else if r < 32 \<or> r = 127 then [CHR 0x5C, CHR ''x''] @ hex_digits 2 r
      else if r < 65536 then [CHR 0x5C, CHR ''u''] @ hex_digits 4 r
      else [CHR 0x5C, CHR ''U''] @ hex_digits 8 r)"

function quote_body :: "(int \<Rightarrow> bool) \<Rightarrow> string \<Rightarrow> string" where
  "quote_body isprint [] = []"
| "quote_body isprint (c # s) = (case decode_rune (c # s) of
     None \<Rightarrow> [CHR 0x5C, CHR ''x''] @ hex_digits 2 (char_code c) @ quote_body isprint s
   | Some (r, w) \<Rightarrow>
       quote_rune isprint r (take w (c # s)) @ quote_body isprint (drop (max 1 w) (c # s)))"
  by pat_completeness auto
termination
  by (relation "measure (\<lambda>(p, s). length s)") auto

definition fmt_q :: "(int \<Rightarrow> bool) \<Rightarrow> string \<Rightarrow> string" where
  "fmt_q isprint s = CHR 0x22 # quote_body isprint s @ [CHR 0x22]"

text \<open>A name of printable ASCII without quotes or backslashes is quoted verbatim.\<close>

definition plain_ascii :: "string \<Rightarrow> bool" where
  "plain_ascii s \<longleftrightarrow> list_all (\<lambda>c. 32 \<le> char_code c \<and> char_code c < 127 \<and>
     char_code c \<noteq> 34 \<and> char_code c \<noteq> 92) s"

lemma quote_body_plain: "plain_ascii s \<Longrightarrow> quote_body isprint s = s"
proof (induction s)
  case (Cons c s)
  then have c: "32 \<le> char_code c" "char_code c < 127" "char_code c \<noteq> 34" "char_code c \<noteq> 92"
    and s: "plain_ascii s" by (auto simp: plain_ascii_def)
  from c have "decode_rune (c # s) = Some (char_code c, 1)" by (simp add: decode_rune_def)
  with c Cons.IH [OF s] show ?case by (simp add: quote_rune_def)
qed simp

lemma fmt_q_plain: "plain_ascii s \<Longrightarrow> fmt_q isprint s = CHR 0x22 # s @ [CHR 0x22]"
  by (simp add: fmt_q_def quote_body_plain)

end
