(* ===== verification/Policy_Types.thy ===== *)
theory Policy_Types
  imports Go_Fmt
begin

section \<open>The AdaptivePolicy API (api/v1alpha1/adaptivepolicy_types.go)\<close>

text \<open>
  One record per struct, one field per field, in source order. A pointer field is an
  \<open>option\<close>, a Go map a \<open>gomap\<close>, an \<open>int32\<close> a 32-bit word, an \<open>int64\<close> an \<open>int\<close>, a \<open>metav1.Time\<close>
  a \<open>gotime\<close>. The enum types are Go strings, so any string can occur in them and the empty
  string means "unset". The predicates and \<open>Effective...\<close> methods follow.
\<close>

subsection \<open>Constants\<close>

definition AnnotationHumanOverride :: string where
  "AnnotationHumanOverride = ''shedpilot.io/human-override''"
definition AnnotationPreviousProfile :: string where
  "AnnotationPreviousProfile = ''shedpilot.io/previous-profile''"

definition ConditionReady :: string where "ConditionReady = ''Ready''"
definition ConditionDegraded :: string where "ConditionDegraded = ''Degraded''"
definition ConditionSignalCollectionAvailable :: string where
  "ConditionSignalCollectionAvailable = ''SignalCollectionAvailable''"
definition ConditionFilterEffective :: string where "ConditionFilterEffective = ''FilterEffective''"

type_synonym MeshBackend = string
type_synonym MeshMode = string
type_synonym Percentile = string

definition MeshBackendAuto :: MeshBackend where "MeshBackendAuto = ''auto''"
definition MeshBackendIstio :: MeshBackend where "MeshBackendIstio = ''istio''"
definition MeshBackendCilium :: MeshBackend where "MeshBackendCilium = ''cilium''"
definition MeshModeSidecar :: MeshMode where "MeshModeSidecar = ''sidecar''"
definition MeshModeAmbient :: MeshMode where "MeshModeAmbient = ''ambient''"
definition PercentileP50 :: Percentile where "PercentileP50 = ''p50''"
definition PercentileP75 :: Percentile where "PercentileP75 = ''p75''"
definition PercentileP90 :: Percentile where "PercentileP90 = ''p90''"
definition PercentileP99 :: Percentile where "PercentileP99 = ''p99''"

definition EnvoyValue :: "Percentile \<Rightarrow> float64" where
  "EnvoyValue p =
     (if p = PercentileP75 then fof_int 75
      else if p = PercentileP90 then fof_int 90
      else if p = PercentileP99 then fof_int 99
      else fof_int 50)"

subsection \<open>Spec\<close>

record AdaptiveConcurrencyConfig =
  acc_Enabled :: bool
  acc_LatencyPercentile :: Percentile
  acc_LatencyBaselineInterval :: string
  acc_LatencyBaselineSampleSize :: int32
  acc_ConcurrencyAdjustInterval :: string
  acc_MaxLoadIncrease :: string
  acc_ConcurrencyLimit :: int32
  acc_MeasurementJitter :: int32

record HTTPStatusRange =
  sr_Start :: int32
  sr_End :: int32

record AdmissionControlConfig =
  ac_Enabled :: bool
  ac_SuccessRateWindow :: string
  ac_SuccessRateThreshold :: string
  ac_SheddingSpeed :: string
  ac_MinRequestsPerSecond :: int32
  ac_MaxRejectionPercent :: string
  ac_SuccessCodes :: "HTTPStatusRange list"
  ac_SkipPaths :: "string list"

record StreamingProtectionConfig =
  sp_Enabled :: bool
  sp_MaxConcurrentStreams :: int32
  sp_StreamTimeoutSeconds :: int32
  sp_MaxPendingRequests :: int32

record AdmissionControlOverride =
  aco_SuccessRateThreshold :: string
  aco_SheddingSpeed :: string
  aco_SuccessRateWindow :: string

record AdaptiveConcurrencyOverride =
  acv_LatencyPercentile :: Percentile

record ProfileConfig =
  pf_AdmissionControl :: "AdmissionControlOverride option"
  pf_AdaptiveConcurrency :: "AdaptiveConcurrencyOverride option"

record RateCondition =
  rc_Below :: string
  rc_Above :: string
  rc_ConsecutiveSamples :: int32

record ThresholdCondition =
  tc_Above :: string
  tc_Below :: string
  tc_ConsecutiveSamples :: int32

record TriggerCondition =
  cond_SuccessRate :: "RateCondition option"
  cond_ServiceLatencyMs :: "ThresholdCondition option"
  cond_RPSAbove :: "int32 option"

record TriggerConfig =
  tr_Name :: string
  tr_When :: TriggerCondition
  tr_SwitchTo :: string
  tr_FromProfiles :: "string list"
  tr_CooldownSeconds :: int32

record ScheduleConfig =
  sch_Name :: string
  sch_Cron :: string
  sch_SwitchTo :: string
  sch_FromProfiles :: "string list"

record SignalConfig =
  sig_MetricsEndpoint :: string
  sig_EvaluationIntervalSeconds :: int32
  sig_CapacityWarningPercent :: int32
  sig_CapacityWarningWindowDays :: int32

record DetectionConfig =
  det_PollIntervalMs :: int32
  det_ConsecutiveBreaches :: int32
  det_ConsecutiveRecoveries :: int32

record AdaptivePolicySpec =
  Selector :: "(string, string) gomap"
  MeshBackendField :: MeshBackend
  MeshModeField :: MeshMode
  DryRun :: bool
  AdaptiveConcurrency :: "AdaptiveConcurrencyConfig option"
  AdmissionControl :: "AdmissionControlConfig option"
  StreamingProtection :: "StreamingProtectionConfig option"
  Profiles :: "(string, ProfileConfig) gomap"
  ActiveProfile :: string
  Triggers :: "TriggerConfig list"
  Schedules :: "ScheduleConfig list"
  SignalConfigField :: "SignalConfig option"
  Detection :: "DetectionConfig option"

subsection \<open>Status\<close>

record DecisionRecord =
  dr_Timestamp :: gotime
  dr_TriggerName :: string
  dr_ScheduleName :: string
  dr_ProfileBefore :: string
  dr_ProfileAfter :: string
  dr_SignalValues :: string
  dr_DeliveryMethod :: string
  dr_DeliveryLatencyMs :: int
  dr_Outcome :: string
  dr_OutcomeDetail :: string

record ManagedResource =
  mr_APIVersion :: string
  mr_Kind :: string
  mr_Name :: string
  mr_Namespace :: string

text \<open>\<open>metav1.Condition\<close>, a Kubernetes API struct; only its fields are used.\<close>

record Condition =
  c_Type :: string
  c_Status :: string
  c_ObservedGeneration :: int
  c_LastTransitionTime :: gotime
  c_Reason :: string
  c_Message :: string

record AdaptivePolicyStatus =
  Conditions :: "Condition list"
  ObservedGeneration :: int
  DetectedBackend :: string
  st_ActiveProfile :: string
  ProfileActiveSince :: "gotime option"
  ActiveFilters :: "string list"
  ManagedResources :: "ManagedResource list"
  ShedRateNow :: string
  WouldHaveShedRate :: string
  LastDecision :: "DecisionRecord option"
  DecisionHistory :: "DecisionRecord list"
  NextTriggerEvaluation :: "gotime option"
  st_ConsecutiveBadSamples :: int32
  ScalabilityWarning :: bool
  ScalabilityWarningDetail :: string
  LastReconcileTime :: "gotime option"
  RTDSConnected :: bool

text \<open>The object metadata the program reads, then spec and status.\<close>

record AdaptivePolicy =
  Name :: string
  Namespace :: string
  UID :: string
  Generation :: int
  Annotations :: "(string, string) gomap"
  Spec :: AdaptivePolicySpec
  Status :: AdaptivePolicyStatus

subsection \<open>Predicates\<close>

definition map_get :: "('k, string) gomap \<Rightarrow> 'k \<Rightarrow> string" where
  \<comment> \<open>\<open>m[k]\<close> of a string map: the zero value when the key is absent\<close>
  "map_get m k = (case map_of m k of None \<Rightarrow> [] | Some v \<Rightarrow> v)"

definition IsHumanOverrideEnabled :: "AdaptivePolicy \<Rightarrow> bool" where
  "IsHumanOverrideEnabled ap \<longleftrightarrow> map_get (Annotations ap) AnnotationHumanOverride = ''true''"

definition IsDryRun :: "AdaptivePolicy \<Rightarrow> bool" where
  "IsDryRun ap \<longleftrightarrow> DryRun (Spec ap)"

definition HasAdaptiveConcurrency :: "AdaptivePolicy \<Rightarrow> bool" where
  "HasAdaptiveConcurrency ap \<longleftrightarrow>
     (case AdaptiveConcurrency (Spec ap) of None \<Rightarrow> False | Some c \<Rightarrow> acc_Enabled c)"

definition HasAdmissionControl :: "AdaptivePolicy \<Rightarrow> bool" where
  "HasAdmissionControl ap \<longleftrightarrow>
     (case AdmissionControl (Spec ap) of None \<Rightarrow> False | Some c \<Rightarrow> ac_Enabled c)"

definition HasStreamingProtection :: "AdaptivePolicy \<Rightarrow> bool" where
  "HasStreamingProtection ap \<longleftrightarrow>
     (case StreamingProtection (Spec ap) of None \<Rightarrow> False | Some c \<Rightarrow> sp_Enabled c)"

definition HasProfiles :: "AdaptivePolicy \<Rightarrow> bool" where
  "HasProfiles ap \<longleftrightarrow> 0 < length (Profiles (Spec ap))"

definition HasTriggers :: "AdaptivePolicy \<Rightarrow> bool" where
  "HasTriggers ap \<longleftrightarrow> 0 < length (Triggers (Spec ap))"

definition HasSchedules :: "AdaptivePolicy \<Rightarrow> bool" where
  "HasSchedules ap \<longleftrightarrow> 0 < length (Schedules (Spec ap))"

definition EffectiveMeshMode :: "AdaptivePolicy \<Rightarrow> MeshMode" where
  "EffectiveMeshMode ap =
     (if MeshModeField (Spec ap) = [] then MeshModeSidecar else MeshModeField (Spec ap))"

definition EffectiveMeshBackend :: "AdaptivePolicy \<Rightarrow> MeshBackend" where
  "EffectiveMeshBackend ap =
     (if MeshBackendField (Spec ap) = [] then MeshBackendAuto else MeshBackendField (Spec ap))"

subsection \<open>The configuration in effect\<close>

definition empty_profile :: ProfileConfig where
  "empty_profile = \<lparr>pf_AdmissionControl = None, pf_AdaptiveConcurrency = None\<rparr>"

definition ActiveProfileConfig :: "AdaptivePolicy \<Rightarrow> ProfileConfig \<times> bool" where
  "ActiveProfileConfig ap =
     (if ActiveProfile (Spec ap) = [] then (empty_profile, False)
      else case map_of (Profiles (Spec ap)) (ActiveProfile (Spec ap)) of
        None \<Rightarrow> (empty_profile, False) | Some p \<Rightarrow> (p, True))"

definition EffectiveSuccessRateThreshold :: "AdaptivePolicy \<Rightarrow> string" where
  "EffectiveSuccessRateThreshold ap =
     (let (profile, ok) = ActiveProfileConfig ap;
          base = (case AdmissionControl (Spec ap) of
                    Some c \<Rightarrow> if ac_SuccessRateThreshold c \<noteq> [] then ac_SuccessRateThreshold c
                              else ''95.0''
                  | None \<Rightarrow> ''95.0'')
      in if ok then
           (case pf_AdmissionControl profile of
              Some o' \<Rightarrow> if aco_SuccessRateThreshold o' \<noteq> [] then aco_SuccessRateThreshold o'
                         else base
            | None \<Rightarrow> base)
         else base)"

definition EffectiveSheddingSpeed :: "AdaptivePolicy \<Rightarrow> string" where
  "EffectiveSheddingSpeed ap =
     (let (profile, ok) = ActiveProfileConfig ap;
          base = (case AdmissionControl (Spec ap) of
                    Some c \<Rightarrow> if ac_SheddingSpeed c \<noteq> [] then ac_SheddingSpeed c else ''1.5''
                  | None \<Rightarrow> ''1.5'')
      in if ok then
           (case pf_AdmissionControl profile of
              Some o' \<Rightarrow> if aco_SheddingSpeed o' \<noteq> [] then aco_SheddingSpeed o' else base
            | None \<Rightarrow> base)
         else base)"

definition EffectiveSuccessRateWindow :: "AdaptivePolicy \<Rightarrow> string" where
  "EffectiveSuccessRateWindow ap =
     (let (profile, ok) = ActiveProfileConfig ap;
          base = (case AdmissionControl (Spec ap) of
                    Some c \<Rightarrow> if ac_SuccessRateWindow c \<noteq> [] then ac_SuccessRateWindow c else ''30s''
                  | None \<Rightarrow> ''30s'')
      in if ok then
           (case pf_AdmissionControl profile of
              Some o' \<Rightarrow> if aco_SuccessRateWindow o' \<noteq> [] then aco_SuccessRateWindow o' else base
            | None \<Rightarrow> base)
         else base)"

definition EffectiveLatencyPercentile :: "AdaptivePolicy \<Rightarrow> Percentile" where
  "EffectiveLatencyPercentile ap =
     (let (profile, ok) = ActiveProfileConfig ap;
          base = (case AdaptiveConcurrency (Spec ap) of
                    Some c \<Rightarrow> if acc_LatencyPercentile c \<noteq> [] then acc_LatencyPercentile c
                              else PercentileP50
                  | None \<Rightarrow> PercentileP50)
      in if ok then
           (case pf_AdaptiveConcurrency profile of
              Some o' \<Rightarrow> if acv_LatencyPercentile o' \<noteq> [] then acv_LatencyPercentile o' else base
            | None \<Rightarrow> base)
         else base)"

lemmas has_defs [policy_simps] =
  HasAdaptiveConcurrency_def HasAdmissionControl_def HasStreamingProtection_def
  HasTriggers_def IsDryRun_def

lemma HasAdmissionControl_Some:
  "HasAdmissionControl ap \<Longrightarrow> \<exists>c. AdmissionControl (Spec ap) = Some c \<and> ac_Enabled c"
  by (auto simp: policy_simps split: option.splits)

lemma HasAdaptiveConcurrency_Some:
  "HasAdaptiveConcurrency ap \<Longrightarrow> \<exists>c. AdaptiveConcurrency (Spec ap) = Some c \<and> acc_Enabled c"
  by (auto simp: policy_simps split: option.splits)

lemma HasStreamingProtection_Some:
  "HasStreamingProtection ap \<Longrightarrow> \<exists>c. StreamingProtection (Spec ap) = Some c \<and> sp_Enabled c"
  by (auto simp: policy_simps split: option.splits)

end
