(* ===== verification/Go_Float_Facts.thy ===== *)
theory Go_Float_Facts
  imports Go_Float
begin

section \<open>Facts about binary64 rounding and arithmetic\<close>

text \<open>
  The facts the components rest on. The main ones are the two enclosure rules
  \<open>fround_ge\<close> and \<open>fround_le\<close>: rounding never crosses a representable value. Exactness on
  representable results, signs, the clamp to \<open>[0, 1]\<close> and monotonicity follow from them.
\<close>

subsection \<open>Bit length\<close>

lemma blen_bounds: "0 < n \<Longrightarrow> 2 ^ (blen n - 1) \<le> n \<and> n < 2 ^ blen n \<and> 0 < blen n"
proof (induction n rule: blen.induct)
  case (1 n)
  show ?case
  proof (cases "n = 1")
    case True
    then show ?thesis by (simp add: blen.simps [of 1] blen.simps [of 0])
  next
    case False
    with "1.prems" have pos: "0 < n div 2" by simp
    with "1" have ih: "2 ^ (blen (n div 2) - 1) \<le> n div 2" "n div 2 < 2 ^ blen (n div 2)"
        "0 < blen (n div 2)" by auto
    from ih(3) have eq: "(2::int) ^ blen (n div 2) = 2 * 2 ^ (blen (n div 2) - 1)"
      by (metis power_minus_mult mult.commute)
    from "1.prems" have "blen n = Suc (blen (n div 2))" by (simp add: blen.simps [of n])
    moreover have "2 ^ blen (n div 2) \<le> n" "n < 2 * 2 ^ blen (n div 2)"
      using ih eq by linarith+
    ultimately show ?thesis by simp
  qed
qed

subsection \<open>The real value of a scaled fraction\<close>

lemma two_powi_pos [simp]: "0 < (2::real) powi e" "\<not> (2::real) powi e < 0"
  by (simp_all add: not_less)

lemma powi_nat: "0 \<le> e \<Longrightarrow> (2::real) powi e = 2 ^ nat e"
  by (simp add: power_int_def)

lemma powi_neg: "e < 0 \<Longrightarrow> (2::real) powi e = 1 / 2 ^ nat (- e)"
  by (simp add: power_int_def inverse_eq_divide power_one_over)

lemma scale_den_pos [simp]: "0 < d \<Longrightarrow> 0 < scale_den d e"
  by (simp add: scale_den_def)

lemma scale_num_pos [simp]: "0 < n \<Longrightarrow> 0 < scale_num n e"
  by (simp add: scale_num_def)

lemma scale_num_nonneg [simp]: "0 \<le> n \<Longrightarrow> 0 \<le> scale_num n e"
  by (simp add: scale_num_def)

lemma scale_div: "q \<noteq> 0 \<Longrightarrow>
  real_of_int (scale_num p e) / real_of_int (scale_den q e) = (p / q) / 2 powi e"
  by (simp add: scale_num_def scale_den_def powi_nat powi_neg)

lemma scale_less_iff: "0 < q \<Longrightarrow>
  scale_num p e < k * scale_den q e \<longleftrightarrow> real_of_int p / real_of_int q < of_int k * 2 powi e"
proof -
  assume q: "0 < q"
  have "scale_num p e < k * scale_den q e \<longleftrightarrow>
      real_of_int (scale_num p e) < of_int k * real_of_int (scale_den q e)"
    by (metis of_int_less_iff of_int_mult)
  also have "\<dots> \<longleftrightarrow> real_of_int (scale_num p e) / real_of_int (scale_den q e) < of_int k"
    using q by (simp add: pos_divide_less_eq)
  also have "\<dots> \<longleftrightarrow> (p / q) / 2 powi e < of_int k" using q by (simp add: scale_div)
  also have "\<dots> \<longleftrightarrow> real_of_int p / real_of_int q < of_int k * 2 powi e"
    by (rule pos_divide_less_eq) simp
  finally show ?thesis .
qed

subsection \<open>The rounding exponent\<close>

lemma powi_Suc: "(2::real) powi (e + 1) = 2 * 2 powi e"
  by (simp add: power_int_add)

lemma powi_mono: "d \<le> e \<Longrightarrow> (2::real) powi d \<le> 2 powi e"
  by (simp add: power_int_increasing)

lemma blen_ratio:
  assumes "0 < p" "0 < q"
  defines "e0 \<equiv> int (blen p) - int (blen q) - 53"
  shows "2 ^ 52 * 2 powi e0 < real_of_int p / real_of_int q"
    and "real_of_int p / real_of_int q < 2 ^ 54 * 2 powi e0"
proof -
  let ?a = "blen p" and ?b = "blen q"
  from blen_bounds [OF assms(1)] have p: "2 ^ (?a - 1) \<le> p" "p < 2 ^ ?a" "0 < ?a" by auto
  from blen_bounds [OF assms(2)] have q: "2 ^ (?b - 1) \<le> q" "q < 2 ^ ?b" "0 < ?b" by auto
  have pr: "(2::real) powi (int ?a - 1) \<le> p" "p < 2 powi int ?a"
  proof -
    have "real_of_int (2 ^ (?a - 1)) \<le> p" using p by (simp only: of_int_le_iff)
    moreover have "(2::real) powi (int ?a - 1) = 2 ^ (?a - 1)"
      using p(3) by (simp add: powi_nat nat_diff_distrib)
    ultimately show "(2::real) powi (int ?a - 1) \<le> p" by simp
    have "real_of_int p < real_of_int (2 ^ ?a)" using p by (simp only: of_int_less_iff)
    then show "p < (2::real) powi int ?a" by simp
  qed
  have qr: "(2::real) powi (int ?b - 1) \<le> q" "q < 2 powi int ?b"
  proof -
    have "real_of_int (2 ^ (?b - 1)) \<le> q" using q by (simp only: of_int_le_iff)
    moreover have "(2::real) powi (int ?b - 1) = 2 ^ (?b - 1)"
      using q(3) by (simp add: powi_nat nat_diff_distrib)
    ultimately show "(2::real) powi (int ?b - 1) \<le> q" by simp
    have "real_of_int q < real_of_int (2 ^ ?b)" using q by (simp only: of_int_less_iff)
    then show "q < (2::real) powi int ?b" by simp
  qed
  have e: "(2::real) ^ 52 * 2 powi e0 = 2 powi (int ?a - 1) / 2 powi int ?b"
    "(2::real) ^ 54 * 2 powi e0 = 2 powi int ?a / 2 powi (int ?b - 1)"
    unfolding e0_def by (simp_all add: power_int_diff)
  have "2 powi (int ?a - 1) / 2 powi int ?b < real_of_int p / real_of_int q"
    using pr qr assms by (intro frac_less2) auto
  with e(1) show "2 ^ 52 * 2 powi e0 < real_of_int p / real_of_int q" by simp
  have "real_of_int p / real_of_int q < 2 powi int ?a / 2 powi (int ?b - 1)"
    using pr qr assms by (intro frac_less) auto
  with e(2) show "real_of_int p / real_of_int q < 2 ^ 54 * 2 powi e0" by simp
qed

lemma round_exp_spec:
  assumes "0 < p" "0 < q"
  shows "- 1074 \<le> round_exp p q"
    and "real_of_int p / real_of_int q < 2 ^ 53 * 2 powi round_exp p q"
    and "round_exp p q = - 1074 \<or> 2 ^ 52 * 2 powi round_exp p q \<le> real_of_int p / real_of_int q"
proof -
  let ?x = "real_of_int p / real_of_int q"
  define e0 where "e0 = int (blen p) - int (blen q) - 53"
  define e1 where "e1 = (if scale_num p e0 < 2 ^ 53 * scale_den q e0 then e0 else e0 + 1)"
  have b: "2 ^ 52 * 2 powi e0 < ?x" "?x < 2 ^ 54 * 2 powi e0"
    using blen_ratio [OF assms] by (auto simp: e0_def)
  have s: "scale_num p e0 < 2 ^ 53 * scale_den q e0 \<longleftrightarrow> ?x < 2 ^ 53 * 2 powi e0"
    using scale_less_iff [OF assms(2), of p e0 "2 ^ 53"] by simp
  have hi: "?x < 2 ^ 53 * 2 powi e1"
  proof (cases "?x < 2 ^ 53 * 2 powi e0")
    case True
    with s show ?thesis by (simp add: e1_def)
  next
    case False
    with s have "e1 = e0 + 1" by (simp add: e1_def)
    then have "(2::real) ^ 53 * 2 powi e1 = 2 ^ 54 * 2 powi e0" by (simp add: powi_Suc)
    with b(2) show ?thesis by simp
  qed
  have lo: "2 ^ 52 * 2 powi e1 \<le> ?x"
  proof (cases "?x < 2 ^ 53 * 2 powi e0")
    case True
    with s b(1) show ?thesis by (simp add: e1_def)
  next
    case False
    with s have "e1 = e0 + 1" by (simp add: e1_def)
    then have "(2::real) ^ 52 * 2 powi e1 = 2 ^ 53 * 2 powi e0" by (simp add: powi_Suc)
    with False show ?thesis by simp
  qed
  have r: "round_exp p q = max e1 (- 1074)" by (simp add: round_exp_def e0_def e1_def Let_def)
  show "- 1074 \<le> round_exp p q" by (simp add: r)
  have "(2::real) powi e1 \<le> 2 powi max e1 (- 1074)" by (rule powi_mono) simp
  with hi show "?x < 2 ^ 53 * 2 powi round_exp p q" by (simp add: r)
  show "round_exp p q = - 1074 \<or> 2 ^ 52 * 2 powi round_exp p q \<le> ?x"
    using lo by (cases "- 1074 \<le> e1") (auto simp: r max_def)
qed

subsection \<open>Rounding to an integer\<close>

lemma div_even_cases: "div_even n d = n div d \<or> (div_even n d = n div d + 1 \<and> n mod d \<noteq> 0)"
  if "0 < d"
  using that by (auto simp: div_even_def Let_def)

lemma div_even_ge: "0 < d \<Longrightarrow> k * d \<le> n \<Longrightarrow> k \<le> div_even n d"
proof -
  assume d: "0 < d" and k: "k * d \<le> n"
  then have "k \<le> n div d" by (metis zdiv_mono1 nonzero_mult_div_cancel_right less_irrefl)
  with div_even_cases [OF d, of n] show ?thesis by auto
qed

lemma div_even_le: "0 < d \<Longrightarrow> n \<le> k * d \<Longrightarrow> div_even n d \<le> k"
proof -
  assume d: "0 < d" and k: "n \<le> k * d"
  then have le: "n div d \<le> k" by (metis zdiv_mono1 nonzero_mult_div_cancel_right less_irrefl)
  show ?thesis
  proof (cases "n mod d = 0")
    case True
    with div_even_cases [OF d, of n] le show ?thesis by auto
  next
    case False
    with d k have "n < k * d" by (metis dvd_imp_mod_0 dvd_triv_right order_le_less)
    then have "n div d * d < k * d" using div_mult_mod_eq [of n d] pos_mod_sign [OF d, of n]
      by linarith
    with d have "n div d < k" by simp
    with div_even_cases [OF d, of n] show ?thesis by auto
  qed
qed

lemma div_even_near:
  assumes "0 < d"
  shows "\<bar>2 * (div_even n d * d - n)\<bar> \<le> d"
proof -
  have e: "n = n div d * d + n mod d" by simp
  have r: "0 \<le> n mod d" "n mod d < d" using assms by simp_all
  show ?thesis
  proof (cases "2 * (n mod d) < d \<or> (2 * (n mod d) = d \<and> even (n div d))")
    case True
    then have "div_even n d = n div d" by (simp add: div_even_def Let_def)
    then have "div_even n d * d - n = - (n mod d)"
      by (simp add: minus_div_mult_eq_mod [symmetric])
    with True r show ?thesis by auto
  next
    case False
    then have "div_even n d = n div d + 1" by (simp add: div_even_def Let_def)
    then have "div_even n d * d - n = n div d * d + d - n" by (simp add: algebra_simps)
    then have "div_even n d * d - n = d - n mod d"
      by (simp add: minus_div_mult_eq_mod [symmetric])
    with False r show ?thesis by auto
  qed
qed


subsection \<open>Rounding a fraction\<close>

definition round_mant :: "int \<Rightarrow> int \<Rightarrow> int" where
  "round_mant p q = div_even (scale_num p (round_exp p q)) (scale_den q (round_exp p q))"

lemma fround_eq:
  "0 < p \<Longrightarrow> fround s p q =
     (if round_mant p q = 2 ^ 53
      then (if round_exp p q + 1 > 971 then FInf s else FFin s (2 ^ 52) (round_exp p q + 1))
      else if round_exp p q > 971 then FInf s else FFin s (round_mant p q) (round_exp p q))"
  by (simp add: fround_def round_mant_def Let_def)

lemma scaled_le_iff: "0 < q \<Longrightarrow>
  k * scale_den q e \<le> scale_num p e \<longleftrightarrow> of_int k * 2 powi e \<le> real_of_int p / real_of_int q"
  using scale_less_iff [of q p e k] by (auto simp: not_less [symmetric])

lemma scaled_ge_iff: "0 < q \<Longrightarrow>
  scale_num p e \<le> k * scale_den q e \<longleftrightarrow> real_of_int p / real_of_int q \<le> of_int k * 2 powi e"
proof -
  assume q: "0 < q"
  have "scale_num p e \<le> k * scale_den q e \<longleftrightarrow>
      real_of_int (scale_num p e) \<le> of_int k * real_of_int (scale_den q e)"
    by (metis of_int_le_iff of_int_mult)
  also have "\<dots> \<longleftrightarrow> real_of_int (scale_num p e) / real_of_int (scale_den q e) \<le> of_int k"
    using q by (simp add: pos_divide_le_eq)
  also have "\<dots> \<longleftrightarrow> (p / q) / 2 powi e \<le> of_int k" using q by (simp add: scale_div)
  also have "\<dots> \<longleftrightarrow> real_of_int p / real_of_int q \<le> of_int k * 2 powi e"
    by (rule pos_divide_le_eq) simp
  finally show ?thesis .
qed

lemma round_mant_bounds:
  assumes "0 < p" "0 < q"
  shows "0 \<le> round_mant p q" "round_mant p q \<le> 2 ^ 53"
    and "round_exp p q = - 1074 \<or> 2 ^ 52 \<le> round_mant p q"
proof -
  have d: "0 < scale_den q (round_exp p q)" using assms by simp
  note spec = round_exp_spec [OF assms]
  show "0 \<le> round_mant p q"
    unfolding round_mant_def by (rule div_even_ge [OF d]) (use assms in simp)
  show "round_mant p q \<le> 2 ^ 53"
    unfolding round_mant_def
    by (rule div_even_le [OF d], subst scaled_ge_iff [OF assms(2)]) (use spec(2) in simp)
  show "round_exp p q = - 1074 \<or> 2 ^ 52 \<le> round_mant p q"
  proof (cases "round_exp p q = - 1074")
    case False
    with spec(3) have "2 ^ 52 * 2 powi round_exp p q \<le> real_of_int p / real_of_int q" by simp
    then have "2 ^ 52 \<le> round_mant p q"
      unfolding round_mant_def
      by (intro div_even_ge [OF d], subst scaled_le_iff [OF assms(2)]) simp
    then show ?thesis ..
  qed simp
qed

lemma fround_ok [simp]: "0 \<le> p \<Longrightarrow> 0 < q \<Longrightarrow> float_ok (fround s p q)"
proof (cases "p = 0")
  case True
  then show ?thesis by (simp add: fround_def)
next
  case False
  assume "0 \<le> p" "0 < q"
  with False have pq: "0 < p" "0 < q" by auto
  have "- 1074 \<le> round_exp p q" using round_exp_spec [OF pq] by simp
  with round_mant_bounds [OF pq] show ?thesis by (auto simp: fround_eq [OF pq(1)])
qed

text \<open>The value of a finite result is the rounded mantissa at the rounding exponent.\<close>

lemma fround_val:
  assumes "0 < p" "0 < q" "is_fin (fround s p q)"
  shows "fval (fround s p q) =
    (if s then - 1 else 1) * (of_int (round_mant p q) * 2 powi round_exp p q)"
  using assms by (auto simp: fround_eq powi_Suc split: if_splits)

lemma fround_not_nan [simp]: "fround s p q \<noteq> FNaN"
  by (simp add: fround_def Let_def)

lemma fround_fin_or_inf: "is_fin (fround s p q) \<or> fround s p q = FInf s"
  by (simp add: fround_def Let_def)

text \<open>A representable value at least as fine as the grid is on the grid.\<close>

lemma on_grid:
  assumes "e \<le> e'"
  shows "of_int m * (2::real) powi e' = of_int (m * 2 ^ nat (e' - e)) * 2 powi e"
proof -
  have "(2::real) powi e' = 2 powi (e' - e) * 2 powi e"
    by (simp add: power_int_add [symmetric])
  also have "(2::real) powi (e' - e) = 2 ^ nat (e' - e)" using assms by (simp add: powi_nat)
  finally show ?thesis by simp
qed

lemma below_binade:
  assumes "float_ok (FFin s m e')" "e' < e"
  shows "of_int m * (2::real) powi e' < 2 ^ 52 * 2 powi e"
proof -
  have "real_of_int m < real_of_int (2 ^ 53)" using assms(1) by (simp only: of_int_less_iff float_ok.simps)
  then have "of_int m * (2::real) powi e' < 2 ^ 53 * 2 powi e'" by simp
  also have "(2::real) ^ 53 * 2 powi e' = 2 ^ 52 * 2 powi (e' + 1)" by (simp add: powi_Suc)
  also have "(2::real) ^ 52 * 2 powi (e' + 1) \<le> 2 ^ 52 * 2 powi e"
    using assms(2) by (intro mult_left_mono powi_mono) auto
  finally show ?thesis .
qed

lemma mant_ge:
  assumes "0 < p" "0 < q" and ok: "float_ok (FFin s m e')"
    and le: "of_int m * 2 powi e' \<le> real_of_int p / real_of_int q"
  shows "of_int m * 2 powi e' \<le> of_int (round_mant p q) * (2::real) powi round_exp p q"
proof -
  let ?e = "round_exp p q"
  have d: "0 < scale_den q ?e" using assms by simp
  show ?thesis
  proof (cases "?e \<le> e'")
    case True
    note g = on_grid [OF True, of m]
    have "m * 2 ^ nat (e' - ?e) \<le> round_mant p q"
      unfolding round_mant_def
      by (rule div_even_ge [OF d], subst scaled_le_iff [OF assms(2)]) (use le g in simp)
    then have "of_int (m * 2 ^ nat (e' - ?e)) * (2::real) powi ?e
        \<le> of_int (round_mant p q) * 2 powi ?e"
      by (intro mult_right_mono) (simp_all only: of_int_le_iff, simp)
    then show ?thesis by (simp only: g)
  next
    case False
    then have "?e \<noteq> - 1074" using ok by simp
    then have "2 ^ 52 \<le> round_mant p q" using round_mant_bounds [OF assms(1,2)] by simp
    then have "real_of_int (2 ^ 52) \<le> of_int (round_mant p q)" by (simp only: of_int_le_iff)
    then have "2 ^ 52 * (2::real) powi ?e \<le> of_int (round_mant p q) * 2 powi ?e" by simp
    with below_binade [OF ok, of ?e] False show ?thesis by linarith
  qed
qed

lemma mant_le:
  assumes "0 < p" "0 < q" and ok: "float_ok (FFin s m e')"
    and le: "real_of_int p / real_of_int q \<le> of_int m * 2 powi e'"
  shows "of_int (round_mant p q) * (2::real) powi round_exp p q \<le> of_int m * 2 powi e'"
    and "round_exp p q \<le> e'"
proof -
  let ?e = "round_exp p q"
  have d: "0 < scale_den q ?e" using assms by simp
  show ee: "?e \<le> e'"
  proof (rule ccontr)
    assume "\<not> ?e \<le> e'"
    then have lt: "e' < ?e" by simp
    with ok have "?e \<noteq> - 1074" by simp
    then have "2 ^ 52 * 2 powi ?e \<le> real_of_int p / real_of_int q"
      using round_exp_spec [OF assms(1,2)] by simp
    with below_binade [OF ok lt] le show False by linarith
  qed
  note g = on_grid [OF ee, of m]
  have "round_mant p q \<le> m * 2 ^ nat (e' - ?e)"
    unfolding round_mant_def
    by (rule div_even_le [OF d], subst scaled_ge_iff [OF assms(2)]) (use le g in simp)
  then have "of_int (round_mant p q) * (2::real) powi ?e
      \<le> of_int (m * 2 ^ nat (e' - ?e)) * 2 powi ?e"
    by (intro mult_right_mono) (simp_all only: of_int_le_iff, simp)
  then show "of_int (round_mant p q) * (2::real) powi ?e \<le> of_int m * 2 powi e'"
    by (simp only: g)
qed

text \<open>A fraction not above a representable value does not overflow.\<close>

lemma fround_fin:
  assumes "0 < p" "0 < q" and ok: "float_ok (FFin s' m e')"
    and le: "real_of_int p / real_of_int q \<le> of_int m * 2 powi e'"
  shows "is_fin (fround s p q)"
proof -
  note ml = mant_le [OF assms]
  have e: "e' \<le> 971" using ok by simp
  have "\<not> (round_mant p q = 2 ^ 53 \<and> round_exp p q + 1 > 971)"
  proof
    assume a: "round_mant p q = 2 ^ 53 \<and> round_exp p q + 1 > 971"
    with ml(2) e have ee: "round_exp p q = e'" by simp
    have "real_of_int m < real_of_int (2 ^ 53)" using ok by (simp only: of_int_less_iff float_ok.simps)
    then have "of_int m * (2::real) powi e' < 2 ^ 53 * 2 powi e'" by simp
    with ml(1) a ee show False by simp
  qed
  with ml(2) e show ?thesis by (auto simp: fround_eq [OF assms(1)])
qed

theorem fround_ge:
  assumes "0 < p" "0 < q" "float_ok (FFin t m e)" "is_fin (fround False p q)"
    and "of_int m * 2 powi e \<le> real_of_int p / real_of_int q"
  shows "of_int m * 2 powi e \<le> fval (fround False p q)"
  using mant_ge [OF assms(1,2,3,5)] fround_val [OF assms(1,2,4)] by simp

theorem fround_le:
  assumes "0 < p" "0 < q" "float_ok (FFin t m e)"
    and "real_of_int p / real_of_int q \<le> of_int m * 2 powi e"
  shows "is_fin (fround False p q)" "fval (fround False p q) \<le> of_int m * 2 powi e"
proof -
  show f: "is_fin (fround False p q)" by (rule fround_fin [OF assms])
  show "fval (fround False p q) \<le> of_int m * 2 powi e"
    using mant_le [OF assms] fround_val [OF assms(1,2) f] by simp
qed


subsection \<open>Canonical representations\<close>

lemma ok_unique_le:
  assumes "float_ok (FFin s m e)" "float_ok (FFin t m' e')" "0 < m" "e \<le> e'"
    and "of_int m * (2::real) powi e = of_int m' * 2 powi e'"
  shows "m = m' \<and> e = e'"
proof (cases "e = e'")
  case True
  with assms(5) show ?thesis by simp
next
  case False
  with assms(4) have lt: "e < e'" by simp
  with assms(1,2) have "2 ^ 52 \<le> m'" by auto
  then have "real_of_int (2 ^ 52) \<le> of_int m'" by (simp only: of_int_le_iff)
  then have "2 ^ 52 * (2::real) powi e' \<le> of_int m' * 2 powi e'" by simp
  with below_binade [OF assms(1) lt] assms(5) show ?thesis by linarith
qed

lemma ok_unique:
  assumes "float_ok (FFin s m e)" "float_ok (FFin t m' e')" "0 < m" "0 < m'"
    and "of_int m * (2::real) powi e = of_int m' * 2 powi e'"
  shows "m = m' \<and> e = e'"
  using ok_unique_le [OF assms(1,2,3) _ assms(5)] ok_unique_le [OF assms(2,1,4) _ assms(5) [symmetric]]
  by linarith

lemma fround_sign:
  "is_fin (fround s p q) = is_fin (fround False p q)"
  "fval (fround s p q) = (if s then - 1 else 1) * fval (fround False p q)"
  by (auto simp: fround_def Let_def)

lemma fround_exact:
  assumes "0 < p" "0 < q" "float_ok (FFin t m e)"
    and "real_of_int p / real_of_int q = of_int m * 2 powi e"
  shows "fround s p q = FFin s m e"
proof -
  have le: "real_of_int p / real_of_int q \<le> of_int m * 2 powi e"
    and ge: "of_int m * 2 powi e \<le> real_of_int p / real_of_int q" using assms(4) by simp_all
  note l = fround_le [OF assms(1-3) le]
  from l(2) fround_ge [OF assms(1-3) l(1) ge]
  have v: "fval (fround False p q) = of_int m * 2 powi e" by simp
  from l(1) fround_sign(1) obtain m' e' where r: "fround s p q = FFin s m' e'"
    by (cases "round_mant p q = 2 ^ 53") (auto simp: fround_eq [OF assms(1)] split: if_splits)
  then have ok': "float_ok (FFin s m' e')" using fround_ok [of p q s] assms by simp
  have v': "of_int m' * (2::real) powi e' = of_int m * 2 powi e"
    using v r fround_sign(2) [of s p q] by (auto split: if_splits)
  have "0 < real_of_int p / real_of_int q" using assms(1,2) by simp
  then have "0 < of_int m * (2::real) powi e" by (simp only: assms(4))
  moreover from this have "0 < of_int m' * (2::real) powi e'" by (simp only: v')
  ultimately have "0 < real_of_int m" "0 < real_of_int m'"
    by (blast intro: zero_less_mult_pos2 two_powi_pos)+
  then have "0 < m" "0 < m'" by simp_all
  then show ?thesis using ok_unique [OF ok' assms(3) _ _ v'] r by simp
qed

lemma representable:
  assumes "0 < n" "n \<le> 2 ^ 53" "- 1074 \<le> e" "e \<le> 970"
  shows "\<exists>m e'. float_ok (FFin s m e') \<and> 0 < m \<and> of_int m * (2::real) powi e' = of_int n * 2 powi e"
proof (cases "n = 2 ^ 53")
  case True
  have "of_int (2 ^ 52) * (2::real) powi (e + 1) = of_int n * 2 powi e"
    unfolding True powi_Suc by simp
  moreover have "float_ok (FFin s (2 ^ 52) (e + 1))" using assms by simp
  moreover have "(0::int) < 2 ^ 52" by simp
  ultimately show ?thesis by blast
next
  case False
  with assms have n: "n < 2 ^ 53" by simp
  note b = blen_bounds [OF assms(1)]
  have le: "blen n \<le> 53"
  proof (rule ccontr)
    assume "\<not> blen n \<le> 53"
    then have "(2::int) ^ 53 \<le> 2 ^ (blen n - 1)" by (intro power_increasing) auto
    with b n show False by linarith
  qed
  define k where "k = min (53 - blen n) (nat (e + 1074))"
  have kb: "k + blen n \<le> 53" "int k \<le> e + 1074" using le assms by (auto simp: k_def)
  let ?m = "n * 2 ^ k" and ?e = "e - int k"
  have "?m < 2 ^ blen n * 2 ^ k" using b by simp
  also have "(2::int) ^ blen n * 2 ^ k = 2 ^ (blen n + k)" by (simp add: power_add)
  also have "(2::int) ^ (blen n + k) \<le> 2 ^ 53" using kb by (intro power_increasing) auto
  finally have hi: "?m < 2 ^ 53" .
  have lo: "2 ^ 52 \<le> ?m \<or> ?e = - 1074"
  proof (cases "k = 53 - blen n")
    case True
    have "(2::int) ^ 52 = 2 ^ (blen n - 1) * 2 ^ k"
      using b kb True le by (simp add: power_add [symmetric])
    also have "\<dots> \<le> ?m" using b by simp
    finally show ?thesis ..
  next
    case False
    then have "k = nat (e + 1074)" by (simp add: k_def min_def split: if_splits)
    then show ?thesis using assms by simp
  qed
  have "of_int ?m * (2::real) powi ?e = of_int n * 2 powi e"
  proof -
    have "nat (e - ?e) = k" by simp
    then show ?thesis using on_grid [of ?e e n] by (simp only: of_int_mult)
  qed
  moreover have "float_ok (FFin s ?m ?e)" using hi lo kb assms by auto
  ultimately show ?thesis using assms by (intro exI [of _ ?m] exI [of _ ?e]) simp
qed

subsection \<open>Correct rounding of a real result\<close>

definition rounds_to :: "real \<Rightarrow> float64 \<Rightarrow> bool" where
  "rounds_to r f \<longleftrightarrow>
     (if r = 0 then \<exists>s. f = FFin s 0 (- 1074)
      else \<exists>p q. 0 < p \<and> 0 < q \<and> \<bar>r\<bar> = real_of_int p / real_of_int q \<and> f = fround (r < 0) p q)"

lemma rounds_toI:
  "0 < p \<Longrightarrow> 0 < q \<Longrightarrow> r = (if s then - 1 else 1) * (real_of_int p / real_of_int q) \<Longrightarrow>
   rounds_to r (fround s p q)"
proof -
  assume p: "0 < p" and q: "0 < q" and r: "r = (if s then - 1 else 1) * (real_of_int p / real_of_int q)"
  have pos: "0 < real_of_int p / real_of_int q" using p q by simp
  define x where "x = real_of_int p / real_of_int q"
  have "\<bar>r\<bar> = x" "r \<noteq> 0" "(r < 0) = s" using pos r by (auto simp: x_def [symmetric])
  with p q show ?thesis unfolding rounds_to_def x_def by auto
qed

lemma rounds_to_zero [simp]: "rounds_to 0 (FFin s 0 (- 1074))"
  unfolding rounds_to_def by auto

lemma rounds_to_ok: "rounds_to r f \<Longrightarrow> float_ok f"
  by (auto simp: rounds_to_def split: if_splits)

lemma rounds_to_not_nan: "rounds_to r f \<Longrightarrow> f \<noteq> FNaN"
  by (auto simp: rounds_to_def split: if_splits)

text \<open>A representable result is exact.\<close>

lemma rounds_to_exact:
  assumes "rounds_to r f" "float_ok y" "is_fin y" "fval y = r"
  shows "is_fin f \<and> fval f = r"
proof (cases "r = 0")
  case True
  with assms(1) show ?thesis by (auto simp: rounds_to_def)
next
  case False
  from assms(3) obtain t m e where y: "y = FFin t m e" by (cases y) auto
  from False assms(1) obtain p q where pq: "0 < p" "0 < q" "\<bar>r\<bar> = real_of_int p / real_of_int q"
      "f = fround (r < 0) p q" by (auto simp: rounds_to_def)
  have "0 \<le> m" using assms(2) y by simp
  then have v: "\<bar>r\<bar> = of_int m * 2 powi e" using assms(4) y by (auto simp: abs_mult)
  have "float_ok (FFin t m e)" using assms(2) y by simp
  from fround_exact [OF pq(1,2) this] pq v have "f = FFin (r < 0) m e" by simp
  with v show ?thesis by (auto simp: abs_if split: if_splits)
qed

text \<open>Rounding a non-negative result does not cross a representable bound.\<close>

lemma rounds_to_le:
  assumes "rounds_to r f" "0 \<le> r" "float_ok y" "is_fin y" "r \<le> fval y"
  shows "is_fin f \<and> 0 \<le> fval f \<and> fval f \<le> fval y"
proof (cases "r = 0")
  case True
  with assms show ?thesis by (auto simp: rounds_to_def)
next
  case False
  with assms obtain p q where pq: "0 < p" "0 < q" "r = real_of_int p / real_of_int q"
      "f = fround False p q" by (auto simp: rounds_to_def)
  from assms(4) obtain t m e where y: "y = FFin t m e" by (cases y) auto
  have m: "0 \<le> m" using assms(3) y by simp
  have "\<not> t"
  proof
    assume t
    with y m have "fval y \<le> 0" by simp
    with assms(2,5) False show False by simp
  qed
  with y have v: "fval y = of_int m * 2 powi e" by simp
  have ok: "float_ok (FFin t m e)" using assms(3) y by simp
  have le: "real_of_int p / real_of_int q \<le> of_int m * 2 powi e" using pq v assms(5) by simp
  have z: "float_ok (FFin False 0 (- 1074))" by simp
  have "of_int 0 * 2 powi (- 1074) \<le> real_of_int p / real_of_int q" using pq by simp
  from fround_ge [OF pq(1,2) z fround_le(1) [OF pq(1,2) ok le] this]
  show ?thesis using fround_le [OF pq(1,2) ok le] pq v by simp
qed

lemma rounds_to_ge:
  assumes "rounds_to r f" "0 \<le> r" "float_ok y" "is_fin y" "fval y \<le> r" "is_fin f"
  shows "fval y \<le> fval f"
proof (cases "r = 0")
  case True
  with assms show ?thesis by (auto simp: rounds_to_def)
next
  case False
  with assms obtain p q where pq: "0 < p" "0 < q" "r = real_of_int p / real_of_int q"
      "f = fround False p q" by (auto simp: rounds_to_def)
  from assms(4) obtain t m e where y: "y = FFin t m e" by (cases y) auto
  have ok: "float_ok (FFin False m e)" using assms(3) y by simp
  have m: "0 \<le> m" using ok by simp
  then have nn: "0 \<le> of_int m * (2::real) powi e" by simp
  have z: "float_ok (FFin False 0 (- 1074))" by simp
  have "of_int 0 * 2 powi (- 1074) \<le> real_of_int p / real_of_int q" using pq by simp
  from fround_ge [OF pq(1,2) z _ this] pq assms(6) have f0: "0 \<le> fval f" by simp
  show ?thesis
  proof (cases t)
    case True
    with y nn f0 show ?thesis by simp
  next
    case False
    with y have v: "fval y = of_int m * 2 powi e" by simp
    from fround_ge [OF pq(1,2) ok] pq assms(5,6) v show ?thesis by simp
  qed
qed

lemma rounds_to_neg: "rounds_to r f \<Longrightarrow> rounds_to (- r) (fneg f)"
proof -
  assume a: "rounds_to r f"
  have n: "fneg (fround s p q) = fround (\<not> s) p q" for s p q by (simp add: fround_def Let_def)
  show ?thesis
  proof (cases "r = 0")
    case True
    with a show ?thesis by (auto simp: rounds_to_def)
  next
    case False
    with a show ?thesis by (auto simp: rounds_to_def n not_less order_le_less)
  qed
qed


subsection \<open>The operations round the exact result\<close>

lemma den_num_val: "0 < n \<Longrightarrow>
  real_of_int (scale_den v c) / real_of_int (scale_num n c) = of_int v / of_int n * 2 powi c"
  by (simp add: scale_num_def scale_den_def powi_nat powi_neg)

lemma scale_den_abs_pos: "v \<noteq> 0 \<Longrightarrow> 0 < scale_den \<bar>v\<bar> c"
  by (simp add: scale_den_def)

lemma signed_val: "fval (FFin s m e) = of_int (signed s m) * 2 powi e"
  by (simp add: signed_def)

lemma align_val: "c \<le> e \<Longrightarrow> real_of_int (align m e c) * 2 powi c = of_int m * 2 powi e"
  unfolding align_def by (rule on_grid [symmetric])

lemma rounds_to_self: "float_ok x \<Longrightarrow> is_fin x \<Longrightarrow> rounds_to (fval x) x"
proof (cases x)
  case (FFin s m e)
  assume "float_ok x"
  with FFin have ok: "float_ok (FFin s m e)" and m: "0 \<le> m" by auto
  show ?thesis
  proof (cases "m = 0")
    case True
    with ok have "e = - 1074" by simp
    with True FFin show ?thesis by (simp add: rounds_to_def)
  next
    case False
    with m have pos: "0 < m" by simp
    have "fround s (scale_den m e) (scale_num 1 e) = FFin s m e"
      by (rule fround_exact [OF _ _ ok]) (use pos den_num_val [of 1 m e] in auto)
    moreover have "rounds_to (fval x) (fround s (scale_den m e) (scale_num 1 e))"
      by (rule rounds_toI) (use pos den_num_val [of 1 m e] FFin in auto)
    ultimately show ?thesis by (simp add: FFin)
  qed
qed auto

lemma fadd_rounds:
  assumes "float_ok x" "float_ok y" "is_fin x" "is_fin y"
  shows "rounds_to (fval x + fval y) (fadd x y)"
proof -
  obtain s m e where x: "x = FFin s m e" using assms by (cases x) auto
  obtain t n d where y: "y = FFin t n d" using assms by (cases y) auto
  show ?thesis
  proof (cases "m = 0 \<or> n = 0")
    case True
    then consider "m = 0" "n = 0" | "m = 0" "n \<noteq> 0" | "m \<noteq> 0" "n = 0" by blast
    then show ?thesis
    proof cases
      case 1
      then show ?thesis by (simp add: x y)
    next
      case 2
      then have "fadd x y = y" "fval x = 0" by (simp_all add: x y)
      with rounds_to_self [OF assms(2,4)] show ?thesis by simp
    next
      case 3
      then have "fadd x y = x" "fval y = 0" by (simp_all add: x y)
      with rounds_to_self [OF assms(1,3)] show ?thesis by simp
    qed
  next
    case False
    define c where "c = min e d"
    define v where "v = align (signed s m) e c + align (signed t n) d c"
    have eq: "fadd x y = fround (v < 0) (scale_den \<bar>v\<bar> c) (scale_num 1 c)"
      using False by (simp add: x y v_def c_def Let_def)
    have sum: "fval x + fval y = of_int v * 2 powi c"
      using align_val [of c e "signed s m"] align_val [of c d "signed t n"]
      unfolding x y signed_val v_def by (simp add: c_def distrib_right)
    show ?thesis
    proof (cases "v = 0")
      case True
      then have "fadd x y = FFin False 0 (- 1074)" by (simp add: eq fround_def scale_den_def)
      with True sum show ?thesis by simp
    next
      case False
      show ?thesis
        unfolding eq sum
        by (rule rounds_toI)
          (use False scale_den_abs_pos [OF False] den_num_val [of 1 "\<bar>v\<bar>" c] in \<open>auto simp: abs_if\<close>)
    qed
  qed
qed

lemma fneg_facts [simp]:
  "float_ok (fneg x) = float_ok x" "is_fin (fneg x) = is_fin x" "fval (fneg x) = - fval x"
  "fneg x = FNaN \<longleftrightarrow> x = FNaN"
  by (cases x; simp)+

lemma fsub_rounds:
  assumes "float_ok x" "float_ok y" "is_fin x" "is_fin y"
  shows "rounds_to (fval x - fval y) (fsub x y)"
  using fadd_rounds [of x "fneg y"] assms by (simp add: fsub_def)

lemma fmul_rounds:
  assumes "float_ok x" "float_ok y" "is_fin x" "is_fin y"
  shows "rounds_to (fval x * fval y) (fmul x y)"
proof -
  obtain s m e where x: "x = FFin s m e" using assms by (cases x) auto
  obtain t n d where y: "y = FFin t n d" using assms by (cases y) auto
  have nn: "0 \<le> m" "0 \<le> n" using assms x y by auto
  show ?thesis
  proof (cases "m * n = 0")
    case True
    then have "fval x * fval y = 0" by (auto simp: x y)
    moreover have "fmul x y = FFin (s \<noteq> t) 0 (- 1074)"
      unfolding x y fmul.simps True by (simp add: scale_den_def fround_def)
    ultimately show ?thesis by (simp only: rounds_to_zero)
  next
    case False
    with nn have pos: "0 < m * n" by (simp add: order_less_le)
    have "rounds_to (fval x * fval y)
        (fround (s \<noteq> t) (scale_den (m * n) (e + d)) (scale_num 1 (e + d)))"
      by (rule rounds_toI)
        (use pos den_num_val [of 1 "m * n" "e + d"] in \<open>auto simp: x y power_int_add\<close>)
    then show ?thesis by (simp add: x y)
  qed
qed

lemma fdiv_rounds:
  assumes "float_ok x" "float_ok y" "is_fin x" "is_fin y" "fval y \<noteq> 0"
  shows "rounds_to (fval x / fval y) (fdiv x y)"
proof -
  obtain s m e where x: "x = FFin s m e" using assms by (cases x) auto
  obtain t n d where y: "y = FFin t n d" using assms by (cases y) auto
  have m: "0 \<le> m" and n: "0 < n" using assms x y by (auto simp: order_less_le)
  show ?thesis
  proof (cases "m = 0")
    case True
    with n show ?thesis by (simp add: x y fround_def scale_den_def)
  next
    case False
    with m have pos: "0 < m" by simp
    have "rounds_to (fval x / fval y)
        (fround (s \<noteq> t) (scale_den m (e - d)) (scale_num n (e - d)))"
      by (rule rounds_toI)
        (use pos n den_num_val [of n m "e - d"] in \<open>auto simp: x y power_int_diff\<close>)
    then show ?thesis using n by (simp add: x y)
  qed
qed

lemma flit_rounds: "0 < q \<Longrightarrow> rounds_to (real_of_int p / real_of_int q) (flit p q)"
proof (cases "p = 0")
  case True
  then show ?thesis by (simp add: flit_def fround_def)
next
  case False
  assume "0 < q"
  with False show ?thesis unfolding flit_def by (intro rounds_toI) (auto simp: abs_if)
qed

subsection \<open>Comparison\<close>

lemma flt_iff:
  assumes "is_fin x" "is_fin y"
  shows "flt x y \<longleftrightarrow> fval x < fval y"
proof -
  obtain s m e where x: "x = FFin s m e" using assms by (cases x) auto
  obtain t n d where y: "y = FFin t n d" using assms by (cases y) auto
  let ?a = "signed s m" and ?b = "signed t n"
  have vx: "fval x = of_int ?a * 2 powi e" and vy: "fval y = of_int ?b * 2 powi d"
    unfolding x y signed_val by simp_all
  consider "?a = 0" | "?a \<noteq> 0" "?b = 0" | "?a \<noteq> 0" "?b \<noteq> 0" "e \<le> d" | "?a \<noteq> 0" "?b \<noteq> 0" "\<not> e \<le> d"
    by blast
  then show ?thesis
  proof cases
    case 1
    then show ?thesis by (simp only: vx vy) (simp add: x y Let_def zero_less_mult_iff)
  next
    case 2
    then show ?thesis by (simp only: vx vy) (simp add: x y Let_def mult_less_0_iff)
  next
    case 3
    have "fval x < fval y \<longleftrightarrow>
        of_int ?a * (2::real) powi e < of_int (align ?b d e) * 2 powi e"
      using align_val [OF 3(3), of ?b] by (simp only: vx vy)
    also have "\<dots> \<longleftrightarrow> ?a < align ?b d e" by simp
    finally show ?thesis using 3 by (simp add: x y Let_def)
  next
    case 4
    then have de: "d \<le> e" by simp
    have "fval x < fval y \<longleftrightarrow>
        of_int (align ?a e d) * (2::real) powi d < of_int ?b * 2 powi d"
      using align_val [OF de, of ?a] by (simp only: vx vy)
    also have "\<dots> \<longleftrightarrow> align ?a e d < ?b" by simp
    finally show ?thesis using 4 by (simp add: x y Let_def)
  qed
qed

lemma flt_nan [simp]: "\<not> flt FNaN y" "\<not> flt x FNaN"
  by (simp_all, cases x, simp_all)

lemma flt_irrefl [simp]: "\<not> flt x x"
proof (cases x)
  case (FFin s m e)
  then show ?thesis using flt_iff [of x x] by simp
qed simp_all

lemma flt_not_fin:
  "flt x y \<Longrightarrow> \<not> (is_fin x \<and> is_fin y) \<Longrightarrow> (x = FInf True \<and> y \<noteq> FInf True) \<or> (y = FInf False \<and> x \<noteq> FInf False)"
  by (cases x; cases y) auto

lemma flt_asym: "flt x y \<Longrightarrow> \<not> flt y x"
  by (cases "is_fin x \<and> is_fin y") (auto simp: flt_iff dest: flt_not_fin)

lemma flt_trans: "flt x y \<Longrightarrow> flt y z \<Longrightarrow> flt x z"
proof -
  assume a: "flt x y" "flt y z"
  show ?thesis
  proof (cases "is_fin x \<and> is_fin y \<and> is_fin z")
    case True
    with a show ?thesis by (auto simp: flt_iff)
  next
    case False
    then show ?thesis using a by (cases x; cases y; cases z) simp_all
  qed
qed

lemma fle_iff: "is_fin x \<Longrightarrow> is_fin y \<Longrightarrow> fle x y \<longleftrightarrow> fval x \<le> fval y"
  by (auto simp: fle_def flt_iff not_less)

subsection \<open>Integers\<close>

text \<open>Counters are integers below \<open>2^53\<close> in practice: on those the arithmetic is exact.\<close>

definition fint :: "float64 \<Rightarrow> int \<Rightarrow> bool" where
  "fint x n \<longleftrightarrow> float_ok x \<and> is_fin x \<and> fval x = of_int n"

lemma fint_exists: "\<bar>n\<bar> \<le> 2 ^ 53 \<Longrightarrow> \<exists>x. fint x n"
proof (cases "n = 0")
  case True
  then have "fint fzero n" by (simp add: fint_def)
  then show ?thesis ..
next
  case False
  assume "\<bar>n\<bar> \<le> 2 ^ 53"
  with representable [of "\<bar>n\<bar>" 0 "n < 0"] False obtain m e where
    "float_ok (FFin (n < 0) m e)" "of_int m * (2::real) powi e = of_int \<bar>n\<bar> * 2 powi 0"
    by auto
  then have "fint (FFin (n < 0) m e) n" by (auto simp: fint_def)
  then show ?thesis ..
qed

lemma fint_rounds:
  assumes "rounds_to (of_int n) f" "\<bar>n\<bar> \<le> 2 ^ 53"
  shows "fint f n"
proof -
  from fint_exists [OF assms(2)] obtain y where "fint y n" ..
  then show ?thesis
    using rounds_to_exact [OF assms(1), of y] rounds_to_ok [OF assms(1)] by (simp add: fint_def)
qed

lemma fint_of_int: "\<bar>n\<bar> \<le> 2 ^ 53 \<Longrightarrow> fint (fof_int n) n"
  by (rule fint_rounds) (use flit_rounds [of 1 n] in \<open>simp_all add: fof_int_def\<close>)

lemma fint_add: "fint x a \<Longrightarrow> fint y b \<Longrightarrow> \<bar>a + b\<bar> \<le> 2 ^ 53 \<Longrightarrow> fint (fadd x y) (a + b)"
  by (rule fint_rounds) (use fadd_rounds [of x y] in \<open>simp_all add: fint_def\<close>)

lemma fint_sub: "fint x a \<Longrightarrow> fint y b \<Longrightarrow> \<bar>a - b\<bar> \<le> 2 ^ 53 \<Longrightarrow> fint (fsub x y) (a - b)"
  by (rule fint_rounds) (use fsub_rounds [of x y] in \<open>simp_all add: fint_def\<close>)

lemma fint_zero [simp]: "fint fzero 0"
  by (simp add: fint_def)

lemma fint_flt: "fint x a \<Longrightarrow> fint y b \<Longrightarrow> flt x y \<longleftrightarrow> a < b"
  by (simp add: fint_def flt_iff)

subsection \<open>Ratios\<close>

lemma fdiv_unit_interval:
  assumes "float_ok x" "float_ok y" "is_fin x" "is_fin y" "0 \<le> fval x" "fval x \<le> fval y" "0 < fval y"
  shows "is_fin (fdiv x y) \<and> 0 \<le> fval (fdiv x y) \<and> fval (fdiv x y) \<le> 1"
proof -
  have r: "rounds_to (fval x / fval y) (fdiv x y)" by (rule fdiv_rounds) (use assms in auto)
  have one: "fint (fof_int 1) 1" by (rule fint_of_int) simp
  show ?thesis
    using rounds_to_le [OF r, of "fof_int 1"] one assms by (simp add: fint_def)
qed

lemma fdiv_nonneg:
  assumes "float_ok x" "float_ok y" "is_fin x" "is_fin y" "0 \<le> fval x" "0 < fval y"
  shows "fdiv x y = FInf False \<or> (is_fin (fdiv x y) \<and> 0 \<le> fval (fdiv x y))"
proof -
  have r: "rounds_to (fval x / fval y) (fdiv x y)" by (rule fdiv_rounds) (use assms in auto)
  have nn: "0 \<le> fval x / fval y" using assms by simp
  show ?thesis
  proof (cases "is_fin (fdiv x y)")
    case True
    with rounds_to_ge [OF r nn, of fzero] nn show ?thesis by simp
  next
    case False
    with r nn show ?thesis
      using fround_fin_or_inf by (fastforce simp: rounds_to_def split: if_splits)
  qed
qed

text \<open>Gradual underflow: a difference is positive exactly when the operands are ordered.\<close>

lemma ok_granular:
  assumes "float_ok x" "is_fin x"
  shows "\<exists>k. fval x = of_int k * 2 powi (- 1074)"
proof -
  obtain s m e where x: "x = FFin s m e" using assms by (cases x) auto
  have "- 1074 \<le> e" using assms x by simp
  from on_grid [OF this, of "signed s m"] show ?thesis
    unfolding x signed_val by blast
qed

lemma fsub_pos_iff:
  assumes "float_ok x" "float_ok y" "is_fin x" "is_fin y"
  shows "flt fzero (fsub x y) \<longleftrightarrow> flt y x"
proof -
  have r: "rounds_to (fval x - fval y) (fsub x y)" by (rule fsub_rounds [OF assms])
  have "flt fzero (fsub x y) \<longleftrightarrow> 0 < fval x - fval y"
  proof (cases "is_fin (fsub x y)")
    case True
    then have l: "flt fzero (fsub x y) \<longleftrightarrow> 0 < fval (fsub x y)" by (simp add: flt_iff del: flt.simps)
    show ?thesis
    proof (cases "0 < fval x - fval y")
      case pos: True
      obtain k l where k: "fval x = of_int k * 2 powi (- 1074)" and l': "fval y = of_int l * 2 powi (- 1074)"
        using ok_granular [OF assms(1,3)] ok_granular [OF assms(2,4)] by blast
      have d: "fval x - fval y = of_int (k - l) * 2 powi (- 1074)" by (simp add: k l' left_diff_distrib)
      with pos have "1 \<le> k - l" by (simp add: zero_less_mult_iff)
      then have "real_of_int 1 \<le> of_int (k - l)" by (simp only: of_int_le_iff)
      then have ge: "fval (FFin False 1 (- 1074)) \<le> fval x - fval y" unfolding d by simp
      have "fval (FFin False 1 (- 1074)) \<le> fval (fsub x y)"
        by (rule rounds_to_ge [OF r _ _ _ ge True]) (use pos in auto)
      moreover have "0 < fval (FFin False 1 (- 1074))" by simp
      ultimately have "0 < fval (fsub x y)" by (rule less_le_trans [rotated])
      with l pos show ?thesis by simp
    next
      case False
      then have nn: "0 \<le> - (fval x - fval y)" by simp
      have "0 \<le> fval (fneg (fsub x y))"
        using rounds_to_ge [OF rounds_to_neg [OF r] nn, of fzero] nn True by simp
      with l False show ?thesis by simp
    qed
  next
    case False
    with r have n0: "fval x - fval y \<noteq> 0" by (auto simp: rounds_to_def)
    with r False have "fsub x y = FInf (fval x - fval y < 0)"
      using fround_fin_or_inf by (fastforce simp: rounds_to_def)
    with n0 show ?thesis by auto
  qed
  then show ?thesis using assms by (simp add: flt_iff del: flt.simps)
qed

end
