(* ===== verification/Trigger_Eval.thy ===== *)
theory Trigger_Eval
  imports Policy_Types Go_Float_Facts
begin

section \<open>Trigger evaluation (internal/trigger/evaluator.go)\<close>

text \<open>
  \<open>Evaluate\<close> walks the triggers in spec order, updating per-trigger counters of consecutive
  samples, and returns the first trigger whose counter reaches its requirement. The clock is a
  parameter: the \<open>n\<close>-th reading of \<open>time.Now\<close> (or \<open>time.Since\<close>) of the call is \<open>clk n\<close>.
\<close>

subsection \<open>Signals, decisions, state\<close>

record Signals =
  SuccessRate :: float64
  ServiceLatencyMs :: float64
  TotalLatencyMs :: float64
  RPS :: float64
  SampleCount :: int
  CollectedAt :: gotime
  ShedRejectedRPS :: float64

record Decision =
  ShouldSwitch :: bool
  TargetProfile :: string
  d_TriggerName :: string
  Reason :: string
  d_ConsecutiveBadSamples :: int32

record State =
  ConsecutiveBadSamples :: "(string, int32) gomap"
  LastTriggerFireTime :: "(string, gotime) gomap"
  ConsecutiveFilterInactive :: int32

definition NewState :: State where
  "NewState = \<lparr>ConsecutiveBadSamples = [], LastTriggerFireTime = [], ConsecutiveFilterInactive = 0\<rparr>"

definition reason_decision :: "string \<Rightarrow> Decision" where
  \<comment> \<open>\<open>Decision{Reason: r}\<close>: every other field is the zero value\<close>
  "reason_decision r = \<lparr>ShouldSwitch = False, TargetProfile = [], d_TriggerName = [], Reason = r,
     d_ConsecutiveBadSamples = 0\<rparr>"

definition samples :: "State \<Rightarrow> string \<Rightarrow> int32" where
  \<comment> \<open>\<open>state.ConsecutiveBadSamples[name]\<close>\<close>
  "samples st n = (case map_of (ConsecutiveBadSamples st) n of None \<Rightarrow> 0 | Some c \<Rightarrow> c)"

definition set_samples :: "State \<Rightarrow> string \<Rightarrow> int32 \<Rightarrow> State" where
  "set_samples st n c = st\<lparr>ConsecutiveBadSamples := AList.update n c (ConsecutiveBadSamples st)\<rparr>"

definition set_fired :: "State \<Rightarrow> string \<Rightarrow> gotime \<Rightarrow> State" where
  "set_fired st n t = st\<lparr>LastTriggerFireTime := AList.update n t (LastTriggerFireTime st)\<rparr>"

subsection \<open>Conditions\<close>

definition geq_sign :: string where "geq_sign = [CHR 0xE2, CHR 0x89, CHR 0xA5]"
definition leq_sign :: string where "leq_sign = [CHR 0xE2, CHR 0x89, CHR 0xA4]"
definition em_dash :: string where "em_dash = [CHR 0xE2, CHR 0x80, CHR 0x94]"

definition mustParseRate :: "string \<Rightarrow> float64" where
  "mustParseRate s = parsed_value (parse_float s)"

definition mustParseThreshold :: "string \<Rightarrow> float64" where
  "mustParseThreshold s = parsed_value (parse_float s)"

definition ltgt :: "bool \<Rightarrow> bool \<Rightarrow> string" where
  "ltgt met forBelow =
     (if forBelow then (if met then ''<'' else geq_sign) else (if met then ''>'' else leq_sign))"

fun contains :: "string list \<Rightarrow> string \<Rightarrow> bool" where
  "contains [] s = False"
| "contains (v # vs) s = (if v = s then True else contains vs s)"

definition rate_reason :: "Signals \<Rightarrow> bool \<Rightarrow> bool \<Rightarrow> string \<Rightarrow> string" where
  "rate_reason sg met forBelow bound =
     ''successRate='' @ fmt_f 3 (SuccessRate sg) @ '' '' @ ltgt met forBelow @ '' '' @ bound"

definition latency_reason :: "Signals \<Rightarrow> bool \<Rightarrow> bool \<Rightarrow> string \<Rightarrow> string" where
  "latency_reason sg met forBelow bound =
     ''ownLatency='' @ fmt_f 0 (ServiceLatencyMs sg) @ ''ms '' @ ltgt met forBelow @ '' '' @ bound @ ''ms''"

definition rate_results :: "RateCondition option \<Rightarrow> Signals \<Rightarrow> (bool \<times> string) list" where
  "rate_results c sg = (case c of None \<Rightarrow> [] | Some r \<Rightarrow>
     (if rc_Below r \<noteq> [] then
        (let met = flt (SuccessRate sg) (mustParseRate (rc_Below r))
         in [(met, rate_reason sg met True (rc_Below r))]) else []) @
     (if rc_Above r \<noteq> [] then
        (let met = flt (mustParseRate (rc_Above r)) (SuccessRate sg)
         in [(met, rate_reason sg met False (rc_Above r))]) else []))"

definition latency_results :: "ThresholdCondition option \<Rightarrow> Signals \<Rightarrow> (bool \<times> string) list" where
  "latency_results c sg = (case c of None \<Rightarrow> [] | Some l \<Rightarrow>
     (if tc_Above l \<noteq> [] then
        (let met = flt (mustParseThreshold (tc_Above l)) (ServiceLatencyMs sg)
         in [(met, latency_reason sg met False (tc_Above l))]) else []) @
     (if tc_Below l \<noteq> [] then
        (let met = flt (ServiceLatencyMs sg) (mustParseThreshold (tc_Below l))
         in [(met, latency_reason sg met True (tc_Below l))]) else []))"

definition rps_results :: "int32 option \<Rightarrow> Signals \<Rightarrow> (bool \<times> string) list" where
  "rps_results c sg = (case c of None \<Rightarrow> [] | Some n \<Rightarrow>
     [(flt (fof_int (sint n)) (RPS sg),
       ''rps='' @ fmt_f 0 (RPS sg) @ '' above '' @ fmt_d (sint n))])"

definition conditionMet :: "TriggerCondition \<Rightarrow> Signals \<Rightarrow> bool \<times> string" where
  "conditionMet cond sg =
     (let rs = rate_results (cond_SuccessRate cond) sg @
               latency_results (cond_ServiceLatencyMs cond) sg @
               rps_results (cond_RPSAbove cond) sg
      in if rs = [] then (False, ''no conditions defined'')
         else (list_all fst rs, str_join '', '' (map snd rs)))"

definition requiredSamples :: "TriggerCondition \<Rightarrow> int32" where
  "requiredSamples cond =
     (case cond_SuccessRate cond of
        Some r \<Rightarrow> if 0 < sint (rc_ConsecutiveSamples r) then rc_ConsecutiveSamples r
                  else (case cond_ServiceLatencyMs cond of
                          Some l \<Rightarrow> if 0 < sint (tc_ConsecutiveSamples l)
                                    then tc_ConsecutiveSamples l else 1
                        | None \<Rightarrow> 1)
      | None \<Rightarrow> (case cond_ServiceLatencyMs cond of
                  Some l \<Rightarrow> if 0 < sint (tc_ConsecutiveSamples l)
                            then tc_ConsecutiveSamples l else 1
                | None \<Rightarrow> 1))"

subsection \<open>Evaluate\<close>

definition in_cooldown :: "State \<Rightarrow> TriggerConfig \<Rightarrow> gotime \<Rightarrow> bool" where
  "in_cooldown st t now = (case map_of (LastTriggerFireTime st) (tr_Name t) of
     None \<Rightarrow> False
   | Some lastFired \<Rightarrow> time_sub now lastFired < sint (tr_CooldownSeconds t) * second)"

definition fired_reason :: "string \<Rightarrow> int32 \<Rightarrow> string" where
  "fired_reason reason n = reason @ '' ('' @ fmt_d (sint n) @ '' consecutive samples)''"

definition progress_reason :: "string \<Rightarrow> int32 \<Rightarrow> int32 \<Rightarrow> string" where
  "progress_reason reason n required =
     reason @ '' '' @ em_dash @ '' '' @ fmt_d (sint n) @ ''/'' @ fmt_d (sint required) @
     '' consecutive samples''"

definition no_match_reason :: "Signals \<Rightarrow> string" where
  "no_match_reason sg = ''no conditions met '' @ em_dash @ '' successRate='' @
     fmt_f 3 (SuccessRate sg) @ '' rps='' @ fmt_f 0 (RPS sg)"

definition firing_decision :: "TriggerConfig \<Rightarrow> string \<Rightarrow> int32 \<Rightarrow> Decision" where
  "firing_decision t reason n = \<lparr>ShouldSwitch = True, TargetProfile = tr_SwitchTo t,
     d_TriggerName = tr_Name t, Reason = fired_reason reason n, d_ConsecutiveBadSamples = n\<rparr>"

definition progress_decision :: "TriggerConfig \<Rightarrow> string \<Rightarrow> int32 \<Rightarrow> int32 \<Rightarrow> Decision" where
  "progress_decision t reason n required = \<lparr>ShouldSwitch = False, TargetProfile = [],
     d_TriggerName = tr_Name t, Reason = progress_reason reason n required,
     d_ConsecutiveBadSamples = n\<rparr>"

fun eval_loop :: "string \<Rightarrow> Signals \<Rightarrow> (nat \<Rightarrow> gotime) \<Rightarrow> nat \<Rightarrow> TriggerConfig list \<Rightarrow>
    State \<Rightarrow> Decision option \<Rightarrow> Decision \<times> State" where
  "eval_loop cur sg clk n [] st closest =
     ((case closest of Some d \<Rightarrow> d | None \<Rightarrow> reason_decision (no_match_reason sg)), st)"
| "eval_loop cur sg clk n (t # ts) st closest =
     (if 0 < length (tr_FromProfiles t) \<and> \<not> contains (tr_FromProfiles t) cur
      then eval_loop cur sg clk n ts st closest
      else if cur = tr_SwitchTo t then eval_loop cur sg clk n ts st closest
      else let known = map_of (LastTriggerFireTime st) (tr_Name t) \<noteq> None;
               n' = (if known then Suc n else n)
           in if in_cooldown st t (clk n) then eval_loop cur sg clk n' ts st closest
              else let (met, reason) = conditionMet (tr_When t) sg;
                       st1 = set_samples st (tr_Name t)
                               (if met then samples st (tr_Name t) + 1 else 0);
                       consecutive = samples st1 (tr_Name t);
                       required = requiredSamples (tr_When t)
                   in if met \<and> sint required \<le> sint consecutive
                      then (firing_decision t reason consecutive,
                            set_samples (set_fired st1 (tr_Name t) (clk n')) (tr_Name t) 0)
                      else eval_loop cur sg clk n' ts st1
                             (if 0 < sint consecutive \<and> closest = None
                              then Some (progress_decision t reason consecutive required)
                              else closest))"

definition Evaluate :: "AdaptivePolicy \<Rightarrow> Signals \<Rightarrow> (nat \<Rightarrow> gotime) \<Rightarrow> State \<Rightarrow> Decision \<times> State" where
  "Evaluate policy sg clk st =
     (if SampleCount sg = 0
      then (reason_decision (''skipping evaluation '' @ em_dash @ '' no samples collected this interval''), st)
      else if \<not> HasTriggers policy then (reason_decision ''no triggers configured'', st)
      else eval_loop (ActiveProfile (Spec policy)) sg clk 0 (Triggers (Spec policy)) st None)"

end
