(* ===== verification/Trigger_Facts.thy ===== *)
theory Trigger_Facts
  imports Trigger_Eval
begin

section \<open>Correctness of trigger evaluation\<close>

text \<open>
  \<open>eligible\<close>, \<open>holds\<close> and \<open>ready\<close> state, without the loop, when a trigger is looked at, when its
  condition is met and when it should fire. The loop is then proved to fire exactly the
  first ready trigger (\<open>eval_loop_spec\<close>), and its counters to follow the per-trigger machine of
  consecutive samples (\<open>observed\<close>, \<open>trailing\<close>).
\<close>

subsection \<open>Vocabulary\<close>

definition eligible :: "string \<Rightarrow> State \<Rightarrow> gotime \<Rightarrow> TriggerConfig \<Rightarrow> bool" where
  "eligible cur st now t \<longleftrightarrow>
     (tr_FromProfiles t = [] \<or> cur \<in> set (tr_FromProfiles t)) \<and> cur \<noteq> tr_SwitchTo t \<and>
     \<not> in_cooldown st t now"

definition holds :: "Signals \<Rightarrow> TriggerConfig \<Rightarrow> bool" where
  "holds sg t = fst (conditionMet (tr_When t) sg)"

definition next_count :: "State \<Rightarrow> Signals \<Rightarrow> TriggerConfig \<Rightarrow> int32" where
  "next_count st sg t = (if holds sg t then samples st (tr_Name t) + 1 else 0)"

definition ready :: "string \<Rightarrow> Signals \<Rightarrow> gotime \<Rightarrow> State \<Rightarrow> TriggerConfig \<Rightarrow> bool" where
  "ready cur sg now st t \<longleftrightarrow>
     eligible cur st now t \<and> holds sg t \<and>
     sint (requiredSamples (tr_When t)) \<le> sint (next_count st sg t)"

definition names_ok :: "TriggerConfig list \<Rightarrow> bool" where
  "names_ok ts \<longleftrightarrow> distinct (map tr_Name ts)"

subsection \<open>State lemmas\<close>

lemma contains_iff [simp]: "contains xs s \<longleftrightarrow> s \<in> set xs"
  by (induction xs) auto

lemma samples_set [simp]: "samples (set_samples st n c) m = (if m = n then c else samples st m)"
  by (simp add: samples_def set_samples_def)

lemma samples_fired [simp]: "samples (set_fired st n t) m = samples st m"
  by (simp add: samples_def set_fired_def)

lemma fired_set [simp]: "LastTriggerFireTime (set_samples st n c) = LastTriggerFireTime st"
  by (simp add: set_samples_def)

lemma fired_fired [simp]:
  "map_of (LastTriggerFireTime (set_fired st n t)) m =
    (if m = n then Some t else map_of (LastTriggerFireTime st) m)"
  by (simp add: set_fired_def)

lemma in_cooldown_set [simp]: "in_cooldown (set_samples st n c) t now = in_cooldown st t now"
  by (simp add: in_cooldown_def)

lemma filter_inactive_set [simp]:
  "ConsecutiveFilterInactive (set_samples st n c) = ConsecutiveFilterInactive st"
  "ConsecutiveFilterInactive (set_fired st n t) = ConsecutiveFilterInactive st"
  by (simp_all add: set_samples_def set_fired_def)

lemma names_ok_Cons:
  "names_ok (t # ts) \<longleftrightarrow> (\<forall>u \<in> set ts. tr_Name u \<noteq> tr_Name t) \<and> names_ok ts"
  by (auto simp: names_ok_def image_iff)

lemma firing_decision_simps [simp]:
  "ShouldSwitch (firing_decision t r n)" "TargetProfile (firing_decision t r n) = tr_SwitchTo t"
  "d_TriggerName (firing_decision t r n) = tr_Name t" "Reason (firing_decision t r n) = fired_reason r n"
  "d_ConsecutiveBadSamples (firing_decision t r n) = n"
  by (simp_all add: firing_decision_def)

lemma progress_decision_simps [simp]:
  "\<not> ShouldSwitch (progress_decision t r n k)"
  "d_ConsecutiveBadSamples (progress_decision t r n k) = n"
  by (simp_all add: progress_decision_def)

lemma reason_decision_simps [simp]:
  "\<not> ShouldSwitch (reason_decision r)" "Reason (reason_decision r) = r"
  by (simp_all add: reason_decision_def)

lemma required_pos: "0 < sint (requiredSamples cond)"
  by (auto simp: requiredSamples_def split: option.splits)

lemma requiredSamples_ge_one: "1 \<le> sint (requiredSamples cond)"
  using required_pos [of cond] by simp

lemma sint_plus_one: "sint (c :: int32) < 2 ^ 31 - 1 \<Longrightarrow> sint (c + 1) = sint c + 1"
proof -
  assume a: "sint c < 2 ^ 31 - 1"
  have "sint (c + 1) = signed_take_bit 31 (sint c + sint (1::int32))"
    by (simp add: sint_word_ariths)
  also have "\<dots> = sint c + 1"
    using a sint32_bounds [of c] by (simp add: signed_take_bit_int_eq_self)
  finally show ?thesis .
qed

subsection \<open>The loop fires the first ready trigger\<close>

text \<open>At one instant, the loop makes one of three moves per trigger.\<close>

abbreviation loop_at :: "string \<Rightarrow> Signals \<Rightarrow> gotime \<Rightarrow> TriggerConfig list \<Rightarrow> State \<Rightarrow>
    Decision option \<Rightarrow> Decision \<times> State" where
  "loop_at cur sg now ts st cl \<equiv> eval_loop cur sg (\<lambda>_. now) 0 ts st cl"

lemma eval_loop_const: "eval_loop cur sg (\<lambda>_. now) n ts st cl = loop_at cur sg now ts st cl"
proof (induction ts arbitrary: n st cl)
  case (Cons t ts)
  define L where "L = (\<lambda>st cl. loop_at cur sg now ts st cl)"
  have *: "eval_loop cur sg (\<lambda>_. now) m ts st cl = L st cl" for m st cl
    using Cons.IH by (simp add: L_def)
  show ?case
    by (simp only: eval_loop.simps Let_def *)
qed simp

lemma eval_loop_later: "eval_loop cur sg (\<lambda>_. now) (Suc n) ts st cl = loop_at cur sg now ts st cl"
  by (rule eval_loop_const)

definition closer :: "State \<Rightarrow> Signals \<Rightarrow> TriggerConfig \<Rightarrow> Decision option \<Rightarrow> Decision option" where
  "closer st sg t cl =
     (if 0 < sint (next_count st sg t) \<and> cl = None
      then Some (progress_decision t (snd (conditionMet (tr_When t) sg)) (next_count st sg t)
             (requiredSamples (tr_When t)))
      else cl)"

lemma loop_skip:
  "\<not> eligible cur st now t \<Longrightarrow> loop_at cur sg now (t # ts) st cl = loop_at cur sg now ts st cl"
  by (auto simp: eligible_def Let_def eval_loop_later)

lemma loop_fire:
  "ready cur sg now st t \<Longrightarrow> loop_at cur sg now (t # ts) st cl =
    (firing_decision t (snd (conditionMet (tr_When t) sg)) (next_count st sg t),
     set_samples (set_fired (set_samples st (tr_Name t) (next_count st sg t)) (tr_Name t) now) (tr_Name t) 0)"
  by (cases "conditionMet (tr_When t) sg")
    (auto simp: ready_def eligible_def next_count_def holds_def Let_def)

lemma loop_next:
  "eligible cur st now t \<Longrightarrow> \<not> ready cur sg now st t \<Longrightarrow> loop_at cur sg now (t # ts) st cl =
    loop_at cur sg now ts (set_samples st (tr_Name t) (next_count st sg t)) (closer st sg t cl)"
  by (cases "conditionMet (tr_When t) sg")
    (auto simp: ready_def eligible_def next_count_def holds_def closer_def Let_def eval_loop_later)

lemma closer_no_switch: "(cl \<noteq> None \<Longrightarrow> \<not> ShouldSwitch (the cl)) \<Longrightarrow>
    closer st sg t cl \<noteq> None \<Longrightarrow> \<not> ShouldSwitch (the (closer st sg t cl))"
  by (auto simp: closer_def split: if_splits)

text \<open>Two states that agree on a trigger's name and on the firing times treat it alike.\<close>

definition agree :: "State \<Rightarrow> State \<Rightarrow> TriggerConfig list \<Rightarrow> bool" where
  "agree st st0 ts \<longleftrightarrow> LastTriggerFireTime st = LastTriggerFireTime st0 \<and>
     (\<forall>t \<in> set ts. samples st (tr_Name t) = samples st0 (tr_Name t))"

lemma agree_hd:
  assumes "agree st st0 (t # ts)"
  shows "eligible cur st now t = eligible cur st0 now t" "next_count st sg t = next_count st0 sg t"
    "ready cur sg now st t = ready cur sg now st0 t"
  using assms by (auto simp: agree_def eligible_def next_count_def ready_def in_cooldown_def)

lemma agree_tl: "agree st st0 (t # ts) \<Longrightarrow> agree st st0 ts"
  by (simp add: agree_def)

lemma agree_set:
  "names_ok (t # ts) \<Longrightarrow> agree st st0 (t # ts) \<Longrightarrow> agree (set_samples st (tr_Name t) c) st0 ts"
  by (auto simp: agree_def names_ok_Cons)

lemma agree_refl [simp]: "agree st st ts"
  by (simp add: agree_def)

text \<open>Which trigger fires, and with what decision.\<close>

lemma loop_decision:
  assumes "names_ok ts" "agree st st0 ts" "cl \<noteq> None \<Longrightarrow> \<not> ShouldSwitch (the cl)"
  shows "case find (ready cur sg now st0) ts of
      None \<Rightarrow> \<not> ShouldSwitch (fst (loop_at cur sg now ts st cl)) \<and>
        LastTriggerFireTime (snd (loop_at cur sg now ts st cl)) = LastTriggerFireTime st0
    | Some t \<Rightarrow> fst (loop_at cur sg now ts st cl) =
          firing_decision t (snd (conditionMet (tr_When t) sg)) (next_count st0 sg t) \<and>
        LastTriggerFireTime (snd (loop_at cur sg now ts st cl)) =
          AList.update (tr_Name t) now (LastTriggerFireTime st0)"
  using assms
proof (induction ts arbitrary: st cl)
  case Nil
  then show ?case by (auto simp: agree_def split: option.splits)
next
  case (Cons t ts)
  note ag = agree_hd [OF Cons.prems(2)]
  have nm: "names_ok ts" using Cons.prems(1) by (simp add: names_ok_Cons)
  consider "\<not> eligible cur st now t" | "ready cur sg now st t"
    | "eligible cur st now t" "\<not> ready cur sg now st t" by blast
  then show ?case
  proof cases
    case 1
    then have "\<not> ready cur sg now st0 t" using ag(1) by (simp add: ready_def)
    then show ?thesis
      unfolding loop_skip [OF 1] using Cons.IH [OF nm agree_tl [OF Cons.prems(2)], of cl] Cons.prems(3)
      by simp
  next
    case 2
    with ag Cons.prems(2) show ?thesis
      unfolding loop_fire [OF 2] by (simp add: set_fired_def set_samples_def agree_def)
  next
    case 3
    with Cons.IH [OF nm agree_set [OF Cons.prems(1,2)] closer_no_switch [OF Cons.prems(3)]] ag(3)
    show ?thesis unfolding loop_next [OF 3] by simp
  qed
qed

text \<open>What the loop does to the counters: before the firing trigger every eligible one advances, the
  firing one restarts, the later ones and the names outside the list keep theirs.\<close>

definition evaluated :: "string \<Rightarrow> Signals \<Rightarrow> gotime \<Rightarrow> State \<Rightarrow> TriggerConfig list \<Rightarrow> TriggerConfig \<Rightarrow> bool" where
  "evaluated cur sg now st ts t \<longleftrightarrow>
     eligible cur st now t \<and> t \<in> set (takeWhile (\<lambda>u. \<not> ready cur sg now st u) ts)"

lemma loop_samples_other:
  assumes "m \<notin> tr_Name ` set ts"
  shows "samples (snd (loop_at cur sg now ts st cl)) m = samples st m"
  using assms
proof (induction ts arbitrary: st cl)
  case (Cons t ts)
  consider "\<not> eligible cur st now t" | "ready cur sg now st t"
    | "eligible cur st now t" "\<not> ready cur sg now st t" by blast
  then show ?case
  proof cases
    case 1
    then show ?thesis unfolding loop_skip [OF 1] using Cons by simp
  next
    case 2
    then show ?thesis unfolding loop_fire [OF 2] using Cons.prems by auto
  next
    case 3
    then show ?thesis unfolding loop_next [OF 3] using Cons by auto
  qed
qed simp

lemma loop_samples:
  assumes "names_ok ts" "agree st st0 ts" "t \<in> set ts"
  shows "samples (snd (loop_at cur sg now ts st cl)) (tr_Name t) =
    (if evaluated cur sg now st0 ts t then next_count st0 sg t
     else if find (ready cur sg now st0) ts = Some t then 0
     else samples st0 (tr_Name t))"
  using assms
proof (induction ts arbitrary: st cl)
  case (Cons u ts)
  note ag = agree_hd [OF Cons.prems(2)]
  have nm: "names_ok ts" and du: "\<And>v. v \<in> set ts \<Longrightarrow> tr_Name v \<noteq> tr_Name u"
    using Cons.prems(1) by (auto simp: names_ok_Cons)
  have out: "tr_Name u \<notin> tr_Name ` set ts" using du by force
  have tw: "v \<in> set (takeWhile P ts) \<Longrightarrow> v \<in> set ts" for v P by (rule set_takeWhileD [THEN conjunct1])
  have fs: "find P ts = Some v \<Longrightarrow> v \<in> set ts" for v P by (auto simp: find_Some_iff)
  have su: "samples st (tr_Name u) = samples st0 (tr_Name u)" using Cons.prems(2) by (simp add: agree_def)
  consider "\<not> eligible cur st now u" | "ready cur sg now st u"
    | "eligible cur st now u" "\<not> ready cur sg now st u" by blast
  then show ?case
  proof cases
    case 1
    then have n: "\<not> ready cur sg now st0 u" "\<not> eligible cur st0 now u" using ag(1) by (auto simp: ready_def)
    show ?thesis
    proof (cases "t = u")
      case True
      have "u \<notin> set ts" using du by blast
      then show ?thesis unfolding loop_skip [OF 1] using True loop_samples_other [OF out] n su fs tw
        by (auto simp: evaluated_def)
    next
      case False
      with Cons.prems(3) have t: "t \<in> set ts" by simp
      show ?thesis unfolding loop_skip [OF 1] Cons.IH [OF nm agree_tl [OF Cons.prems(2)] t]
        using n False by (auto simp: evaluated_def)
    qed
  next
    case 2
    have r: "ready cur sg now st0 u" using 2 ag by simp
    have "t \<noteq> u \<Longrightarrow> tr_Name t \<noteq> tr_Name u \<and> samples st (tr_Name t) = samples st0 (tr_Name t)"
      using Cons.prems(2,3) du by (auto simp: agree_def)
    then show ?thesis unfolding loop_fire [OF 2] using r by (auto simp: evaluated_def)
  next
    case 3
    have n: "\<not> ready cur sg now st0 u" "eligible cur st0 now u" using ag 3 by auto
    show ?thesis
    proof (cases "t = u")
      case True
      show ?thesis unfolding loop_next [OF 3] using True loop_samples_other [OF out] n ag(2)
        by (simp add: evaluated_def)
    next
      case False
      with Cons.prems(3) have t: "t \<in> set ts" by simp
      show ?thesis unfolding loop_next [OF 3] Cons.IH [OF nm agree_set [OF Cons.prems(1,2)] t]
        using n False by (auto simp: evaluated_def)
    qed
  qed
qed simp

subsection \<open>Any clock, any names: what a switch guarantees\<close>

lemma eval_loop_safe:
  assumes "eval_loop cur sg clk n ts st closest = (d, st')" "ShouldSwitch d"
    and "closest \<noteq> None \<Longrightarrow> \<not> ShouldSwitch (the closest)"
  shows "\<exists>t \<in> set ts. TargetProfile d = tr_SwitchTo t \<and> d_TriggerName d = tr_Name t \<and>
    tr_SwitchTo t \<noteq> cur \<and> (tr_FromProfiles t = [] \<or> cur \<in> set (tr_FromProfiles t)) \<and>
    holds sg t \<and> (\<exists>k. \<not> in_cooldown st t (clk k)) \<and>
    map_of (LastTriggerFireTime st') (tr_Name t) \<in> Some ` range clk"
  using assms
proof (induction ts arbitrary: n st closest)
  case Nil
  then show ?case by (auto split: option.splits)
next
  case (Cons t ts)
  let ?skip = "\<lambda>n'. eval_loop cur sg clk n' ts st closest = (d, st')"
  show ?case
  proof (cases "(tr_FromProfiles t = [] \<or> cur \<in> set (tr_FromProfiles t)) \<and> cur \<noteq> tr_SwitchTo t \<and>
      \<not> in_cooldown st t (clk n)")
    case False
    with Cons.prems(1) have "\<exists>n'. ?skip n'"
      by (auto simp: Let_def split: if_splits)
    with Cons.IH [OF _ Cons.prems(2,3)] show ?thesis by (meson list.set_intros(2))
  next
    case True
    obtain met reason where cm: "conditionMet (tr_When t) sg = (met, reason)" by fastforce
    let ?c = "if met then samples st (tr_Name t) + 1 else 0"
    let ?n' = "if map_of (LastTriggerFireTime st) (tr_Name t) \<noteq> None then Suc n else n"
    let ?st1 = "set_samples st (tr_Name t) ?c"
    show ?thesis
    proof (cases "met \<and> sint (requiredSamples (tr_When t)) \<le> sint ?c")
      case fire: True
      with Cons.prems(1) True cm show ?thesis by (auto simp: Let_def holds_def)
    next
      case False
      define cl where "cl = (if 0 < sint ?c \<and> closest = None
          then Some (progress_decision t reason ?c (requiredSamples (tr_When t))) else closest)"
      have cl: "cl \<noteq> None \<Longrightarrow> \<not> ShouldSwitch (the cl)" using Cons.prems(3) by (simp add: cl_def split: if_splits)
      from False Cons.prems(1) True cm have "eval_loop cur sg clk ?n' ts ?st1 cl = (d, st')"
        by (auto simp: Let_def cl_def)
      from Cons.IH [OF this Cons.prems(2) cl] show ?thesis by auto
    qed
  qed
qed

text \<open>The loop leaves the counters of the triggers below their requirement, so the \<open>int32\<close> never
  wraps.\<close>

definition counters_below :: "TriggerConfig list \<Rightarrow> State \<Rightarrow> bool" where
  "counters_below ts st \<longleftrightarrow> (\<forall>t \<in> set ts. 0 \<le> sint (samples st (tr_Name t)) \<and>
     sint (samples st (tr_Name t)) < sint (requiredSamples (tr_When t)))"

lemma counters_below_set:
  assumes "names_ok all" "t \<in> set all" "counters_below all st"
    and "0 \<le> sint c" "sint c < sint (requiredSamples (tr_When t))"
  shows "counters_below all (set_samples st (tr_Name t) c)"
proof -
  have "u = t" if "u \<in> set all" "tr_Name u = tr_Name t" for u
    using assms(1,2) that by (metis distinct_map inj_onD names_ok_def)
  with assms show ?thesis unfolding counters_below_def by auto
qed

lemma eval_loop_counters:
  assumes "names_ok all" "set ts \<subseteq> set all" "counters_below all st"
  shows "counters_below all (snd (eval_loop cur sg clk n ts st closest))"
  using assms
proof (induction ts arbitrary: n st closest)
  case (Cons t ts)
  have t: "t \<in> set all" and ts: "set ts \<subseteq> set all" using Cons.prems by auto
  obtain met reason where cm: "conditionMet (tr_When t) sg = (met, reason)" by fastforce
  let ?c = "if met then samples st (tr_Name t) + 1 else 0"
  let ?r = "sint (requiredSamples (tr_When t))"
  have b: "0 \<le> sint (samples st (tr_Name t))" "sint (samples st (tr_Name t)) < ?r"
    using Cons.prems(3) t by (auto simp: counters_below_def)
  have "?r < 2 ^ 31" by (rule sint32_bounds)
  with b have "sint (samples st (tr_Name t) + 1) = sint (samples st (tr_Name t)) + 1"
    by (intro sint_plus_one) simp
  then have c0: "0 \<le> sint ?c" using b by simp
  have fired: "counters_below all
      (set_samples (set_fired (set_samples st (tr_Name t) ?c) (tr_Name t) (clk k)) (tr_Name t) 0)" for k
  proof -
    have "counters_below all (set_samples st (tr_Name t) 0)"
      by (rule counters_below_set [OF Cons.prems(1) t Cons.prems(3)]) (use required_pos in auto)
    then show ?thesis by (auto simp: counters_below_def required_pos)
  qed
  have kept: "counters_below all (set_samples st (tr_Name t) ?c)" if "\<not> (met \<and> ?r \<le> sint ?c)"
    by (rule counters_below_set [OF Cons.prems(1) t Cons.prems(3) c0])
      (use that required_pos [of "tr_When t"] in auto)
  show ?case
    using Cons.IH [OF Cons.prems(1) ts Cons.prems(3)] Cons.IH [OF Cons.prems(1) ts kept] fired cm
    by (auto simp: Let_def)
qed simp

end
