(* ===== verification/Sample_Policy.thy ===== *)
theory Sample_Policy
  imports Trigger_Eval
begin

section \<open>A sample policy\<close>

text \<open>
  One policy with two profiles and two triggers, and signals for it: the concrete inputs on which
  the theorems of the other theories are instantiated.
\<close>

subsection \<open>Sample configurations\<close>
definition below95 :: TriggerConfig where
  "below95 = \<lparr>tr_Name = ''degrade'',
     tr_When = \<lparr>cond_SuccessRate = Some \<lparr>rc_Below = ''0.95'', rc_Above = [], rc_ConsecutiveSamples = 2\<rparr>,
       cond_ServiceLatencyMs = None, cond_RPSAbove = None\<rparr>,
     tr_SwitchTo = ''strict'', tr_FromProfiles = [''open''], tr_CooldownSeconds = 60\<rparr>"

definition above99 :: TriggerConfig where
  "above99 = \<lparr>tr_Name = ''recover'',
     tr_When = \<lparr>cond_SuccessRate = Some \<lparr>rc_Below = [], rc_Above = ''0.99'', rc_ConsecutiveSamples = 1\<rparr>,
       cond_ServiceLatencyMs = None, cond_RPSAbove = None\<rparr>,
     tr_SwitchTo = ''open'', tr_FromProfiles = [''strict''], tr_CooldownSeconds = 60\<rparr>"

definition sample_signals :: "int \<Rightarrow> Signals" where
  \<comment> \<open>a success rate of \<open>p\<close> percent over ten requests\<close>
  "sample_signals p = \<lparr>SuccessRate = flit p 100, ServiceLatencyMs = fzero, TotalLatencyMs = fzero,
     RPS = fof_int 10, SampleCount = 10, CollectedAt = 0, ShedRejectedRPS = fzero\<rparr>"

definition sample_spec :: AdaptivePolicySpec where
  "sample_spec = \<lparr>Selector = [(''app'', ''checkout'')], MeshBackendField = [], MeshModeField = [], DryRun = False,
     AdaptiveConcurrency = None, AdmissionControl = None, StreamingProtection = None,
     Profiles = [(''open'', empty_profile), (''strict'', empty_profile)], ActiveProfile = ''open'',
     Triggers = [below95, above99], Schedules = [], SignalConfigField = None, Detection = None\<rparr>"

definition sample_status :: AdaptivePolicyStatus where
  "sample_status = \<lparr>Conditions = [], ObservedGeneration = 0, DetectedBackend = [], st_ActiveProfile = [],
     ProfileActiveSince = None, ActiveFilters = [], ManagedResources = [], ShedRateNow = [],
     WouldHaveShedRate = [], LastDecision = None, DecisionHistory = [], NextTriggerEvaluation = None,
     st_ConsecutiveBadSamples = 0, ScalabilityWarning = False, ScalabilityWarningDetail = [],
     LastReconcileTime = None, RTDSConnected = False\<rparr>"

definition sample_policy :: "string \<Rightarrow> AdaptivePolicy" where
  \<comment> \<open>a policy in the given profile\<close>
  "sample_policy cur = \<lparr>Name = ''checkout'', Namespace = ''shop'', UID = ''u1'', Generation = 1, Annotations = [],
     Spec = sample_spec\<lparr>ActiveProfile := cur\<rparr>, Status = sample_status\<rparr>"

lemmas sample_defs = below95_def above99_def sample_signals_def sample_spec_def sample_policy_def

end
