(* ===== verification/Trigger_Props.thy ===== *)
theory Trigger_Props
  imports Trigger_Facts Sample_Policy
begin

section \<open>Properties of trigger evaluation\<close>

text \<open>
  Single evaluations first (which trigger fires, what a switch guarantees, what happens to the
  counters), then runs of evaluations over one trigger list, as the controller performs them: the
  evidence behind a firing, the cooldown between two firings, and that sustained evidence fires.
\<close>

subsection \<open>Which trigger fires\<close>

lemma Evaluate_loop:
  "SampleCount sg \<noteq> 0 \<Longrightarrow> Triggers (Spec p) \<noteq> [] \<Longrightarrow>
    Evaluate p sg clk st = eval_loop (ActiveProfile (Spec p)) sg clk 0 (Triggers (Spec p)) st None"
  by (simp add: Evaluate_def policy_simps)

lemma Evaluate_guarded:
  "SampleCount sg = 0 \<or> Triggers (Spec p) = [] \<Longrightarrow>
    \<not> ShouldSwitch (fst (Evaluate p sg clk st)) \<and> snd (Evaluate p sg clk st) = st"
  by (auto simp: Evaluate_def policy_simps)

definition chosen :: "AdaptivePolicy \<Rightarrow> Signals \<Rightarrow> gotime \<Rightarrow> State \<Rightarrow> TriggerConfig option" where
  \<comment> \<open>the specification: the first trigger of the spec that is ready\<close>
  "chosen p sg now st =
     (if SampleCount sg = 0 then None
      else find (ready (ActiveProfile (Spec p)) sg now st) (Triggers (Spec p)))"

lemma Evaluate_spec:
  assumes "names_ok (Triggers (Spec p))"
  shows "case chosen p sg now st of
      None \<Rightarrow> \<not> ShouldSwitch (fst (Evaluate p sg (\<lambda>_. now) st)) \<and>
        LastTriggerFireTime (snd (Evaluate p sg (\<lambda>_. now) st)) = LastTriggerFireTime st
    | Some t \<Rightarrow> fst (Evaluate p sg (\<lambda>_. now) st) =
          firing_decision t (snd (conditionMet (tr_When t) sg)) (next_count st sg t) \<and>
        LastTriggerFireTime (snd (Evaluate p sg (\<lambda>_. now) st)) =
          AList.update (tr_Name t) now (LastTriggerFireTime st)"
proof (cases "SampleCount sg = 0 \<or> Triggers (Spec p) = []")
  case True
  then show ?thesis using Evaluate_guarded [OF True] by (auto simp: chosen_def)
next
  case False
  then show ?thesis
    using loop_decision [OF assms agree_refl, of None "ActiveProfile (Spec p)" sg now st]
    by (auto simp: chosen_def Evaluate_loop split: option.splits)
qed

text \<open>C1. Evaluate implements the declarative choice: with distinct trigger names and the clock at one
  instant, it switches exactly when some trigger is ready (its profile guard passes, it is out of
  cooldown, its condition holds and the counter including this sample reaches the requirement), and
  then the decision is that of the first such trigger in spec order, with its fire time recorded;
  when none is ready no fire time changes.\<close>

theorem Evaluate_fires_first_ready:
  assumes "names_ok (Triggers (Spec p))"
  shows "case chosen p sg now st of
      None \<Rightarrow> \<not> ShouldSwitch (fst (Evaluate p sg (\<lambda>_. now) st)) \<and>
        LastTriggerFireTime (snd (Evaluate p sg (\<lambda>_. now) st)) = LastTriggerFireTime st
    | Some t \<Rightarrow> fst (Evaluate p sg (\<lambda>_. now) st) =
          firing_decision t (snd (conditionMet (tr_When t) sg)) (next_count st sg t) \<and>
        LastTriggerFireTime (snd (Evaluate p sg (\<lambda>_. now) st)) =
          AList.update (tr_Name t) now (LastTriggerFireTime st)"
  by (rule Evaluate_spec [OF assms])

theorem Evaluate_fires_first_ready_witness:
  "names_ok (Triggers (Spec (sample_policy ''strict''))) \<and>
   fst (Evaluate (sample_policy ''strict'') (sample_signals 100) (\<lambda>_. 0) NewState) =
     firing_decision above99 (snd (conditionMet (tr_When above99) (sample_signals 100))) 1"
proof -
  have n: "names_ok (Triggers (Spec (sample_policy ''strict'')))"
    by (simp add: names_ok_def sample_defs)
  have "chosen (sample_policy ''strict'') (sample_signals 100) 0 NewState = Some above99"
    "next_count NewState (sample_signals 100) above99 = 1" by code_simp+
  with Evaluate_fires_first_ready [OF n, of "sample_signals 100" 0 NewState] n
  show ?thesis by simp
qed

lemma Evaluate_safe:
  assumes "Evaluate p sg clk st = (d, st')" "ShouldSwitch d"
  shows "SampleCount sg \<noteq> 0 \<and> (\<exists>t \<in> set (Triggers (Spec p)).
    TargetProfile d = tr_SwitchTo t \<and> d_TriggerName d = tr_Name t \<and>
    tr_SwitchTo t \<noteq> ActiveProfile (Spec p) \<and>
    (tr_FromProfiles t = [] \<or> ActiveProfile (Spec p) \<in> set (tr_FromProfiles t)) \<and>
    holds sg t \<and> (\<exists>k. \<not> in_cooldown st t (clk k)) \<and>
    map_of (LastTriggerFireTime st') (tr_Name t) \<in> Some ` range clk)"
proof -
  have "SampleCount sg \<noteq> 0 \<and> Triggers (Spec p) \<noteq> []"
    using Evaluate_guarded [of sg p clk st] assms by auto
  with assms eval_loop_safe [of "ActiveProfile (Spec p)" sg clk 0 "Triggers (Spec p)" st None d st']
  show ?thesis by (simp add: Evaluate_loop)
qed

text \<open>Safety of every switch, whatever the clock does during the call and whatever state is passed
  in: a switch is never decided on an interval without samples, names a trigger of the policy, goes to
  that trigger's target and not to the profile already active, respects the trigger's profile
  restriction and cooldown, has its condition met by these signals, and records its fire time.\<close>

theorem Evaluate_switch_legal:
  assumes "Evaluate p sg clk st = (d, st')" "ShouldSwitch d"
  shows "SampleCount sg \<noteq> 0 \<and> (\<exists>t \<in> set (Triggers (Spec p)).
    TargetProfile d = tr_SwitchTo t \<and> d_TriggerName d = tr_Name t \<and>
    tr_SwitchTo t \<noteq> ActiveProfile (Spec p) \<and>
    (tr_FromProfiles t = [] \<or> ActiveProfile (Spec p) \<in> set (tr_FromProfiles t)) \<and>
    holds sg t \<and> (\<exists>k. \<not> in_cooldown st t (clk k)) \<and>
    map_of (LastTriggerFireTime st') (tr_Name t) \<in> Some ` range clk)"
  by (rule Evaluate_safe [OF assms])

theorem Evaluate_switch_legal_witness:
  "\<exists>st'. Evaluate (sample_policy ''strict'') (sample_signals 100) int NewState =
      (firing_decision above99 (snd (conditionMet (tr_When above99) (sample_signals 100))) 1, st') \<and>
    holds (sample_signals 100) above99"
proof -
  obtain d st' where e: "Evaluate (sample_policy ''strict'') (sample_signals 100) int NewState = (d, st')"
    by fastforce
  have d: "fst (Evaluate (sample_policy ''strict'') (sample_signals 100) int NewState) =
      firing_decision above99 (snd (conditionMet (tr_When above99) (sample_signals 100))) 1" by code_simp
  then have "ShouldSwitch d" using e by simp
  from Evaluate_switch_legal [OF e this] d e show ?thesis
    by (auto simp: sample_defs)
qed

subsection \<open>Counters\<close>

lemma Evaluate_counters_kept:
  assumes "names_ok (Triggers (Spec p))" "counters_below (Triggers (Spec p)) st"
  shows "counters_below (Triggers (Spec p)) (snd (Evaluate p sg clk st))"
proof (cases "SampleCount sg = 0 \<or> Triggers (Spec p) = []")
  case True
  with Evaluate_guarded [OF True] assms show ?thesis by auto
next
  case False
  with eval_loop_counters [OF assms(1) order_refl assms(2)] show ?thesis
    by (simp add: Evaluate_loop)
qed

text \<open>Evaluate keeps every counter of the policy's triggers non-negative and strictly below that
  trigger's requirement (so the \<open>int32\<close> increment never wraps), for any clock; and an interval without
  samples leaves the whole evaluation state untouched and never switches.\<close>

theorem Evaluate_counters:
  assumes "names_ok (Triggers (Spec p))" "counters_below (Triggers (Spec p)) st"
  shows "counters_below (Triggers (Spec p)) (snd (Evaluate p sg clk st)) \<and>
    (SampleCount sg = 0 \<longrightarrow> snd (Evaluate p sg clk st) = st \<and> \<not> ShouldSwitch (fst (Evaluate p sg clk st)))"
  using Evaluate_counters_kept [OF assms] Evaluate_guarded [of sg p clk st] by simp

theorem Evaluate_counters_witness:
  "counters_below [below95, above99] NewState \<and>
   counters_below [below95, above99]
     (snd (Evaluate (sample_policy ''open'') (sample_signals 90) (\<lambda>_. 0) NewState)) \<and>
   samples (snd (Evaluate (sample_policy ''open'') (sample_signals 90) (\<lambda>_. 0) NewState)) ''degrade'' = 1"
proof -
  have n: "names_ok (Triggers (Spec (sample_policy ''open'')))" "Triggers (Spec (sample_policy ''open'')) = [below95, above99]"
    by (simp_all add: names_ok_def sample_defs)
  have c: "counters_below (Triggers (Spec (sample_policy ''open''))) NewState"
    by (simp add: counters_below_def required_pos samples_def NewState_def)
  have "samples (snd (Evaluate (sample_policy ''open'') (sample_signals 90) (\<lambda>_. 0) NewState)) ''degrade'' = 1"
    by code_simp
  with Evaluate_counters [OF n(1) c, of "sample_signals 90" "\<lambda>_. 0"] c show ?thesis
    unfolding n(2) by blast
qed

subsection \<open>Runs: the evidence behind a firing\<close>

type_synonym inputs = "(AdaptivePolicy \<times> Signals \<times> gotime) list"

fun run_state :: "inputs \<Rightarrow> State \<Rightarrow> State" where
  \<comment> \<open>the state after successive evaluations, each at one instant\<close>
  "run_state [] st = st"
| "run_state ((p, sg, now) # xs) st = run_state xs (snd (Evaluate p sg (\<lambda>_. now) st))"

definition looked_at :: "AdaptivePolicy \<Rightarrow> Signals \<Rightarrow> gotime \<Rightarrow> State \<Rightarrow> TriggerConfig \<Rightarrow> bool" where
  \<comment> \<open>the evaluation samples \<open>t\<close> and goes on\<close>
  "looked_at p sg now st t \<longleftrightarrow>
     SampleCount sg \<noteq> 0 \<and> evaluated (ActiveProfile (Spec p)) sg now st (Triggers (Spec p)) t"

fun history :: "inputs \<Rightarrow> State \<Rightarrow> TriggerConfig \<Rightarrow> bool list \<Rightarrow> bool list" where
  \<comment> \<open>what each sample of \<open>t\<close> showed since it last fired, newest first\<close>
  "history [] st t h = h"
| "history ((p, sg, now) # xs) st t h = history xs (snd (Evaluate p sg (\<lambda>_. now) st)) t
     (if chosen p sg now st = Some t then []
      else if looked_at p sg now st t then holds sg t # h else h)"

definition same_triggers :: "TriggerConfig list \<Rightarrow> inputs \<Rightarrow> bool" where
  "same_triggers ts xs \<longleftrightarrow> list_all (\<lambda>(p, sg, now). Triggers (Spec p) = ts) xs"

lemma Evaluate_samples:
  assumes "names_ok (Triggers (Spec p))" "t \<in> set (Triggers (Spec p))"
  shows "samples (snd (Evaluate p sg (\<lambda>_. now) st)) (tr_Name t) =
    (if chosen p sg now st = Some t then 0
     else if looked_at p sg now st t then next_count st sg t
     else samples st (tr_Name t))"
proof (cases "SampleCount sg = 0")
  case True
  then show ?thesis using Evaluate_guarded [of sg p "\<lambda>_. now" st] by (simp add: chosen_def looked_at_def)
next
  case False
  have "\<not> (evaluated (ActiveProfile (Spec p)) sg now st (Triggers (Spec p)) t \<and>
      find (ready (ActiveProfile (Spec p)) sg now st) (Triggers (Spec p)) = Some t)"
    by (auto simp: evaluated_def find_Some_iff dest!: set_takeWhileD)
  moreover have "Triggers (Spec p) \<noteq> []" using assms(2) by auto
  ultimately show ?thesis
    using loop_samples [OF assms(1) agree_refl assms(2), of "ActiveProfile (Spec p)" sg now st None] False
    by (auto simp: chosen_def looked_at_def Evaluate_loop)
qed

lemma next_count_exact:
  assumes "counters_below ts st" "t \<in> set ts"
  shows "sint (next_count st sg t) = (if holds sg t then sint (samples st (tr_Name t)) + 1 else 0)"
proof -
  have "sint (samples st (tr_Name t)) < 2 ^ 31 - 1"
    using assms sint32_bounds(2) [of "requiredSamples (tr_When t)"] by (fastforce simp: counters_below_def)
  then show ?thesis by (simp add: next_count_def sint_plus_one)
qed

lemma run_history:
  assumes "names_ok ts" "t \<in> set ts" "same_triggers ts xs" "counters_below ts st"
    and "sint (samples st (tr_Name t)) = trailing h"
  shows "sint (samples (run_state xs st) (tr_Name t)) = trailing (history xs st t h) \<and>
    counters_below ts (run_state xs st)"
  using assms(3-)
proof (induction xs arbitrary: st h)
  case (Cons x xs)
  obtain p sg now where x: "x = (p, sg, now)" by (cases x) auto
  have p: "Triggers (Spec p) = ts" "same_triggers ts xs"
    using Cons.prems by (simp_all add: same_triggers_def x)
  let ?st = "snd (Evaluate p sg (\<lambda>_. now) st)"
  let ?h = "if chosen p sg now st = Some t then []
      else if looked_at p sg now st t then holds sg t # h else h"
  have "counters_below ts ?st"
    using Evaluate_counters_kept [of p st sg "\<lambda>_. now"] assms(1) Cons.prems(2) by (simp add: p)
  moreover have "sint (samples ?st (tr_Name t)) = trailing ?h"
    using Evaluate_samples [of p t sg now st] next_count_exact [OF Cons.prems(2) assms(2), of sg]
      Cons.prems(3) assms(1,2) by (simp add: p)
  ultimately show ?case using Cons.IH [OF p(2)] by (simp add: x)
qed simp

lemma names_ok_inj: "names_ok ts \<Longrightarrow> t \<in> set ts \<Longrightarrow> u \<in> set ts \<Longrightarrow> tr_Name t = tr_Name u \<Longrightarrow> t = u"
  by (metis distinct_map inj_onD names_ok_def)

lemma Evaluate_chosen:
  assumes "names_ok (Triggers (Spec p))" "t \<in> set (Triggers (Spec p))"
    and "ShouldSwitch (fst (Evaluate p sg (\<lambda>_. now) st))"
    and "d_TriggerName (fst (Evaluate p sg (\<lambda>_. now) st)) = tr_Name t"
  shows "chosen p sg now st = Some t"
proof -
  from Evaluate_spec [OF assms(1), of sg now st] assms(3)
  obtain u where u: "chosen p sg now st = Some u"
    "d_TriggerName (fst (Evaluate p sg (\<lambda>_. now) st)) = tr_Name u"
    by (auto split: option.splits)
  then have "u \<in> set (Triggers (Spec p))" by (auto simp: chosen_def find_Some_iff split: if_splits)
  with u assms names_ok_inj show ?thesis by metis
qed

text \<open>C15. Evidence. Along any run of evaluations from a fresh state over one trigger list with distinct
  names (the active profile, signals and clock may change freely), when an evaluation switches by a
  trigger, then this sample and the most recent samples of that trigger since it last fired all met its
  condition, and there are at least as many of them as the trigger requires: no switch happens on
  scattered or too few samples.\<close>

theorem Evaluate_needs_consecutive_evidence:
  assumes "names_ok ts" "t \<in> set ts" "same_triggers ts (xs @ [(p, sg, now)])"
    and "ShouldSwitch (fst (Evaluate p sg (\<lambda>_. now) (run_state xs NewState)))"
    and "d_TriggerName (fst (Evaluate p sg (\<lambda>_. now) (run_state xs NewState))) = tr_Name t"
  shows "holds sg t \<and> sint (requiredSamples (tr_When t)) \<le> trailing (holds sg t # history xs NewState t [])"
proof -
  let ?st = "run_state xs NewState"
  have p: "Triggers (Spec p) = ts" "same_triggers ts xs" using assms(3) by (simp_all add: same_triggers_def)
  have "counters_below ts NewState"
    by (simp add: counters_below_def required_pos samples_def NewState_def)
  with run_history [OF assms(1,2) p(2), of NewState "[]"]
  have r: "sint (samples ?st (tr_Name t)) = trailing (history xs NewState t [])" "counters_below ts ?st"
    by (simp_all add: samples_def NewState_def)
  have "chosen p sg now ?st = Some t"
    by (rule Evaluate_chosen) (use assms p in simp_all)
  then have "ready (ActiveProfile (Spec p)) sg now ?st t"
    by (auto simp: chosen_def find_Some_iff split: if_splits)
  with next_count_exact [OF r(2) assms(2), of sg] r(1) show ?thesis by (auto simp: ready_def)
qed

theorem Evaluate_needs_consecutive_evidence_witness:
  "ShouldSwitch (fst (Evaluate (sample_policy ''open'') (sample_signals 90) (\<lambda>_. second)
      (run_state [(sample_policy ''open'', sample_signals 90, 0)] NewState))) \<and>
   2 \<le> trailing (holds (sample_signals 90) below95 #
      history [(sample_policy ''open'', sample_signals 90, 0)] NewState below95 [])"
proof -
  let ?xs = "[(sample_policy ''open'', sample_signals 90, 0)]"
  have d: "fst (Evaluate (sample_policy ''open'') (sample_signals 90) (\<lambda>_. second) (run_state ?xs NewState)) =
      firing_decision below95 (snd (conditionMet (tr_When below95) (sample_signals 90))) 2" by code_simp
  have "names_ok [below95, above99]" "below95 \<in> set [below95, above99]"
    "same_triggers [below95, above99] (?xs @ [(sample_policy ''open'', sample_signals 90, second)])"
    by (simp_all add: names_ok_def same_triggers_def sample_defs)
  then have "holds (sample_signals 90) below95 \<and> sint (requiredSamples (tr_When below95)) \<le>
      trailing (holds (sample_signals 90) below95 # history ?xs NewState below95 [])"
    by (rule Evaluate_needs_consecutive_evidence) (simp_all only: d firing_decision_simps)
  moreover have "sint (requiredSamples (tr_When below95)) = 2" by code_simp
  ultimately show ?thesis unfolding d using firing_decision_simps(1) by metis
qed

subsection \<open>Runs: cooldown\<close>

lemma loop_fired_advances:
  assumes "map_of (LastTriggerFireTime st) m = Some f" "f \<le> now"
  shows "\<exists>f'\<ge>f. f' \<le> now \<and> map_of (LastTriggerFireTime (snd (loop_at cur sg now ts st cl))) m = Some f'"
  using assms
proof (induction ts arbitrary: st cl)
  case (Cons t ts)
  consider "\<not> eligible cur st now t" | "ready cur sg now st t"
    | "eligible cur st now t" "\<not> ready cur sg now st t" by blast
  then show ?case
  proof cases
    case 1
    then show ?thesis unfolding loop_skip [OF 1] using Cons by blast
  next
    case 2
    then show ?thesis unfolding loop_fire [OF 2] using Cons.prems by auto
  next
    case 3
    then show ?thesis unfolding loop_next [OF 3] using Cons by simp
  qed
qed auto

lemma Evaluate_fired_advances:
  assumes "map_of (LastTriggerFireTime st) m = Some f" "f \<le> now"
  shows "\<exists>f'\<ge>f. f' \<le> now \<and> map_of (LastTriggerFireTime (snd (Evaluate p sg (\<lambda>_. now) st))) m = Some f'"
proof (cases "SampleCount sg = 0 \<or> Triggers (Spec p) = []")
  case True
  with Evaluate_guarded [OF True] assms show ?thesis by auto
next
  case False
  with loop_fired_advances [OF assms] show ?thesis by (simp add: Evaluate_loop)
qed

definition times :: "inputs \<Rightarrow> gotime list" where
  "times xs = map (\<lambda>(p, sg, now). now) xs"

lemma run_fired_advances:
  assumes "map_of (LastTriggerFireTime st) m = Some f" "sorted (f # times xs @ [b])"
  shows "\<exists>f'\<ge>f. f' \<le> b \<and> map_of (LastTriggerFireTime (run_state xs st)) m = Some f'"
  using assms
proof (induction xs arbitrary: st f)
  case (Cons x xs)
  obtain p sg now where x: "x = (p, sg, now)" by (cases x) auto
  have s: "f \<le> now" "sorted (now # times xs @ [b])" using Cons.prems(2) by (auto simp: x times_def)
  from Evaluate_fired_advances [OF Cons.prems(1) s(1), of p sg] obtain g where
    g: "f \<le> g" "g \<le> now" "map_of (LastTriggerFireTime (snd (Evaluate p sg (\<lambda>_. now) st))) m = Some g" by blast
  have "sorted (g # times xs @ [b])" using s(2) g(2) by (auto intro: order_trans)
  from Cons.IH [OF g(3) this] g(1) show ?case by (auto simp: x intro: order_trans)
qed (auto simp: times_def)

text \<open>C16. Cooldown. In a run whose instants never go backwards, two switches by the same trigger name are
  at least the trigger's cooldown apart, however many evaluations (and switches by other triggers) lie
  between them.\<close>

theorem Evaluate_cooldown_separates:
  assumes "names_ok (Triggers (Spec p))" "u \<in> set (Triggers (Spec p))"
    and "names_ok (Triggers (Spec q))" "t \<in> set (Triggers (Spec q))" "tr_Name u = tr_Name t"
    and "ShouldSwitch (fst (Evaluate p sg (\<lambda>_. a) st))"
    and "d_TriggerName (fst (Evaluate p sg (\<lambda>_. a) st)) = tr_Name u"
    and "sorted (a # times xs @ [b])"
    and "ShouldSwitch (fst (Evaluate q sg' (\<lambda>_. b) (run_state ((p, sg, a) # xs) st)))"
    and "d_TriggerName (fst (Evaluate q sg' (\<lambda>_. b) (run_state ((p, sg, a) # xs) st))) = tr_Name t"
  shows "sint (tr_CooldownSeconds t) * second \<le> b - a"
proof -
  let ?st = "run_state ((p, sg, a) # xs) st"
  have "chosen p sg a st = Some u" by (rule Evaluate_chosen) (use assms in simp_all)
  with Evaluate_spec [OF assms(1), of sg a st]
  have "map_of (LastTriggerFireTime (snd (Evaluate p sg (\<lambda>_. a) st))) (tr_Name t) = Some a"
    using assms(5) by simp
  from run_fired_advances [OF this assms(8)] obtain f where
    f: "a \<le> f" "f \<le> b" "map_of (LastTriggerFireTime ?st) (tr_Name t) = Some f" by auto
  have "chosen q sg' b ?st = Some t" by (rule Evaluate_chosen) (use assms in simp_all)
  then have "\<not> in_cooldown ?st t b"
    by (auto simp: chosen_def find_Some_iff ready_def eligible_def split: if_splits)
  then have "sint (tr_CooldownSeconds t) * second \<le> time_sub b f"
    using f(3) by (simp add: in_cooldown_def)
  also have "\<dots> \<le> b - f" using f(2) by (simp add: time_sub_def min_int64_def max_int64_def)
  also have "\<dots> \<le> b - a" using f(1) by simp
  finally show ?thesis .
qed

theorem Evaluate_cooldown_separates_witness:
  "sint (tr_CooldownSeconds above99) * second \<le> 60 * second - 0 \<and>
   ShouldSwitch (fst (Evaluate (sample_policy ''strict'') (sample_signals 100) (\<lambda>_. 60 * second)
     (run_state [(sample_policy ''strict'', sample_signals 100, 0), (sample_policy ''strict'', sample_signals 100, second)] NewState)))"
proof -
  let ?p = "sample_policy ''strict''" and ?sg = "sample_signals 100"
  have n: "names_ok (Triggers (Spec ?p))" "above99 \<in> set (Triggers (Spec ?p))"
    by (simp_all add: names_ok_def sample_defs)
  have d: "fst (Evaluate ?p ?sg (\<lambda>_. 0) NewState) =
      firing_decision above99 (snd (conditionMet (tr_When above99) ?sg)) 1" by code_simp
  have e: "fst (Evaluate ?p ?sg (\<lambda>_. 60 * second) (run_state [(?p, ?sg, 0), (?p, ?sg, second)] NewState)) =
      firing_decision above99 (snd (conditionMet (tr_When above99) ?sg)) 1" by code_simp
  have "sint (tr_CooldownSeconds above99) * second \<le> 60 * second - 0"
    by (rule Evaluate_cooldown_separates [OF n n refl, of ?sg 0 NewState "[(?p, ?sg, second)]" "60 * second" ?sg])
      (simp_all only: d e firing_decision_simps, simp_all add: times_def second_def)
  with e show ?thesis by simp
qed

subsection \<open>Runs: sustained evidence fires\<close>

definition presses :: "TriggerConfig \<Rightarrow> inputs \<Rightarrow> bool" where
  \<comment> \<open>every interval has samples, allows the trigger in its profile and meets its condition\<close>
  "presses t xs \<longleftrightarrow> list_all (\<lambda>(p, sg, now). SampleCount sg \<noteq> 0 \<and> holds sg t \<and>
     (tr_FromProfiles t = [] \<or> ActiveProfile (Spec p) \<in> set (tr_FromProfiles t)) \<and>
     ActiveProfile (Spec p) \<noteq> tr_SwitchTo t) xs"

lemma Evaluate_head:
  assumes "Triggers (Spec p) = t # ts" "presses t [(p, sg, now)]"
    and "map_of (LastTriggerFireTime st) (tr_Name t) = None"
  shows "chosen p sg now st = Some t \<or> looked_at p sg now st t \<and>
    sint (next_count st sg t) < sint (requiredSamples (tr_When t))"
  using assms by (auto simp: presses_def ready_def eligible_def in_cooldown_def chosen_def looked_at_def evaluated_def)

lemma Evaluate_not_fired:
  assumes "names_ok (Triggers (Spec p))" "t \<in> set (Triggers (Spec p))" "chosen p sg now st \<noteq> Some t"
  shows "map_of (LastTriggerFireTime (snd (Evaluate p sg (\<lambda>_. now) st))) (tr_Name t) =
    map_of (LastTriggerFireTime st) (tr_Name t)"
proof (cases "chosen p sg now st")
  case (Some u)
  then have "u \<in> set (Triggers (Spec p))" by (auto simp: chosen_def find_Some_iff split: if_splits)
  with assms Some have "tr_Name u \<noteq> tr_Name t" using names_ok_inj by blast
  with Evaluate_spec [OF assms(1), of sg now st] Some show ?thesis by simp
next
  case None
  with Evaluate_spec [OF assms(1), of sg now st] show ?thesis by simp
qed

lemma sustained:
  assumes "names_ok (t # ts)" "same_triggers (t # ts) xs" "presses t xs"
    and "counters_below (t # ts) st" "map_of (LastTriggerFireTime st) (tr_Name t) = None"
    and "sint (requiredSamples (tr_When t)) \<le> sint (samples st (tr_Name t)) + int (length xs)"
  shows "\<exists>ys p sg now zs. xs = ys @ (p, sg, now) # zs \<and> chosen p sg now (run_state ys st) = Some t"
  using assms(2-)
proof (induction xs arbitrary: st)
  case Nil
  then show ?case by (auto simp: counters_below_def)
next
  case (Cons x xs)
  obtain p sg now where x: "x = (p, sg, now)" by (cases x) auto
  have p: "Triggers (Spec p) = t # ts" "same_triggers (t # ts) xs" "presses t [(p, sg, now)]" "presses t xs"
    using Cons.prems by (simp_all add: same_triggers_def presses_def x)
  let ?st = "snd (Evaluate p sg (\<lambda>_. now) st)"
  show ?case
  proof (cases "chosen p sg now st = Some t")
    case True
    then show ?thesis unfolding x by (metis append_Nil run_state.simps(1))
  next
    case False
    with Evaluate_head [OF p(1,3) Cons.prems(4)] have l: "looked_at p sg now st t" by blast
    have "holds sg t" using p(3) by (simp add: presses_def)
    then have "sint (samples ?st (tr_Name t)) = sint (samples st (tr_Name t)) + 1"
      using Evaluate_samples [of p t sg now st] next_count_exact [OF Cons.prems(3), of t sg] l False assms(1)
      by (simp add: p)
    moreover have "counters_below (t # ts) ?st"
      using Evaluate_counters_kept [of p st sg "\<lambda>_. now"] assms(1) Cons.prems(3) by (simp add: p)
    moreover have "map_of (LastTriggerFireTime ?st) (tr_Name t) = None"
      using Evaluate_not_fired [of p t sg now st] False assms(1) Cons.prems(4) by (simp add: p)
    ultimately obtain ys p' sg' now' zs where "xs = ys @ (p', sg', now') # zs"
      "chosen p' sg' now' (run_state ys ?st) = Some t"
      using Cons.IH [OF p(2,4), of ?st] Cons.prems(5) by auto
    then show ?thesis unfolding x by (metis append_Cons run_state.simps(2))
  qed
qed

text \<open>Liveness. If the first trigger of the list has not fired yet and its condition is met on as many
  successive intervals with samples as it still needs, in profiles it applies to, then one of those
  evaluations switches to its target: sustained evidence is never lost, whatever the other triggers do.\<close>

theorem Evaluate_sustained_evidence_fires:
  assumes "names_ok (t # ts)" "same_triggers (t # ts) xs" "presses t xs"
    and "counters_below (t # ts) st" "map_of (LastTriggerFireTime st) (tr_Name t) = None"
    and "sint (requiredSamples (tr_When t)) \<le> sint (samples st (tr_Name t)) + int (length xs)"
  shows "\<exists>ys p sg now zs. xs = ys @ (p, sg, now) # zs \<and>
    ShouldSwitch (fst (Evaluate p sg (\<lambda>_. now) (run_state ys st))) \<and>
    TargetProfile (fst (Evaluate p sg (\<lambda>_. now) (run_state ys st))) = tr_SwitchTo t"
proof -
  from sustained [OF assms] obtain ys p sg now zs where
    s: "xs = ys @ (p, sg, now) # zs" "chosen p sg now (run_state ys st) = Some t" by blast
  then have "Triggers (Spec p) = t # ts" using assms(2) by (simp add: same_triggers_def)
  with Evaluate_spec [of p sg now "run_state ys st"] s assms(1)
  have "ShouldSwitch (fst (Evaluate p sg (\<lambda>_. now) (run_state ys st))) \<and>
    TargetProfile (fst (Evaluate p sg (\<lambda>_. now) (run_state ys st))) = tr_SwitchTo t" by simp
  with s(1) show ?thesis by blast
qed

theorem Evaluate_sustained_evidence_fires_witness:
  "\<exists>ys p sg now zs.
     [(sample_policy ''open'', sample_signals 90, 0), (sample_policy ''open'', sample_signals 94, 5)] =
       ys @ (p, sg, now) # zs \<and>
     TargetProfile (fst (Evaluate p sg (\<lambda>_. now) (run_state ys NewState))) = ''strict''"
proof -
  let ?xs = "[(sample_policy ''open'', sample_signals 90, 0 :: gotime), (sample_policy ''open'', sample_signals 94, 5)]"
  have "holds (sample_signals 90) below95" "holds (sample_signals 94) below95" by code_simp+
  then have p: "presses below95 ?xs"
    by (simp add: presses_def) (simp add: sample_defs)
  have "sint (requiredSamples (tr_When below95)) = 2" by code_simp
  then have l: "sint (requiredSamples (tr_When below95)) \<le> sint (samples NewState (tr_Name below95)) + int (length ?xs)"
    by (simp add: samples_def NewState_def)
  have "names_ok [below95, above99]" "same_triggers [below95, above99] ?xs"
    "counters_below [below95, above99] NewState"
    "map_of (LastTriggerFireTime NewState) (tr_Name below95) = None"
    by (simp_all add: names_ok_def same_triggers_def counters_below_def required_pos samples_def NewState_def)
      (simp_all add: sample_defs)
  note * = Evaluate_sustained_evidence_fires [OF this(1,2) p this(3,4) l]
  have "tr_SwitchTo below95 = ''strict''" by (simp add: below95_def)
  with * show ?thesis by metis
qed

end
