(* ===== verification/Signal_Scraper.thy ===== *)
theory Signal_Scraper
  imports Trigger_Eval
begin

section \<open>The Envoy stats scraper (internal/signal/scraper.go)\<close>

text \<open>
  \<open>ReadSignals\<close> lists the pods of a policy, scrapes each running one, and turns the counter
  increments since the previous scrape into fleet-wide signals. Its environment is a parameter:
  the pod list, the answer of the \<open>i\<close>-th HTTP request, the \<open>n\<close>-th reading of the clock, the order in
  which Go ranges over the per-class map, and the conversion of an out-of-range float to
  \<open>int64\<close>. The scraper's mutex makes a call one step on the \<open>previous\<close> map.
\<close>

subsection \<open>Constants and state\<close>

definition envoyStatsPort :: int where "envoyStatsPort = 15090"
definition statsPath :: string where "statsPath = ''/stats/prometheus''"
definition maxStatsBodyBytes :: int where "maxStatsBodyBytes = 4 * 1024 * 1024"
definition metricAdmissionRqShed :: string where
  "metricAdmissionRqShed = ''envoy_http_admission_control_requests_ejected''"

record counterSnapshot =
  rqTotal :: float64
  rq2xx :: float64
  rq3xx :: float64
  rq4xx :: float64
  rq5xx :: float64
  shedTotal :: float64
  scrapedAt :: gotime

type_synonym Scraper = "(string, counterSnapshot) gomap"
  \<comment> \<open>the \<open>previous\<close> map, the scraper's only mutable state\<close>

definition NewScraper :: Scraper where "NewScraper = []"

text \<open>\<open>corev1.Pod\<close>, a Kubernetes API struct; only the fields the program reads.\<close>

record Pod =
  pod_Name :: string
  pod_Phase :: string
  pod_IP :: string

datatype http_outcome =
    BuildErr string            \<comment> \<open>\<open>NewRequestWithContext\<close> fails\<close>
  | DoErr string               \<comment> \<open>\<open>httpClient.Do\<close> fails\<close>
  | Response int string "string option"
      \<comment> \<open>status, the bytes of the body, and the error (if any) the body ends in\<close>

datatype scrape_error =
    BuildingRequest string
  | Scraping string string
  | UnexpectedStatus int string
  | ReadingResponse string

datatype read_error =
    PodDiscovery string
  | NoRunningPods "(string, string) gomap" string

subsection \<open>Parsing a Prometheus line\<close>

definition extractLabel :: "string \<Rightarrow> string \<Rightarrow> string" where
  "extractLabel line key =
     (let search = key @ ''=\"'' in
      case str_index line search of
        None \<Rightarrow> []
      | Some idx \<Rightarrow> let start = idx + length search in
          (case str_index (drop start line) ''\"'' of
             None \<Rightarrow> []
           | Some n \<Rightarrow> take n (drop start line)))"

definition httpClass :: "string \<Rightarrow> int" where
  "httpClass code =
     (if length code = 0 then 0
      else if hd code = CHR ''2'' then 2
      else if hd code = CHR ''3'' then 3
      else if hd code = CHR ''4'' then 4
      else if hd code = CHR ''5'' then 5
      else 0)"

definition prom_split :: "string \<Rightarrow> nat option" where
  \<comment> \<open>\<open>splitIdx\<close>; \<open>None\<close> where the source gives up\<close>
  "prom_split line = (case str_index line ''{'' of
     Some braceIdx \<Rightarrow> (case str_last_index line ''}'' of
         None \<Rightarrow> None
       | Some closeIdx \<Rightarrow> if closeIdx < braceIdx then None else Some (closeIdx + 1))
   | None \<Rightarrow> str_index line '' '')"

definition parsePromLine :: "string \<Rightarrow> (string \<times> float64) option" where
  "parsePromLine line = (case prom_split line of
     None \<Rightarrow> None
   | Some splitIdx \<Rightarrow>
       if length line \<le> splitIdx then None
       else let rest = trim_space (drop splitIdx line);
                valueStr = (case str_index rest '' '' of None \<Rightarrow> rest | Some i \<Rightarrow> take i rest);
                name = take splitIdx line;
                name' = (case str_index name ''{'' of None \<Rightarrow> name | Some i \<Rightarrow> take i name)
            in (case parse_float valueStr of
                  Parsed v \<Rightarrow> if v = FNaN \<or> v = FInf True \<or> v = FInf False then None
                              else Some (trim_space name', v)
                | _ \<Rightarrow> None))"

subsection \<open>parseMetrics\<close>

definition empty_snapshot :: "gotime \<Rightarrow> counterSnapshot" where
  "empty_snapshot t = \<lparr>rqTotal = fzero, rq2xx = fzero, rq3xx = fzero, rq4xx = fzero, rq5xx = fzero,
     shedTotal = fzero, scrapedAt = t\<rparr>"

definition add_class :: "int \<Rightarrow> float64 \<Rightarrow> counterSnapshot \<Rightarrow> counterSnapshot" where
  "add_class class value snap =
     (if class = 2 then snap\<lparr>rq2xx := fadd (rq2xx snap) value, rqTotal := fadd (rqTotal snap) value\<rparr>
      else if class = 3 then snap\<lparr>rq3xx := fadd (rq3xx snap) value, rqTotal := fadd (rqTotal snap) value\<rparr>
      else if class = 4 then snap\<lparr>rq4xx := fadd (rq4xx snap) value, rqTotal := fadd (rqTotal snap) value\<rparr>
      else if class = 5 then snap\<lparr>rq5xx := fadd (rq5xx snap) value, rqTotal := fadd (rqTotal snap) value\<rparr>
      else snap)"

definition parse_line :: "string \<Rightarrow> counterSnapshot \<Rightarrow> counterSnapshot" where
  "parse_line line snap =
     (if has_prefix line ''#'' \<or> trim_space line = [] then snap
      else if has_prefix line metricAdmissionRqShed
      then (case parsePromLine line of
              Some (_, value) \<Rightarrow> snap\<lparr>shedTotal := fadd (shedTotal snap) value\<rparr>
            | None \<Rightarrow> snap)
      else if \<not> has_prefix line ''istio_requests_total{'' then snap
      else (case parsePromLine line of
              None \<Rightarrow> snap
            | Some (_, value) \<Rightarrow>
                add_class (httpClass (extractLabel line ''response_code'')) value snap))"

definition parseMetrics :: "string \<Rightarrow> gotime \<Rightarrow> counterSnapshot" where
  "parseMetrics body now = fold parse_line (str_split newline body) (empty_snapshot now)"

subsection \<open>Scraping one pod\<close>

definition stats_url :: "string \<Rightarrow> string" where
  "stats_url podIP = ''http://'' @ podIP @ '':'' @ fmt_d envoyStatsPort @ statsPath"

definition read_limited :: "string \<Rightarrow> string option \<Rightarrow> string + string" where
  \<comment> \<open>\<open>io.ReadAll(io.LimitReader(body, maxStatsBodyBytes))\<close>\<close>
  "read_limited body err =
     (if int (length body) < maxStatsBodyBytes
      then (case err of Some e \<Rightarrow> Inl e | None \<Rightarrow> Inr body)
      else Inr (take (nat maxStatsBodyBytes) body))"

definition scrapePod :: "string \<Rightarrow> http_outcome \<Rightarrow> gotime \<Rightarrow> scrape_error + counterSnapshot" where
  "scrapePod podIP outcome now =
     (let url = stats_url podIP in
      case outcome of
        BuildErr e \<Rightarrow> Inl (BuildingRequest e)
      | DoErr e \<Rightarrow> Inl (Scraping url e)
      | Response status body err \<Rightarrow>
          if status \<noteq> 200 then Inl (UnexpectedStatus status url)
          else (case read_limited body err of
                  Inl e \<Rightarrow> Inl (ReadingResponse e)
                | Inr b \<Rightarrow> Inr (parseMetrics b now)))"

subsection \<open>Deltas\<close>

definition nonNegDelta :: "float64 \<Rightarrow> float64 \<Rightarrow> float64" where
  "nonNegDelta current prev = (let d = fsub current prev in if flt fzero d then d else fzero)"

definition statusClassInSuccessRanges :: "int \<Rightarrow> HTTPStatusRange list \<Rightarrow> bool" where
  "statusClassInSuccessRanges statusClass ranges =
     (let representative = word_of_int (statusClass * 100) :: int32 in
      list_ex (\<lambda>r. sint (sr_Start r) \<le> sint representative \<and> sint representative \<le> sint (sr_End r)) ranges)"

definition default_ranges :: "HTTPStatusRange list" where
  "default_ranges = [\<lparr>sr_Start = 100, sr_End = 399\<rparr>]"

definition success_ranges :: "AdaptivePolicy \<Rightarrow> HTTPStatusRange list" where
  "success_ranges policy = (case AdmissionControl (Spec policy) of
     Some c \<Rightarrow> if 0 < length (ac_SuccessCodes c) then ac_SuccessCodes c else default_ranges
   | None \<Rightarrow> default_ranges)"

definition class_deltas :: "counterSnapshot \<Rightarrow> counterSnapshot \<Rightarrow> (int \<times> float64) list" where
  "class_deltas current prev =
     [(2, nonNegDelta (rq2xx current) (rq2xx prev)),
      (3, nonNegDelta (rq3xx current) (rq3xx prev)),
      (4, nonNegDelta (rq4xx current) (rq4xx prev)),
      (5, nonNegDelta (rq5xx current) (rq5xx prev))]"

definition pod_success_delta :: "((int \<times> float64) list \<Rightarrow> (int \<times> float64) list) \<Rightarrow>
    HTTPStatusRange list \<Rightarrow> counterSnapshot \<Rightarrow> counterSnapshot \<Rightarrow> float64" where
  "pod_success_delta ord ranges current prev =
     fold (\<lambda>(class, delta) acc.
         if statusClassInSuccessRanges class ranges then fadd acc delta else acc)
       (ord (class_deltas current prev)) fzero"

definition safeDefaults :: "gotime \<Rightarrow> Signals" where
  "safeDefaults now = \<lparr>SuccessRate = flit 99 100, ServiceLatencyMs = fzero, TotalLatencyMs = fzero,
     RPS = fzero, SampleCount = 0, CollectedAt = now, ShedRejectedRPS = fzero\<rparr>"

subsection \<open>The pod loop\<close>

record scrape_env =
  list_pods :: "string \<Rightarrow> (string, string) gomap \<Rightarrow> string + Pod list"
    \<comment> \<open>the API server's answer to the list call for a namespace and a label selector\<close>
  http_get :: "nat \<Rightarrow> string \<Rightarrow> http_outcome"  \<comment> \<open>what the \<open>i\<close>-th request meets\<close>
  clock :: "nat \<Rightarrow> gotime"                     \<comment> \<open>the \<open>n\<close>-th reading of \<open>time.Now\<close>\<close>
  class_order :: "(int \<times> float64) list \<Rightarrow> (int \<times> float64) list"
  int64_of :: "float64 \<Rightarrow> int"                 \<comment> \<open>out-of-range conversions\<close>

record scan =
  previous :: Scraper
  totalRqDelta :: float64
  successDelta :: float64
  shedDelta :: float64
  scrapedPods :: int
  requests :: nat  \<comment> \<open>HTTP requests made so far\<close>
  readings :: nat  \<comment> \<open>clock readings made so far\<close>

definition reads_clock :: "http_outcome \<Rightarrow> bool" where
  \<comment> \<open>\<open>parseMetrics\<close> is reached, so \<open>time.Now\<close> is read\<close>
  "reads_clock outcome = (case outcome of
     Response status body err \<Rightarrow> status = 200 \<and> (case read_limited body err of Inl _ \<Rightarrow> False | Inr _ \<Rightarrow> True)
   | _ \<Rightarrow> False)"

definition pod_running :: "Pod \<Rightarrow> bool" where
  "pod_running pod \<longleftrightarrow> pod_Phase pod = ''Running'' \<and> pod_IP pod \<noteq> []"

definition scan_pod :: "scrape_env \<Rightarrow> HTTPStatusRange list \<Rightarrow> Pod \<Rightarrow> scan \<Rightarrow> scan" where
  "scan_pod env ranges pod s =
     (if \<not> pod_running pod then s
      else let outcome = http_get env (requests s) (stats_url (pod_IP pod));
               s1 = s\<lparr>requests := requests s + 1,
                      readings := readings s + (if reads_clock outcome then 1 else 0)\<rparr>
           in case scrapePod (pod_IP pod) outcome (clock env (readings s)) of
                Inl _ \<Rightarrow> s1
              | Inr current \<Rightarrow>
                  (let s2 = s1\<lparr>previous := AList.update (pod_Name pod) current (previous s1)\<rparr> in
                   case map_of (previous s) (pod_Name pod) of
                     None \<Rightarrow> s2
                   | Some prev \<Rightarrow>
                       let intervalSeconds = duration_seconds (time_sub (scrapedAt current) (scrapedAt prev));
                           rqDelta = fsub (rqTotal current) (rqTotal prev)
                       in if flt intervalSeconds (flit 1 10) then s2
                          else if flt rqDelta fzero then s2
                          else s2\<lparr>totalRqDelta := fadd (totalRqDelta s2) rqDelta,
                                  successDelta := fadd (successDelta s2)
                                    (pod_success_delta (class_order env) ranges current prev),
                                  shedDelta := fadd (shedDelta s2)
                                    (nonNegDelta (shedTotal current) (shedTotal prev)),
                                  scrapedPods := scrapedPods s2 + 1\<rparr>))"

definition start_scan :: "Scraper \<Rightarrow> scan" where
  "start_scan prev = \<lparr>previous = prev, totalRqDelta = fzero, successDelta = fzero, shedDelta = fzero,
     scrapedPods = 0, requests = 0, readings = 1\<rparr>"

definition scan_pods :: "scrape_env \<Rightarrow> HTTPStatusRange list \<Rightarrow> Pod list \<Rightarrow> scan \<Rightarrow> scan" where
  "scan_pods env ranges pods s = fold (scan_pod env ranges) pods s"

definition prune_pods :: "Pod list \<Rightarrow> Scraper \<Rightarrow> Scraper" where
  "prune_pods pods prev = filter (\<lambda>(n, _). n \<in> pod_Name ` set pods) prev"

fun oldest_from :: "Scraper \<Rightarrow> Pod list \<Rightarrow> gotime \<Rightarrow> gotime" where
  "oldest_from prev [] oldest = oldest"
| "oldest_from prev (pod # pods) oldest =
     oldest_from prev pods (case map_of prev (pod_Name pod) of
        Some snap \<Rightarrow> if scrapedAt snap < oldest then scrapedAt snap else oldest
      | None \<Rightarrow> oldest)"

definition oldestPreviousTimestamp :: "Scraper \<Rightarrow> Pod list \<Rightarrow> gotime \<Rightarrow> gotime" where
  "oldestPreviousTimestamp prev pods limit = oldest_from prev pods limit"

subsection \<open>ReadSignals\<close>

definition discoverPods :: "scrape_env \<Rightarrow> AdaptivePolicy \<Rightarrow> string + Pod list" where
  "discoverPods env policy = list_pods env (Namespace policy) (Selector (Spec policy))"

definition interval_duration :: "gotime \<Rightarrow> gotime \<Rightarrow> duration" where
  "interval_duration now oldest =
     (let d = time_sub now oldest in if d < second then 30 * second else d)"

definition scan_signals :: "scrape_env \<Rightarrow> gotime \<Rightarrow> Pod list \<Rightarrow> scan \<Rightarrow> Signals" where
  \<comment> \<open>the end of \<open>ReadSignals\<close>, after the stale entries are pruned\<close>
  "scan_signals env now pods s =
     (if scrapedPods s = 0 \<or> flt (totalRqDelta s) (fof_int 1) then safeDefaults (clock env (readings s))
      else let intervalDuration = interval_duration now (oldestPreviousTimestamp (previous s) pods now);
               rate = fdiv (successDelta s) (totalRqDelta s);
               successRate = (if flt (fof_int 1) rate then fof_int 1 else rate);
               intervalSec = duration_seconds intervalDuration
           in \<lparr>SuccessRate = successRate, ServiceLatencyMs = fzero, TotalLatencyMs = fzero,
               RPS = fdiv (totalRqDelta s) intervalSec,
               SampleCount = fto_int64 (int64_of env) (totalRqDelta s),
               CollectedAt = now, ShedRejectedRPS = fdiv (shedDelta s) intervalSec\<rparr>)"

definition ReadSignals :: "scrape_env \<Rightarrow> AdaptivePolicy \<Rightarrow> Scraper \<Rightarrow>
    Signals \<times> read_error option \<times> Scraper" where
  "ReadSignals env policy prev = (case discoverPods env policy of
     Inl e \<Rightarrow> (safeDefaults (clock env 0), Some (PodDiscovery e), prev)
   | Inr pods \<Rightarrow>
       if length pods = 0
       then (safeDefaults (clock env 0),
             Some (NoRunningPods (Selector (Spec policy)) (Namespace policy)), prev)
       else let now = clock env 0;
                s = scan_pods env (success_ranges policy) pods (start_scan prev);
                s' = s\<lparr>previous := prune_pods pods (previous s)\<rparr>
            in (scan_signals env now pods s', None, previous s'))"

end
