(* ===== verification/Go_Parse_Facts.thy ===== *)
theory Go_Parse_Facts
  imports Go_Fmt Go_Float_Facts
begin

section \<open>Reading decimal numbers\<close>

text \<open>
  On a plain decimal (digits, then optionally a point and digits), \<open>strconv.ParseFloat\<close> and
  \<open>fmt.Sscanf("%f")\<close> both return the correctly rounded value; and \<open>ParseFloat\<close> reads back what
  \<open>%d\<close> prints.
\<close>

definition dec_value :: "string \<Rightarrow> int" where
  \<comment> \<open>the value of a string of decimal digits\<close>
  "dec_value ds = foldl (\<lambda>a c. a * 10 + the (dec_digit c)) 0 ds"

definition dec_string :: "string \<Rightarrow> string \<Rightarrow> string" where
  "dec_string a b = (if b = [] then a else a @ ''.'' @ b)"

definition digits :: "string \<Rightarrow> bool" where
  "digits s \<longleftrightarrow> list_all is_dec s"

lemma is_dec_code: "is_dec c \<longleftrightarrow> 48 \<le> char_code c \<and> char_code c \<le> 57"
  by (simp add: is_dec_def dec_digit_def)

lemma is_dec_neq:
  assumes "is_dec c"
  shows "c \<noteq> CHR ''_''" "c \<noteq> CHR ''.''" "c \<noteq> CHR ''+''" "c \<noteq> CHR ''-''" "c \<noteq> newline"
    "c \<noteq> CHR '' ''" "c \<noteq> CHR ''p''"
  using assms by (auto simp: is_dec_code char_code_def newline_def)

lemma is_dec_not_letter:
  assumes "is_dec c" "l \<in> set ''infatyex''"
  shows "\<not> eq_fold c l"
  using assms by (auto simp: is_dec_code char_code_def eq_fold_def)

lemma dec_value_append: "dec_value (a @ [c]) = dec_value a * 10 + the (dec_digit c)"
  by (simp add: dec_value_def)

lemma foldl_dec: "foldl (\<lambda>a c. a * 10 + the (dec_digit c)) n ds = n * 10 ^ length ds + dec_value ds"
proof (induction ds rule: rev_induct)
  case (snoc c ds)
  then show ?case by (simp add: dec_value_append algebra_simps)
qed (simp add: dec_value_def)

lemma dec_value_nonneg: "digits ds \<Longrightarrow> 0 \<le> dec_value ds"
proof (induction ds rule: rev_induct)
  case (snoc c ds)
  then show ?case
    by (auto simp: dec_value_append digits_def is_dec_def dec_digit_def split: if_splits)
qed (simp add: dec_value_def)

lemma scan_digits:
  "digits ds \<Longrightarrow> scan_mantissa False (ds @ r) m = scan_mantissa False r
    (m\<lparr>m_digits := foldl (\<lambda>a c. a * 10 + the (dec_digit c)) (m_digits m) ds,
       m_frac := m_frac m + (if m_dot m then int (length ds) else 0),
       m_seen := m_seen m \<or> ds \<noteq> []\<rparr>)"
proof (induction ds arbitrary: m)
  case (Cons c ds)
  then have c: "is_dec c" "digits ds" by (simp_all add: digits_def)
  then obtain d where "dec_digit c = Some d" by (auto simp: is_dec_def)
  with Cons.IH [OF c(2)] is_dec_neq [OF c(1)] show ?case
    by (simp add: digit_of_def algebra_simps)
qed simp

lemma special_digits:
  assumes "digits (c # ds)"
  shows "special_float ((c # ds) @ r) = None"
proof -
  have c: "is_dec c" using assms by (simp add: digits_def)
  show ?thesis using is_dec_neq [OF c] is_dec_not_letter [OF c]
    by (simp add: special_float_def Let_def)
qed

lemma hex_prefix_digits:
  assumes "digits a" "digits b" "a \<noteq> []"
  shows "\<not> (2 < length (dec_string a b) \<and> dec_string a b ! 0 = CHR ''0'' \<and> eq_fold (dec_string a b ! 1) (CHR ''x''))"
proof -
  have "\<not> eq_fold (dec_string a b ! 1) (CHR ''x'')" if l: "2 < length (dec_string a b)"
  proof -
    have "dec_string a b ! 1 \<in> set (dec_string a b)" using l by (intro nth_mem) simp
    then have "is_dec (dec_string a b ! 1) \<or> dec_string a b ! 1 = CHR ''.''"
      using assms by (auto simp: dec_string_def digits_def list_all_iff split: if_splits)
    then show ?thesis
    proof
      assume "is_dec (dec_string a b ! 1)"
      then show ?thesis by (rule is_dec_not_letter) simp
    next
      assume *: "dec_string a b ! 1 = CHR ''.''"
      show ?thesis by (simp only: *) (simp add: eq_fold_def char_code_def)
    qed
  qed
  then show ?thesis by blast
qed

definition dec_real_float :: "string \<Rightarrow> string \<Rightarrow> float64" where
  \<comment> \<open>the decimal \<open>a.b\<close>, correctly rounded\<close>
  "dec_real_float a b = fround False (dec_value (a @ b)) (10 ^ length b)"

lemma read_float_dec:
  assumes "digits a" "a \<noteq> []" "digits b"
  shows "read_float (dec_string a b) = Some \<lparr>rf_neg = False, rf_hex = False,
    rf_mant = \<lparr>m_digits = dec_value (a @ b), m_frac = int (length b), m_dot = (b \<noteq> []), m_seen = True,
      m_under = False\<rparr>, rf_exp = 0, rf_rest = []\<rparr>"
proof -
  obtain c a' where a: "a = c # a'" using assms(2) by (cases a) auto
  have c: "is_dec c" using assms(1) by (simp add: a digits_def)
  have ds: "drop_sign (dec_string a b) = dec_string a b" "hd (dec_string a b) \<noteq> CHR ''-''" "dec_string a b \<noteq> []"
    using is_dec_neq [OF c] by (simp_all add: a drop_sign_def dec_string_def)
  have "scan_mantissa False (dec_string a b)
        \<lparr>m_digits = 0, m_frac = 0, m_dot = False, m_seen = False, m_under = False\<rparr> =
      (\<lparr>m_digits = dec_value (a @ b), m_frac = int (length b), m_dot = (b \<noteq> []), m_seen = True,
        m_under = False\<rparr>, [])"
  proof (cases "b = []")
    case True
    then show ?thesis using scan_digits [OF assms(1), of "[]"] assms(2)
      by (simp add: dec_string_def dec_value_def)
  next
    case False
    then show ?thesis using scan_digits [OF assms(1)] scan_digits [OF assms(3), of "[]"] assms(2)
      by (simp add: dec_string_def dec_value_def)
  qed
  moreover have "(2 < length (dec_string a b) \<and> dec_string a b ! 0 = CHR ''0'' \<and>
      eq_fold (dec_string a b ! 1) (CHR ''x'')) = False"
    using hex_prefix_digits [OF assms(1,3,2)] by simp
  ultimately show ?thesis using ds
    by (simp only: read_float_def Let_def if_False simp_thms prod.case) simp
qed

lemma parse_float_dec:
  assumes "digits a" "a \<noteq> []" "digits b" "is_fin (dec_real_float a b)"
  shows "parse_float (dec_string a b) = Parsed (dec_real_float a b)"
proof -
  obtain c a' where a: "a = c # a'" using assms(2) by (cases a) auto
  have sp: "special_float (dec_string a b) = None"
  proof (cases "b = []")
    case True then show ?thesis using special_digits [of c a' "[]"] assms(1) a by (simp add: dec_string_def)
  next
    case False then show ?thesis using special_digits [of c a' "''.'' @ b"] assms(1) a by (simp add: dec_string_def)
  qed
  let ?rf = "\<lparr>rf_neg = False, rf_hex = False,
    rf_mant = \<lparr>m_digits = dec_value (a @ b), m_frac = int (length b), m_dot = (b \<noteq> []), m_seen = True,
      m_under = False\<rparr>, rf_exp = 0, rf_rest = []\<rparr>"
  have "rf_value ?rf = dec_real_float a b"
    by (auto simp: rf_value_def dec_real_float_def fround_def Let_def)
  then show ?thesis using assms(4) sp read_float_dec [OF assms(1-3)]
    by (simp add: parse_float_def Let_def)
qed

subsection \<open>\<open>Sscanf\<close> agrees\<close>

lemma accept_no: "c \<notin> set cs \<Longrightarrow> accept cs (buf, c # r) = (False, buf, c # r)"
  by simp

lemma char_code_inj: "char_code c = char_code d \<Longrightarrow> c = d"
  by (simp add: char_code_def)

lemma dec_in: "is_dec c \<Longrightarrow> c \<in> set ''0123456789_''"
proof -
  assume "is_dec c"
  then have "48 \<le> char_code c" "char_code c \<le> 57" by (simp_all add: is_dec_code)
  then have "char_code c \<in> set [48, 49, 50, 51, 52, 53, 54, 55, 56, 57]" by simp presburger
  moreover have "set [48, 49, 50, 51, 52, 53, 54, 55, 56, 57] = char_code ` set ''0123456789''"
    by (simp add: char_code_def)
  ultimately have "char_code c \<in> char_code ` set ''0123456789''" by (rule subst [rotated])
  then obtain d where "d \<in> set ''0123456789''" "char_code c = char_code d" by (rule imageE)
  then show ?thesis using char_code_inj [of c d] by auto
qed

lemma accept_many_digits:
  "digits ds \<Longrightarrow> r = [] \<or> hd r \<notin> set ''0123456789_'' \<Longrightarrow>
    accept_many ''0123456789_'' (buf, ds @ r) = (buf @ ds, r)"
proof (induction ds arbitrary: buf)
  case Nil then show ?case by (cases r) (simp_all add: accept_many_def)
next
  case (Cons c ds)
  then have "is_dec c" "digits ds" by (simp_all add: digits_def)
  with Cons.IH [of buf] Cons.prems(2) dec_in [of c] show ?case
    by (auto simp: accept_many_def)
qed

lemma dec_not_in:
  assumes "is_dec c" "list_all (\<lambda>d. \<not> is_dec d) cs"
  shows "c \<notin> set cs"
  using assms by (auto simp: list_all_iff)

lemma float_token_dec:
  assumes "digits a" "a \<noteq> []" "digits b"
  shows "float_token (dec_string a b) = dec_string a b"
proof -
  obtain c a' where a: "a = c # a'" using assms(2) by (cases a) auto
  have c: "is_dec c" "digits a'" using assms(1) by (simp_all add: a digits_def)
  have no: "c \<notin> set ''nN''" "c \<notin> set ''+-''" "c \<notin> set ''iI''"
    by (rule dec_not_in [OF c(1)]; simp add: is_dec_code char_code_def)+
  define r where "r = (if b = [] then [] else ''.'' @ b)"
  have d: "dec_string a b = c # a' @ r" by (simp add: dec_string_def r_def a)
  have rest: "r = [] \<or> hd r \<notin> set ''0123456789_''" by (simp add: r_def)
  have tail: "(let (dot, st7) = accept ''.'' (buf, r);
                   st8 = (if dot then accept_many ''0123456789_'' st7 else st7);
                   (ex, st9) = accept ''eEpP'' st8
               in if ex then fst (accept_many ''0123456789_'' (snd (accept ''+-'' st9))) else fst st9) = buf @ r"
    for buf
    using accept_many_digits [OF assms(3), of "[]" "buf @ ''.''"]
    by (simp add: r_def)
  have x: "accept ''xX'' (buf, a' @ r) = (False, buf, a' @ r)" for buf
  proof (cases "a' @ r")
    case (Cons y ys)
    then have "is_dec y \<or> y = CHR ''.''"
      using c(2) assms(3) by (cases a') (auto simp: r_def digits_def split: if_splits)
    then have "y \<notin> set ''xX''"
      using dec_not_in [of y "''xX''"] by (auto simp: is_dec_code char_code_def)
    then show ?thesis by (simp add: Cons)
  qed simp
  show ?thesis
  proof (cases "c = CHR ''0''")
    case True
    have "accept_many ''0123456789_'' ([c], a' @ r) = (c # a', r)"
      using accept_many_digits [OF c(2) rest, of "[c]"] by simp
    with True x [of "[c]"] tail [of "c # a'"] no show ?thesis
      by (simp add: float_token_def accept3_def d)
  next
    case False
    have "accept_many ''0123456789_'' ([], c # a' @ r) = (c # a', r)"
      using accept_many_digits [OF assms(1) rest, of "[]"] by (simp add: a)
    with False tail [of "c # a'"] no show ?thesis
      by (simp add: float_token_def accept3_def d)
  qed
qed

lemma go_spaces_not_dec: "list_all (\<lambda>sp. sp \<noteq> [] \<and> \<not> is_dec (hd sp)) go_spaces"
  by code_simp

lemma dec_not_space: "is_dec c \<Longrightarrow> leading_space (c # s) = None"
proof -
  assume c: "is_dec c"
  have "\<not> has_prefix (c # s) sp" if "sp \<in> set go_spaces" for sp
  proof
    assume "has_prefix (c # s) sp"
    moreover have "sp \<noteq> []" "\<not> is_dec (hd sp)" using go_spaces_not_dec that by (auto simp: list_all_iff)
    ultimately show False using c by (cases sp) (auto simp: has_prefix_def)
  qed
  then show ?thesis by (auto simp: leading_space_def find_None_iff)
qed

lemma sscanf_f_dec:
  assumes "digits a" "a \<noteq> []" "digits b" "is_fin (dec_real_float a b)"
  shows "sscanf_f (dec_string a b) = Some (dec_real_float a b)"
proof -
  have "\<exists>c r. dec_string a b = c # r \<and> is_dec c"
    using assms(1,2) by (cases a) (simp_all add: dec_string_def digits_def)
  then obtain c r where d: "dec_string a b = c # r" and c: "is_dec c" by blast
  have "skip_space (c # r) = Some (c # r)"
    using dec_not_space [OF c] is_dec_neq [OF c] by (subst skip_space.simps) simp
  moreover have "CHR ''p'' \<notin> set (dec_string a b)"
    using assms(1,3) is_dec_neq(7) by (auto simp: dec_string_def digits_def list_all_iff split: if_splits)
  ultimately show ?thesis
    using float_token_dec [OF assms(1-3)] parse_float_dec [OF assms]
    by (simp add: sscanf_f_def convert_float_def d)
qed

subsection \<open>Reading back what \<open>%d\<close> prints\<close>

lemma char_code_nat: "char_code c = int (of_char c)"
  by (simp only: char_code_def of_nat_of_char)

lemma digit_char_dec: "0 \<le> d \<Longrightarrow> d < 10 \<Longrightarrow> dec_digit (digit_char d) = Some d"
proof -
  assume "0 \<le> d" "d < 10"
  then have "char_code (digit_char d) = 48 + d"
    by (simp add: char_code_nat digit_char_def)
  with \<open>0 \<le> d\<close> \<open>d < 10\<close> show ?thesis by (simp add: dec_digit_def)
qed

lemma digits_of_dec:
  assumes "0 \<le> n"
  shows "digits (digits_of n) \<and> digits_of n \<noteq> [] \<and> dec_value (digits_of n) = n"
  using assms
proof (induction n rule: digits_of.induct)
  case (1 n)
  show ?case
  proof (cases "n < 10")
    case True
    with 1 digit_char_dec [of n] show ?thesis
      by (subst (1 2 3) digits_of.simps) (simp add: digits_def is_dec_def dec_value_def)
  next
    case False
    then have "digits (digits_of (n div 10)) \<and> dec_value (digits_of (n div 10)) = n div 10"
      using 1 by simp
    with False digit_char_dec [of "n mod 10"] show ?thesis
      by (subst (1 2 3) digits_of.simps) (simp add: digits_def is_dec_def dec_value_append)
  qed
qed

lemma parse_float_fmt_d:
  assumes "0 \<le> n" "n \<le> 2 ^ 53"
  shows "parse_float (fmt_d n) = Parsed (fof_int n)"
proof -
  have f: "dec_real_float (digits_of n) [] = fof_int n"
    using digits_of_dec [OF assms(1)] assms(1) by (simp add: dec_real_float_def fof_int_def flit_def)
  have "is_fin (fof_int n)" using fint_of_int [of n] assms by (simp add: fint_def)
  with parse_float_dec [of "digits_of n" "[]"] digits_of_dec [OF assms(1)] f assms(1)
  show ?thesis by (simp add: fmt_d_def dec_string_def digits_def)
qed

end
