(* ===== verification/Scraper_Facts.thy ===== *)
theory Scraper_Facts
  imports Signal_Scraper Go_Parse_Facts
begin

section \<open>What the scraper computes\<close>

text \<open>
  First the text level: a rendered exposition line parses to its name and value. Then snapshots
  whose counters are exact integers (\<open>snap_counts\<close>), on which every float operation of the
  scraper is exact until the final divisions.
\<close>

subsection \<open>Searching and trimming\<close>

lemma has_prefix_single [simp]: "has_prefix (c # s) [d] \<longleftrightarrow> c = d"
  by (simp add: has_prefix_def)

lemma has_prefix_append: "has_prefix (p @ s) p"
  by (simp add: has_prefix_def)

lemma str_index_char: "c \<notin> set a \<Longrightarrow> str_index (a @ c # b) [c] = Some (length a)"
  by (induction a) auto

lemma str_index_char_None: "c \<notin> set a \<Longrightarrow> str_index a [c] = None"
  by (induction a) auto

lemma str_last_index_None: "c \<notin> set b \<Longrightarrow> str_last_index b [c] = None"
  by (induction b) auto

lemma str_last_index_char: "c \<notin> set b \<Longrightarrow> str_last_index (a @ c # b) [c] = Some (length a)"
proof (induction a)
  case Nil then show ?case by (simp add: str_last_index_None)
qed simp

lemma str_split_line: "sep \<notin> set a \<Longrightarrow> str_split sep (a @ sep # b) = a # str_split sep b"
by (induction a) auto

lemma has_prefix_iff: "has_prefix s p \<longleftrightarrow> (\<exists>r. s = p @ r)"
  by (metis append_eq_conv_conj append_take_drop_id has_prefix_def)

lemma leading_space_iff: "leading_space s = None \<longleftrightarrow> (\<forall>sp \<in> set go_spaces. \<not> has_prefix s sp)"
  by (auto simp: leading_space_def find_None_iff)

lemma trailing_space_Some: "trailing_space s = Some sp \<Longrightarrow> sp \<in> set go_spaces \<and> (\<exists>t. s = t @ sp)"
  by (auto simp: trailing_space_def find_Some_iff has_prefix_iff) (metis rev_append rev_rev_ident)

lemma trim_right_nonempty:
  "s \<noteq> [] \<Longrightarrow> leading_space s = None \<Longrightarrow> trim_right s \<noteq> []"
proof (induction s rule: trim_right.induct)
  case (1 s)
  show ?case
  proof (cases "trailing_space s")
    case None
    with 1 show ?thesis by (simp add: trim_right.simps)
  next
    case (Some sp)
    from trailing_space_Some [OF this] obtain t where t: "sp \<in> set go_spaces" "s = t @ sp" by blast
    have "t \<noteq> []"
    proof
      assume "t = []"
      then have "has_prefix s sp" using t(2) by (simp add: has_prefix_iff)
      with t(1) 1(3) show False by (simp add: leading_space_iff)
    qed
    moreover have "leading_space t = None"
      using 1(3) unfolding leading_space_iff t(2) by (auto simp: has_prefix_iff)
    ultimately show ?thesis using 1(1) [OF Some] t(2) Some by (subst trim_right.simps) simp
  qed
qed

lemma trim_space_nonempty: "s \<noteq> [] \<Longrightarrow> leading_space s = None \<Longrightarrow> trim_space s \<noteq> []"
  using trim_right_nonempty by (simp add: trim_space_def trim_left.simps)

lemma go_spaces_last_not_dec: "list_all (\<lambda>sp. \<not> is_dec (last sp)) go_spaces"
  by code_simp

lemma trim_digits:
  assumes "digits ds" "ds \<noteq> []"
  shows "trim_space (CHR '' '' # ds) = ds"
proof -
  obtain c cs where ds: "ds = c # cs" using assms(2) by (cases ds) auto
  have c: "is_dec c" using assms by (simp add: ds digits_def)
  have "leading_space (CHR '' '' # ds) = Some [CHR '' '']"
    by (simp add: leading_space_def go_spaces_def has_prefix_def)
  then have l: "trim_left (CHR '' '' # ds) = ds"
    using dec_not_space [OF c, of cs] by (simp add: trim_left.simps ds)
  have "trailing_space ds = None"
  proof (cases "trailing_space ds")
    case (Some sp)
    from trailing_space_Some [OF this] obtain t where t: "sp \<in> set go_spaces" "ds = t @ sp" by blast
    have "sp \<noteq> []" using t(1) go_spaces_nonempty by auto
    then have "is_dec (last sp)" using assms(1) t(2) by (auto simp: digits_def list_all_iff)
    then show ?thesis using t(1) go_spaces_last_not_dec by (auto simp: list_all_iff)
  qed
  with l show ?thesis by (simp add: trim_space_def trim_right.simps)
qed

subsection \<open>Exposition lines\<close>

definition counter_line :: "string \<Rightarrow> string \<Rightarrow> int \<Rightarrow> string" where
  \<comment> \<open>\<open>name{labels} n\<close>\<close>
  "counter_line name labels n = name @ ''{'' @ labels @ ''} '' @ fmt_d n"

lemma parsePromLine_counter:
  assumes "CHR ''{'' \<notin> set name" "0 \<le> n" "n \<le> 2 ^ 53"
  shows "parsePromLine (counter_line name labels n) = Some (trim_space name, fof_int n)"
proof -
  have d: "digits (fmt_d n)" "fmt_d n \<noteq> []"
    using digits_of_dec [OF assms(2)] assms(2) by (simp_all add: fmt_d_def)
  have nc: "c \<notin> set (fmt_d n)" if "\<not> is_dec c" for c
    using d(1) that by (auto simp: digits_def list_all_iff)
  have "CHR ''}'' \<notin> set ('' '' @ fmt_d n)" using nc [of "CHR ''}''"] by (simp add: is_dec_code char_code_def)
  from str_last_index_char [OF this, of "name @ ''{'' @ labels"]
  have "str_last_index (counter_line name labels n) ''}'' = Some (length name + 1 + length labels)"
    by (simp add: counter_line_def)
  moreover have "str_index (counter_line name labels n) ''{'' = Some (length name)"
    using str_index_char [OF assms(1)] by (simp add: counter_line_def)
  ultimately have sp: "prom_split (counter_line name labels n) = Some (length name + length labels + 2)"
    by (simp add: prom_split_def)
  have dr: "drop (length name + length labels + 2) (counter_line name labels n) = CHR '' '' # fmt_d n"
    by (simp add: counter_line_def)
  have tk: "take (length name + length labels + 2) (counter_line name labels n) = name @ CHR ''{'' # labels @ ''}''"
    by (simp add: counter_line_def)
  have "str_index (fmt_d n) '' '' = None"
    using nc [of "CHR '' ''"] by (intro str_index_char_None) (simp add: is_dec_code char_code_def)
  moreover have "is_fin (fof_int n)" using fint_of_int [of n] assms by (simp add: fint_def)
  moreover have "length (counter_line name labels n) > length name + length labels + 2"
    by (simp add: counter_line_def)
  ultimately show ?thesis
    unfolding parsePromLine_def sp option.case dr tk trim_digits [OF d] Let_def
    using parse_float_fmt_d [OF assms(2,3)] str_index_char [OF assms(1)]
    by auto
qed

subsection \<open>A whole exposition\<close>

text \<open>What a sidecar prints: request counters with a response code among their labels, shed
  counters, and lines the scraper skips.\<close>

datatype metric =
    Requests string string string int \<comment> \<open>labels before the code, the code, labels after it, the value\<close>
  | Shed string int
  | Other string

fun render :: "metric \<Rightarrow> string" where
  "render (Requests pre code post n) =
     counter_line ''istio_requests_total'' (pre @ ''response_code=\"'' @ code @ ''\"'' @ post) n"
| "render (Shed labels n) = counter_line metricAdmissionRqShed labels n"
| "render (Other line) = line"

fun metric_ok :: "metric \<Rightarrow> bool" where
  "metric_ok (Requests pre code post n) \<longleftrightarrow>
     newline \<notin> set pre \<union> set code \<union> set post \<and> CHR ''\"'' \<notin> set code \<and> 0 \<le> n \<and> n \<le> 2 ^ 53 \<and>
     str_index (''istio_requests_total{'' @ pre @ ''response_code=\"'') ''response_code=\"'' =
       Some (length (''istio_requests_total{'' @ pre))"
| "metric_ok (Shed labels n) \<longleftrightarrow> newline \<notin> set labels \<and> 0 \<le> n \<and> n \<le> 2 ^ 53"
| "metric_ok (Other line) \<longleftrightarrow> newline \<notin> set line \<and>
     (has_prefix line ''#'' \<or> trim_space line = [] \<or>
      \<not> has_prefix line metricAdmissionRqShed \<and> \<not> has_prefix line ''istio_requests_total{'')"

definition exposition :: "metric list \<Rightarrow> string" where
  "exposition ms = concat (map (\<lambda>m. render m @ [newline]) ms)"

fun metric_step :: "metric \<Rightarrow> counterSnapshot \<Rightarrow> counterSnapshot" where
  "metric_step (Requests pre code post n) snap = add_class (httpClass code) (fof_int n) snap"
| "metric_step (Shed labels n) snap = snap\<lparr>shedTotal := fadd (shedTotal snap) (fof_int n)\<rparr>"
| "metric_step (Other line) snap = snap"

lemma has_prefix_mono: "has_prefix s p \<Longrightarrow> has_prefix (s @ b) p"
  by (auto simp: has_prefix_iff)

lemma has_prefix_length: "has_prefix s p \<Longrightarrow> length p \<le> length s"
  by (auto simp: has_prefix_iff)

lemma str_index_length: "str_index s sub = Some i \<Longrightarrow> i + length sub \<le> length s"
  by (induction s sub arbitrary: i rule: str_index.induct)
    (auto dest: has_prefix_length split: if_splits)

lemma str_index_extend: "str_index s sub = Some i \<Longrightarrow> str_index (s @ b) sub = Some i"
proof (induction s sub arbitrary: i rule: str_index.induct)
  case (1 sub)
  then show ?case by (cases b) (auto simp: has_prefix_def split: if_splits)
next
  case (2 c s sub)
  show ?case
  proof (cases "has_prefix (c # s) sub")
    case True
    then have "has_prefix (c # s @ b) sub" using has_prefix_mono [of "c # s"] by simp
    with True 2(2) show ?thesis by simp
  next
    case False
    with 2(2) obtain j where j: "str_index s sub = Some j" "i = Suc j" by (auto split: if_splits)
    then have "length sub \<le> length s" using str_index_length [OF j(1)] by simp
    then have "\<not> has_prefix (c # s @ b) sub" using False by (cases "length sub") (auto simp: has_prefix_def)
    with 2(1) [OF False j(1)] j(2) show ?thesis by simp
  qed
qed

lemma extractLabel_code:
  assumes "str_index (a @ ''response_code=\"'') ''response_code=\"'' = Some (length a)" "CHR ''\"'' \<notin> set code"
  shows "extractLabel (a @ ''response_code=\"'' @ code @ ''\"'' @ b) ''response_code'' = code"
proof -
  have "str_index (a @ ''response_code=\"'' @ code @ ''\"'' @ b) ''response_code=\"'' = Some (length a)"
    using str_index_extend [OF assms(1), of "code @ ''\"'' @ b"] by simp
  moreover have "str_index (code @ ''\"'' @ b) ''\"'' = Some (length code)"
    using str_index_char [OF assms(2)] by simp
  ultimately show ?thesis by (simp add: extractLabel_def)
qed

lemma letter_not_space: "leading_space (CHR ''i'' # s) = None" "leading_space (CHR ''e'' # s) = None"
  by (simp_all add: leading_space_iff go_spaces_def has_prefix_def)

lemma parse_line_render:
  assumes "metric_ok m"
  shows "parse_line (render m) snap = metric_step m snap"
proof (cases m)
  case (Requests pre code post n)
  let ?l = "render m" and ?a = "''istio_requests_total{'' @ pre"
  have l: "?l = ?a @ ''response_code=\"'' @ code @ ''\"'' @ (post @ ''} '' @ fmt_d n)"
    by (simp add: Requests counter_line_def)
  have code: "extractLabel ?l ''response_code'' = code"
    unfolding l by (rule extractLabel_code) (use assms Requests in simp_all)
  have val: "parsePromLine ?l = Some (trim_space ''istio_requests_total'', fof_int n)"
    unfolding Requests render.simps by (rule parsePromLine_counter) (use assms Requests in simp_all)
  have "trim_space ?l \<noteq> []" by (rule trim_space_nonempty) (simp_all add: l letter_not_space)
  moreover have "\<not> has_prefix ?l ''#''" "\<not> has_prefix ?l metricAdmissionRqShed"
    "has_prefix ?l ''istio_requests_total{''"
    by (simp_all add: l has_prefix_def metricAdmissionRqShed_def)
  ultimately show ?thesis unfolding parse_line_def val code by (simp add: Requests)
next
  case (Shed labels n)
  let ?l = "render m"
  have val: "parsePromLine ?l = Some (trim_space metricAdmissionRqShed, fof_int n)"
    unfolding Shed render.simps
    by (rule parsePromLine_counter) (use assms Shed in \<open>simp_all add: metricAdmissionRqShed_def\<close>)
  have "trim_space ?l \<noteq> []"
    by (rule trim_space_nonempty) (simp_all add: Shed counter_line_def metricAdmissionRqShed_def letter_not_space)
  moreover have "\<not> has_prefix ?l ''#''" by (simp add: Shed counter_line_def has_prefix_def metricAdmissionRqShed_def)
  moreover have "has_prefix ?l metricAdmissionRqShed" by (simp add: Shed counter_line_def has_prefix_append)
  ultimately show ?thesis unfolding parse_line_def val by (simp add: Shed)
next
  case (Other line)
  with assms show ?thesis by (auto simp: parse_line_def)
qed

lemma newline_fmt_d: "0 \<le> n \<Longrightarrow> newline \<notin> set (fmt_d n)"
  using digits_of_dec [of n] is_dec_neq(5) by (auto simp: fmt_d_def digits_def list_all_iff)

lemma newline_not_literal: "newline \<notin> set ''istio_requests_total''" "newline \<notin> set metricAdmissionRqShed"
    "newline \<notin> set ''response_code=\"''" "newline \<notin> set ''{''" "newline \<notin> set ''} ''" "newline \<notin> set ''\"''"
  by (simp_all add: newline_def metricAdmissionRqShed_def)

lemma newline_counter_line:
  assumes "newline \<notin> set name" "newline \<notin> set labels" "0 \<le> n"
  shows "newline \<notin> set (counter_line name labels n)"
  using assms newline_fmt_d [of n] newline_not_literal unfolding counter_line_def set_append by blast

lemma render_newline: "metric_ok m \<Longrightarrow> newline \<notin> set (render m)"
proof (cases m)
  case (Requests pre code post n)
  assume "metric_ok m"
  then have "newline \<notin> set (pre @ ''response_code=\"'' @ code @ ''\"'' @ post)" "0 \<le> n"
    using newline_not_literal unfolding Requests metric_ok.simps set_append by blast+
  then show ?thesis unfolding Requests render.simps
    by (intro newline_counter_line newline_not_literal)
next
  case (Shed labels n)
  assume "metric_ok m"
  then show ?thesis unfolding Shed render.simps metric_ok.simps
    by (intro newline_counter_line newline_not_literal) simp_all
qed simp

lemma fold_exposition:
  "list_all metric_ok ms \<Longrightarrow> fold parse_line (str_split newline (exposition ms)) snap = fold metric_step ms snap"
proof (induction ms arbitrary: snap)
  case Nil
  have "trim_space [] = []" by code_simp
  then show ?case by (simp add: exposition_def parse_line_def)
next
  case (Cons m ms)
  then have ok: "metric_ok m" "list_all metric_ok ms" by simp_all
  have "exposition (m # ms) = render m @ newline # exposition ms" by (simp add: exposition_def)
  then show ?case
    using str_split_line [OF render_newline [OF ok(1)]] parse_line_render [OF ok(1)] Cons.IH [OF ok(2)] by simp
qed

subsection \<open>Exact counters\<close>

definition snap_is :: "counterSnapshot \<Rightarrow> (int \<Rightarrow> int) \<Rightarrow> int \<Rightarrow> bool" where
  \<comment> \<open>the snapshot holds the integer \<open>f c\<close> for each status class \<open>c\<close>, their sum and the shed count \<open>h\<close>\<close>
  "snap_is s f h \<longleftrightarrow> fint (rq2xx s) (f 2) \<and> fint (rq3xx s) (f 3) \<and> fint (rq4xx s) (f 4) \<and>
     fint (rq5xx s) (f 5) \<and> fint (rqTotal s) (f 2 + f 3 + f 4 + f 5) \<and> fint (shedTotal s) h"

fun requests_in :: "int \<Rightarrow> metric \<Rightarrow> int" where
  "requests_in c (Requests pre code post n) = (if httpClass code = c then n else 0)"
| "requests_in c _ = 0"

fun shed_in :: "metric \<Rightarrow> int" where
  "shed_in (Shed labels n) = n"
| "shed_in _ = 0"

definition class_sum :: "metric list \<Rightarrow> int \<Rightarrow> int" where
  "class_sum ms c = sum_list (map (requests_in c) ms)"

definition shed_sum :: "metric list \<Rightarrow> int" where
  "shed_sum ms = sum_list (map shed_in ms)"

lemma requests_in_nonneg: "metric_ok m \<Longrightarrow> 0 \<le> requests_in c m" "metric_ok m \<Longrightarrow> 0 \<le> shed_in m"
  by (cases m; simp)+

lemma sums_nonneg: "list_all metric_ok ms \<Longrightarrow> 0 \<le> class_sum ms c" "list_all metric_ok ms \<Longrightarrow> 0 \<le> shed_sum ms"
  by (auto simp: class_sum_def shed_sum_def list_all_iff intro!: sum_list_nonneg requests_in_nonneg)

lemma httpClass_cases: "httpClass code \<in> {0, 2, 3, 4, 5}"
  by (simp add: httpClass_def)

lemma step_counts:
  assumes "metric_ok m" "snap_is s f h" "\<And>c. 0 \<le> f c" "0 \<le> h"
    and "f 2 + f 3 + f 4 + f 5 + (requests_in 2 m + requests_in 3 m + requests_in 4 m + requests_in 5 m) \<le> 2 ^ 53"
    and "h + shed_in m \<le> 2 ^ 53"
  shows "snap_is (metric_step m s) (\<lambda>c. f c + requests_in c m) (h + shed_in m) \<and>
    scrapedAt (metric_step m s) = scrapedAt s"
proof (cases m)
  case (Requests pre code post n)
  have n: "0 \<le> n" "fint (fof_int n) n" using assms(1) Requests by (auto intro: fint_of_int)
  have nn: "0 \<le> f 2" "0 \<le> f 3" "0 \<le> f 4" "0 \<le> f 5" by (rule assms(3))+
  have add: "fint x a \<Longrightarrow> 0 \<le> a \<Longrightarrow> a + n \<le> 2 ^ 53 \<Longrightarrow> fint (fadd x (fof_int n)) (a + n)" for x a
    by (rule fint_add [OF _ n(2)]) (use n(1) in auto)
  note b = assms(5) [unfolded Requests requests_in.simps]
  have s: "fint (rq2xx s) (f 2)" "fint (rq3xx s) (f 3)" "fint (rq4xx s) (f 4)" "fint (rq5xx s) (f 5)"
    "fint (rqTotal s) (f 2 + f 3 + f 4 + f 5)" "fint (shedTotal s) h"
    using assms(2) by (simp_all add: snap_is_def)
  note tot = add [OF s(5)]
  consider "httpClass code = 0" | "httpClass code = 2" | "httpClass code = 3" | "httpClass code = 4" | "httpClass code = 5"
    using httpClass_cases [of code] by auto
  then show ?thesis
  proof cases
    case 1 then show ?thesis using assms(2) by (simp add: Requests add_class_def snap_is_def)
  next
    case 2 then show ?thesis using add [OF s(1)] tot b nn s
      by (simp add: Requests add_class_def snap_is_def algebra_simps)
  next
    case 3 then show ?thesis using add [OF s(2)] tot b nn s
      by (simp add: Requests add_class_def snap_is_def algebra_simps)
  next
    case 4 then show ?thesis using add [OF s(3)] tot b nn s
      by (simp add: Requests add_class_def snap_is_def algebra_simps)
  next
    case 5 then show ?thesis using add [OF s(4)] tot b nn s
      by (simp add: Requests add_class_def snap_is_def algebra_simps)
  qed
next
  case (Shed labels n)
  then have "fint (fof_int n) n" "0 \<le> n" using assms(1) by (auto intro: fint_of_int)
  with fint_add [of "shedTotal s" h "fof_int n" n] assms(2,4,6) show ?thesis
    by (simp add: Shed snap_is_def)
qed (use assms in simp)

lemma fold_counts:
  assumes "list_all metric_ok ms" "snap_is s f h" "\<And>c. 0 \<le> f c" "0 \<le> h"
    and "f 2 + f 3 + f 4 + f 5 + (class_sum ms 2 + class_sum ms 3 + class_sum ms 4 + class_sum ms 5) \<le> 2 ^ 53"
    and "h + shed_sum ms \<le> 2 ^ 53"
  shows "snap_is (fold metric_step ms s) (\<lambda>c. f c + class_sum ms c) (h + shed_sum ms) \<and>
    scrapedAt (fold metric_step ms s) = scrapedAt s"
  using assms
proof (induction ms arbitrary: s f h)
  case Nil then show ?case by (simp add: class_sum_def shed_sum_def)
next
  case (Cons m ms)
  have ok: "metric_ok m" "list_all metric_ok ms" using Cons.prems(1) by simp_all
  note nn = sums_nonneg(1) [OF ok(2), of 2] sums_nonneg(1) [OF ok(2), of 3] sums_nonneg(1) [OF ok(2), of 4]
    sums_nonneg(1) [OF ok(2), of 5] sums_nonneg(2) [OF ok(2)] requests_in_nonneg [OF ok(1)]
  have c: "class_sum (m # ms) c = requests_in c m + class_sum ms c" for c by (simp add: class_sum_def)
  have h: "shed_sum (m # ms) = shed_in m + shed_sum ms" by (simp add: shed_sum_def)
  have st: "snap_is (metric_step m s) (\<lambda>c. f c + requests_in c m) (h + shed_in m) \<and>
      scrapedAt (metric_step m s) = scrapedAt s"
    by (rule step_counts [OF ok(1) Cons.prems(2-4)])
      (use Cons.prems(5,6) nn in \<open>simp_all add: c h\<close>)
  have "snap_is (fold metric_step ms (metric_step m s)) (\<lambda>c. f c + requests_in c m + class_sum ms c)
      (h + shed_in m + shed_sum ms) \<and> scrapedAt (fold metric_step ms (metric_step m s)) = scrapedAt (metric_step m s)"
    by (rule Cons.IH [OF ok(2)])
      (use st Cons.prems(3-6) nn in \<open>simp_all add: c h algebra_simps\<close>)
  with st show ?case by (simp add: c h algebra_simps)
qed

lemma snap_is_empty: "snap_is (empty_snapshot t) (\<lambda>_. 0) 0"
  by (simp add: snap_is_def empty_snapshot_def)

lemma parseMetrics_exposition:
  assumes "list_all metric_ok ms"
    and "class_sum ms 2 + class_sum ms 3 + class_sum ms 4 + class_sum ms 5 \<le> 2 ^ 53" "shed_sum ms \<le> 2 ^ 53"
  shows "snap_is (parseMetrics (exposition ms) now) (class_sum ms) (shed_sum ms) \<and>
    scrapedAt (parseMetrics (exposition ms) now) = now"
  using fold_counts [OF assms(1) snap_is_empty, of now] assms(2,3)
  by (simp add: parseMetrics_def fold_exposition [OF assms(1)] empty_snapshot_def)

subsection \<open>Float to integer\<close>

lemma fint_trunc: "fint x n \<Longrightarrow> ftrunc x = Some n"
proof -
  assume f: "fint x n"
  then obtain s m e where x: "x = FFin s m e" by (cases x) (auto simp: fint_def)
  show ?thesis
  proof (cases "0 \<le> e")
    case True
    then have "fval x = real_of_int (signed s (m * 2 ^ nat e))"
      by (simp add: x signed_def powi_nat)
    with f True show ?thesis by (simp add: x fint_def)
  next
    case False
    define d :: int where "d = 2 ^ nat (- e)"
    have "real_of_int m = real_of_int (signed s n) * d"
      using f False by (auto simp: x fint_def powi_neg d_def signed_def field_simps split: if_splits)
    then have "m = signed s n * d" by (metis of_int_eq_iff of_int_mult)
    moreover have "d \<noteq> 0" by (simp add: d_def)
    ultimately have "m div d = signed s n" by simp
    then show ?thesis using False by (simp add: x d_def signed_def)
  qed
qed

lemma fint_to_int64: "fint x n \<Longrightarrow> \<bar>n\<bar> \<le> 2 ^ 53 \<Longrightarrow> fto_int64 impl x = n"
  by (auto simp: fto_int64_def fint_trunc min_int64_def max_int64_def abs_le_iff)

end
