(* ===== verification/Scraper_Reads.thy ===== *)
theory Scraper_Reads
  imports Scraper_Facts
begin

section \<open>The pod loop as a fold over snapshots\<close>

text \<open>
  The loop of \<open>ReadSignals\<close> splits into what the network answers (\<open>scrapes\<close>: the snapshots taken, in
  order) and what the scraper makes of them (\<open>absorb\<close>). On exact counters the accumulators
  are the sums of the per-pod increments (\<open>increments\<close>).
\<close>

fun scrapes :: "scrape_env \<Rightarrow> Pod list \<Rightarrow> nat \<Rightarrow> nat \<Rightarrow> (string \<times> counterSnapshot) list" where
  "scrapes env [] k r = []"
| "scrapes env (pod # pods) k r =
     (if \<not> pod_running pod then scrapes env pods k r
      else let outcome = http_get env k (stats_url (pod_IP pod));
               r' = r + (if reads_clock outcome then 1 else 0)
           in case scrapePod (pod_IP pod) outcome (clock env r) of
                Inl _ \<Rightarrow> scrapes env pods (k + 1) r'
              | Inr snap \<Rightarrow> (pod_Name pod, snap) # scrapes env pods (k + 1) r')"

definition counted :: "counterSnapshot \<Rightarrow> counterSnapshot \<Rightarrow> bool" where
  \<comment> \<open>the pair of snapshots contributes to the signals\<close>
  "counted prev current \<longleftrightarrow>
     \<not> flt (duration_seconds (time_sub (scrapedAt current) (scrapedAt prev))) (flit 1 10) \<and>
     \<not> flt (fsub (rqTotal current) (rqTotal prev)) fzero"

definition absorb :: "scrape_env \<Rightarrow> HTTPStatusRange list \<Rightarrow> string \<times> counterSnapshot \<Rightarrow> scan \<Rightarrow> scan" where
  "absorb env ranges ns s =
     (let (name, current) = ns; s2 = s\<lparr>previous := AList.update name current (previous s)\<rparr> in
      case map_of (previous s) name of
        None \<Rightarrow> s2
      | Some prev \<Rightarrow> if \<not> counted prev current then s2
          else s2\<lparr>totalRqDelta := fadd (totalRqDelta s2) (fsub (rqTotal current) (rqTotal prev)),
                  successDelta := fadd (successDelta s2)
                    (pod_success_delta (class_order env) ranges current prev),
                  shedDelta := fadd (shedDelta s2) (nonNegDelta (shedTotal current) (shedTotal prev)),
                  scrapedPods := scrapedPods s2 + 1\<rparr>)"

definition core :: "scan \<Rightarrow> scan" where
  \<comment> \<open>a scan without its environment counters\<close>
  "core s = s\<lparr>requests := 0, readings := 0\<rparr>"

lemma scan_pods_fold:
  "core (scan_pods env ranges pods s) =
     fold (absorb env ranges) (scrapes env pods (requests s) (readings s)) (core s)"
proof (induction pods arbitrary: s)
  case (Cons pod pods)
  let ?s' = "scan_pod env ranges pod s"
  have IH: "core (scan_pods env ranges (pod # pods) s) =
      fold (absorb env ranges) (scrapes env pods (requests ?s') (readings ?s')) (core ?s')"
    using Cons.IH [of ?s'] by (simp add: scan_pods_def)
  show ?case
  proof (cases "pod_running pod")
    case False
    then show ?thesis using IH by (simp add: scan_pod_def)
  next
    case True
    define outcome where "outcome = http_get env (requests s) (stats_url (pod_IP pod))"
    show ?thesis
    proof (cases "scrapePod (pod_IP pod) outcome (clock env (readings s))")
      case (Inl e)
      then show ?thesis using IH True
        by (simp add: scan_pod_def core_def outcome_def [symmetric])
    next
      case (Inr current)
      then have "core ?s' = absorb env ranges (pod_Name pod, current) (core s)"
        "requests ?s' = requests s + 1" "readings ?s' = readings s + (if reads_clock outcome then 1 else 0)"
        using True by (simp_all add: scan_pod_def core_def outcome_def [symmetric] absorb_def counted_def Let_def
            split: option.splits)
      then show ?thesis unfolding IH using Inr True by (simp add: outcome_def [symmetric])
    qed
  qed
qed (simp add: scan_pods_def)

lemma core_fields [simp]:
  "previous (core s) = previous s" "totalRqDelta (core s) = totalRqDelta s"
  "successDelta (core s) = successDelta s" "shedDelta (core s) = shedDelta s"
  "scrapedPods (core s) = scrapedPods s"
  by (simp_all add: core_def)

definition scraped :: "scrape_env \<Rightarrow> Pod list \<Rightarrow> (string \<times> counterSnapshot) list" where
  \<comment> \<open>the snapshots one call takes: no request made yet, the clock read once\<close>
  "scraped env pods = scrapes env pods 0 1"

lemma start_fields [simp]: "previous (start_scan prev) = prev" "totalRqDelta (start_scan prev) = fzero"
  "successDelta (start_scan prev) = fzero" "shedDelta (start_scan prev) = fzero"
  "scrapedPods (start_scan prev) = 0"
  by (simp_all add: start_scan_def)

lemma scan_pods_fields:
  fixes env ranges pods prev
  defines "f \<equiv> fold (absorb env ranges) (scraped env pods) (core (start_scan prev))"
  shows "previous (scan_pods env ranges pods (start_scan prev)) = previous f"
    "totalRqDelta (scan_pods env ranges pods (start_scan prev)) = totalRqDelta f"
    "successDelta (scan_pods env ranges pods (start_scan prev)) = successDelta f"
    "shedDelta (scan_pods env ranges pods (start_scan prev)) = shedDelta f"
    "scrapedPods (scan_pods env ranges pods (start_scan prev)) = scrapedPods f"
proof -
  have "core (scan_pods env ranges pods (start_scan prev)) = f"
    by (simp add: scan_pods_fold f_def scraped_def) (simp add: start_scan_def)
  then show "previous (scan_pods env ranges pods (start_scan prev)) = previous f"
    "totalRqDelta (scan_pods env ranges pods (start_scan prev)) = totalRqDelta f"
    "successDelta (scan_pods env ranges pods (start_scan prev)) = successDelta f"
    "shedDelta (scan_pods env ranges pods (start_scan prev)) = shedDelta f"
    "scrapedPods (scan_pods env ranges pods (start_scan prev)) = scrapedPods f"
    using core_fields by metis+
qed

subsection \<open>The map of previous snapshots\<close>

lemma absorb_previous: "previous (absorb env ranges (n, c) s) = AList.update n c (previous s)"
  by (simp add: absorb_def Let_def split: option.splits)

lemma fold_absorb_previous:
  "previous (fold (absorb env ranges) rs s) = fold (\<lambda>(n, c). AList.update n c) rs (previous s)"
  by (induction rs arbitrary: s) (auto simp: absorb_previous)

lemma map_of_fold_update:
  "map_of (fold (\<lambda>(n, c). AList.update n c) rs m) = map_of m ++ map_of (rev rs)"
  by (induction rs arbitrary: m) (auto simp: map_add_def fun_eq_iff split: option.splits)

lemma scrapes_names: "fst ` set (scrapes env pods k r) \<subseteq> pod_Name ` set pods"
  by (induction pods arbitrary: k r) (auto simp: Let_def split: sum.splits)

lemma map_of_prune: "map_of (prune_pods pods m) n = (if n \<in> pod_Name ` set pods then map_of m n else None)"
  by (induction m) (auto simp: prune_pods_def)

lemma ReadSignals_previous:
  assumes "discoverPods env policy = Inr pods" "pods \<noteq> []"
  shows "map_of (snd (snd (ReadSignals env policy prev))) n =
    (if n \<in> pod_Name ` set pods then (map_of prev ++ map_of (rev (scraped env pods))) n else None)"
  using assms
  by (simp add: ReadSignals_def Let_def map_of_prune scan_pods_fields(1) fold_absorb_previous
      map_of_fold_update)

lemma ReadSignals_failed:
  assumes "discoverPods env policy = Inl e \<or> discoverPods env policy = Inr []"
  shows "fst (ReadSignals env policy prev) = safeDefaults (clock env 0)"
    "fst (snd (ReadSignals env policy prev)) \<noteq> None" "snd (snd (ReadSignals env policy prev)) = prev"
  using assms by (auto simp: ReadSignals_def)

subsection \<open>Exact increments\<close>

definition cnt :: "float64 \<Rightarrow> int" where
  "cnt x = the (ftrunc x)"

definition exact :: "int \<Rightarrow> counterSnapshot \<Rightarrow> bool" where
  \<comment> \<open>every counter is an integer between 0 and \<open>B\<close>\<close>
  "exact B s \<longleftrightarrow> list_all (\<lambda>x. fint x (cnt x) \<and> 0 \<le> cnt x \<and> cnt x \<le> B)
     [rqTotal s, rq2xx s, rq3xx s, rq4xx s, rq5xx s, shedTotal s]"

definition class_gain :: "HTTPStatusRange list \<Rightarrow> int \<Rightarrow> float64 \<Rightarrow> float64 \<Rightarrow> int" where
  "class_gain ranges class current prev =
     (if statusClassInSuccessRanges class ranges then max 0 (cnt current - cnt prev) else 0)"

definition success_gain :: "HTTPStatusRange list \<Rightarrow> counterSnapshot \<Rightarrow> counterSnapshot \<Rightarrow> int" where
  "success_gain ranges current prev =
     class_gain ranges 2 (rq2xx current) (rq2xx prev) + class_gain ranges 3 (rq3xx current) (rq3xx prev) +
     class_gain ranges 4 (rq4xx current) (rq4xx prev) + class_gain ranges 5 (rq5xx current) (rq5xx prev)"

definition increment :: "(counterSnapshot \<Rightarrow> counterSnapshot \<Rightarrow> int) \<Rightarrow> Scraper \<Rightarrow>
    string \<times> counterSnapshot \<Rightarrow> int" where
  \<comment> \<open>what a scraped pod adds, measured by \<open>g current previous\<close>\<close>
  "increment g prev ns = (case map_of prev (fst ns) of
     None \<Rightarrow> 0 | Some p \<Rightarrow> if counted p (snd ns) then g (snd ns) p else 0)"

definition gained :: "(counterSnapshot \<Rightarrow> counterSnapshot \<Rightarrow> int) \<Rightarrow> Scraper \<Rightarrow>
    (string \<times> counterSnapshot) list \<Rightarrow> int" where
  "gained g prev rs = sum_list (map (increment g prev) rs)"

abbreviation total_gain :: "counterSnapshot \<Rightarrow> counterSnapshot \<Rightarrow> int" where
  "total_gain current prev \<equiv> cnt (rqTotal current) - cnt (rqTotal prev)"

abbreviation shed_gain :: "counterSnapshot \<Rightarrow> counterSnapshot \<Rightarrow> int" where
  "shed_gain current prev \<equiv> max 0 (cnt (shedTotal current) - cnt (shedTotal prev))"

lemma cnt_fint: "fint x n \<Longrightarrow> cnt x = n"
  by (simp add: cnt_def fint_trunc)

lemma nonNegDelta_exact:
  assumes "fint x a" "fint y b" "0 \<le> a" "0 \<le> b" "a \<le> 2 ^ 53" "b \<le> 2 ^ 53"
  shows "fint (nonNegDelta x y) (max 0 (a - b))"
proof -
  have "fint (fsub x y) (a - b)" by (rule fint_sub) (use assms in auto)
  with fint_flt [OF fint_zero this] show ?thesis by (auto simp: nonNegDelta_def Let_def max_def)
qed

lemma success_fold:
  assumes "list_all (\<lambda>(c, x). fint x (cnt x) \<and> 0 \<le> cnt x) xs" "fint acc a" "0 \<le> a"
    and "a + sum_list (map (\<lambda>(c, x). if statusClassInSuccessRanges c ranges then cnt x else 0) xs) \<le> 2 ^ 53"
  shows "fint (fold (\<lambda>(c, x) acc. if statusClassInSuccessRanges c ranges then fadd acc x else acc) xs acc)
    (a + sum_list (map (\<lambda>(c, x). if statusClassInSuccessRanges c ranges then cnt x else 0) xs))"
  using assms
proof (induction xs arbitrary: acc a)
  case (Cons cx xs)
  obtain c x where cx: "cx = (c, x)" by (cases cx)
  let ?s = "sum_list (map (\<lambda>(c, x). if statusClassInSuccessRanges c ranges then cnt x else 0) xs)"
  have x: "fint x (cnt x)" "0 \<le> cnt x" and xs: "list_all (\<lambda>(c, x). fint x (cnt x) \<and> 0 \<le> cnt x) xs"
    using Cons.prems(1) by (simp_all add: cx)
  have s: "0 \<le> ?s" using xs by (intro sum_list_nonneg) (auto simp: list_all_iff)
  show ?case
  proof (cases "statusClassInSuccessRanges c ranges")
    case True
    have "fint (fadd acc x) (a + cnt x)"
      by (rule fint_add [OF Cons.prems(2) x(1)]) (use Cons.prems(3,4) x(2) s True in \<open>simp add: cx\<close>)
    from Cons.IH [OF xs this] Cons.prems(3,4) x(2) True show ?thesis by (simp add: cx add.assoc)
  next
    case False
    with Cons.IH [OF xs Cons.prems(2,3)] Cons.prems(4) show ?thesis by (simp add: cx)
  qed
qed simp

lemma pod_success_delta_exact:
  assumes "is_order ord" "exact B c" "exact B p" "4 * B \<le> 2 ^ 53"
  shows "fint (pod_success_delta ord ranges c p) (success_gain ranges c p)"
    "0 \<le> success_gain ranges c p" "success_gain ranges c p \<le> 4 * B"
proof -
  let ?g = "\<lambda>(c, x). if statusClassInSuccessRanges c ranges then cnt x else 0"
  let ?xs = "class_deltas c p"
  have B: "B \<le> 2 ^ 53" "0 \<le> B" using assms(2,4) by (auto simp: exact_def)
  have d: "fint (nonNegDelta x y) (max 0 (cnt x - cnt y))"
    if "fint x (cnt x)" "fint y (cnt y)" "0 \<le> cnt x" "0 \<le> cnt y" "cnt x \<le> B" "cnt y \<le> B" for x y
    by (rule nonNegDelta_exact) (use that B in auto)
  have e: "fint (nonNegDelta (rq2xx c) (rq2xx p)) (max 0 (cnt (rq2xx c) - cnt (rq2xx p)))"
    "fint (nonNegDelta (rq3xx c) (rq3xx p)) (max 0 (cnt (rq3xx c) - cnt (rq3xx p)))"
    "fint (nonNegDelta (rq4xx c) (rq4xx p)) (max 0 (cnt (rq4xx c) - cnt (rq4xx p)))"
    "fint (nonNegDelta (rq5xx c) (rq5xx p)) (max 0 (cnt (rq5xx c) - cnt (rq5xx p)))"
    using assms(2,3) by (auto simp: exact_def intro!: d)
  note v = e [THEN cnt_fint]
  have sum: "sum_list (map ?g ?xs) = success_gain ranges c p"
    by (simp add: class_deltas_def success_gain_def class_gain_def v)
  show "0 \<le> success_gain ranges c p" by (simp add: success_gain_def class_gain_def)
  show le: "success_gain ranges c p \<le> 4 * B"
    using assms(2,3) B(2) by (auto simp: success_gain_def class_gain_def exact_def max_def)
  have m: "mset (ord ?xs) = mset ?xs" using assms(1) by (simp add: is_order_def)
  have "sum_list (map ?g (ord ?xs)) = sum_list (map ?g ?xs)"
    using arg_cong [OF m, of "\<lambda>M. sum_mset (image_mset ?g M)"] by (simp flip: mset_map sum_mset_sum_list)
  moreover have "list_all (\<lambda>(c, x). fint x (cnt x) \<and> 0 \<le> cnt x) (ord ?xs)"
    using order_set [OF assms(1), of ?xs] e v by (auto simp: list_all_iff class_deltas_def)
  ultimately show "fint (pod_success_delta ord ranges c p) (success_gain ranges c p)"
    using success_fold [of "ord ?xs" fzero 0 ranges] sum le assms(4)
    by (simp add: pod_success_delta_def)
qed

definition tallied :: "scan \<Rightarrow> int \<Rightarrow> int \<Rightarrow> int \<Rightarrow> bool" where
  "tallied s t u h \<longleftrightarrow> fint (totalRqDelta s) t \<and> fint (successDelta s) u \<and> fint (shedDelta s) h \<and>
     0 \<le> t \<and> 0 \<le> u \<and> 0 \<le> h \<and> 0 \<le> scrapedPods s \<and> (scrapedPods s = 0 \<longrightarrow> t = 0)"

lemma counted_nonneg:
  assumes "exact B c" "exact B p" "counted p c" "B \<le> 2 ^ 53"
  shows "fint (fsub (rqTotal c) (rqTotal p)) (total_gain c p)" "0 \<le> total_gain c p" "total_gain c p \<le> B"
proof -
  show f: "fint (fsub (rqTotal c) (rqTotal p)) (total_gain c p)"
    by (rule fint_sub) (use assms in \<open>auto simp: exact_def\<close>)
  show "0 \<le> total_gain c p" using assms(3) fint_flt [OF f fint_zero] by (simp add: counted_def)
  show "total_gain c p \<le> B" using assms(1,2) by (auto simp: exact_def)
qed

lemma absorb_tallied:
  assumes "tallied s t u h" "exact B c" "\<And>p. map_of (previous s) n = Some p \<Longrightarrow> exact B p"
    and "is_order (class_order env)" "t + B \<le> 2 ^ 53" "u + 4 * B \<le> 2 ^ 53" "h + B \<le> 2 ^ 53"
  shows "tallied (absorb env ranges (n, c) s)
    (t + increment total_gain (previous s) (n, c))
    (u + increment (success_gain ranges) (previous s) (n, c))
    (h + increment shed_gain (previous s) (n, c))"
proof (cases "map_of (previous s) n")
  case None
  then show ?thesis using assms(1) by (simp add: absorb_def increment_def tallied_def)
next
  case (Some p)
  show ?thesis
  proof (cases "counted p c")
    case False
    then show ?thesis using assms(1) Some by (simp add: absorb_def increment_def tallied_def)
  next
    case True
    have p: "exact B p" by (rule assms(3) [OF Some])
    have B: "B \<le> 2 ^ 53" "4 * B \<le> 2 ^ 53" using assms(1,5,6) by (simp_all add: tallied_def)
    note tg = counted_nonneg [OF assms(2) p True B(1)]
    note sg = pod_success_delta_exact [OF assms(4,2) p B(2), of ranges]
    have hg: "fint (nonNegDelta (shedTotal c) (shedTotal p)) (shed_gain c p)"
      by (rule nonNegDelta_exact) (use assms(2) p B in \<open>auto simp: exact_def\<close>)
    have hb: "0 \<le> shed_gain c p" "shed_gain c p \<le> B" using assms(2) p by (auto simp: exact_def)
    have "fint (fadd (totalRqDelta s) (fsub (rqTotal c) (rqTotal p))) (t + total_gain c p)"
      by (rule fint_add) (use assms(1,5) tg in \<open>simp_all add: tallied_def\<close>)
    moreover have "fint (fadd (successDelta s) (pod_success_delta (class_order env) ranges c p))
        (u + success_gain ranges c p)"
      by (rule fint_add) (use assms(1,6) sg in \<open>simp_all add: tallied_def\<close>)
    moreover have "fint (fadd (shedDelta s) (nonNegDelta (shedTotal c) (shedTotal p))) (h + shed_gain c p)"
      by (rule fint_add [OF _ hg]) (use assms(1,7) hb in \<open>unfold tallied_def, linarith+\<close>)
    ultimately show ?thesis using assms(1) tg(2) sg(2) hb(1) Some True
      by (simp add: absorb_def increment_def tallied_def Let_def)
  qed
qed

lemma increment_bounds:
  assumes "exact B (snd ns)" "\<And>p. map_of prev (fst ns) = Some p \<Longrightarrow> exact B p" "4 * B \<le> 2 ^ 53" "0 \<le> B"
  shows "increment total_gain prev ns \<le> B" "increment (success_gain ranges) prev ns \<le> 4 * B"
    "increment shed_gain prev ns \<le> B"
proof -
  have e: "exact B p" if "map_of prev (fst ns) = Some p" for p using that by (rule assms(2))
  show "increment total_gain prev ns \<le> B"
    using assms(1,4) by (auto simp: increment_def exact_def split: option.splits dest!: e)
  show "increment (success_gain ranges) prev ns \<le> 4 * B"
    using assms(4) pod_success_delta_exact(3) [OF is_order_id assms(1) e assms(3)]
    by (auto simp: increment_def split: option.splits)
  show "increment shed_gain prev ns \<le> B"
    using assms(1,4) by (auto simp: increment_def exact_def split: option.splits dest!: e)
qed

lemma fold_tallied:
  assumes "tallied s t u h" "distinct (map fst rs)" "is_order (class_order env)"
    and "\<And>n c. (n, c) \<in> set rs \<Longrightarrow> exact B c \<and> map_of (previous s) n = map_of prev n"
    and "\<And>n p. map_of prev n = Some p \<Longrightarrow> exact B p"
    and "t + int (length rs) * (4 * B) \<le> 2 ^ 53" "u + int (length rs) * (4 * B) \<le> 2 ^ 53"
      "h + int (length rs) * (4 * B) \<le> 2 ^ 53"
  shows "tallied (fold (absorb env ranges) rs s) (t + gained total_gain prev rs)
    (u + gained (success_gain ranges) prev rs) (h + gained shed_gain prev rs)"
  using assms(1,2,4,6-)
proof (induction rs arbitrary: s t u h)
  case Nil
  then show ?case by (simp add: gained_def)
next
  case (Cons ns rs)
  obtain n c where ns: "ns = (n, c)" by (cases ns)
  have c: "exact B c" "map_of (previous s) n = map_of prev n" using Cons.prems(3) by (auto simp: ns)
  then have B: "0 \<le> B" by (auto simp: exact_def)
  have e: "exact B p" if "map_of (previous s) n = Some p" for p using that c(2) assms(5) by simp
  have nn: "0 \<le> t" "0 \<le> u" "0 \<le> h" using Cons.prems(1) by (simp_all add: tallied_def)
  have len: "int (length (ns # rs)) * (4 * B) = 4 * B + int (length rs) * (4 * B)" by (simp add: algebra_simps)
  have pos: "0 \<le> int (length rs) * (4 * B)" using B by simp
  note b = Cons.prems(4-6) [unfolded len]
  have st: "tallied (absorb env ranges (n, c) s)
      (t + increment total_gain (previous s) (n, c)) (u + increment (success_gain ranges) (previous s) (n, c))
      (h + increment shed_gain (previous s) (n, c))"
    by (rule absorb_tallied [OF Cons.prems(1) c(1) e assms(3)]; use b pos nn B in linarith)
  have inc: "increment g (previous s) (n, c) = increment g prev (n, c)" for g
    using c(2) by (simp add: increment_def)
  have ib: "increment total_gain prev (n, c) \<le> B" "increment (success_gain ranges) prev (n, c) \<le> 4 * B"
    "increment shed_gain prev (n, c) \<le> B"
    by (rule increment_bounds; use c e B b pos nn in \<open>simp; linarith?\<close>)+
  have keep: "exact B c' \<and> map_of (previous (absorb env ranges (n, c) s)) n' = map_of prev n'"
    if "(n', c') \<in> set rs" for n' c'
  proof -
    have "n' \<noteq> n" using Cons.prems(2) that by (force simp: ns)
    then show ?thesis using Cons.prems(3) [of n' c'] that by (simp add: absorb_previous)
  qed
  have "tallied (fold (absorb env ranges) rs (absorb env ranges (n, c) s))
      (t + increment total_gain prev (n, c) + gained total_gain prev rs)
      (u + increment (success_gain ranges) prev (n, c) + gained (success_gain ranges) prev rs)
      (h + increment shed_gain prev (n, c) + gained shed_gain prev rs)"
    by (rule Cons.IH [OF st [unfolded inc] _ keep]) (use Cons.prems(2) b ib B in \<open>simp_all add: ns\<close>)
  then show ?case by (simp add: ns gained_def add.assoc)
qed

end
