(* ===== verification/Scraper_Props.thy ===== *)
theory Scraper_Props
  imports Scraper_Reads Sample_Policy
begin

section \<open>Properties of the scraper\<close>

text \<open>
  What a snapshot holds, what one \<open>ReadSignals\<close> call computes from the previous and the current
  snapshots, and two consequences of how the shared \<open>previous\<close> map and the clock are used.
\<close>

subsection \<open>Snapshots\<close>

text \<open>C22. Reading back what Envoy prints: on any exposition of request counters (with arbitrary other
  labels), shed counters and skipped lines, whose values stay below 2^53 in total, the snapshot holds
  exactly the sum of the requests per status class, the sum over the four classes as the total, and
  the sum of the shed counters.\<close>

theorem parseMetrics_reads_exposition:
  assumes "list_all metric_ok ms"
    and "class_sum ms 2 + class_sum ms 3 + class_sum ms 4 + class_sum ms 5 \<le> 2 ^ 53" "shed_sum ms \<le> 2 ^ 53"
  shows "snap_is (parseMetrics (exposition ms) now) (class_sum ms) (shed_sum ms) \<and>
    scrapedAt (parseMetrics (exposition ms) now) = now"
  by (rule parseMetrics_exposition [OF assms])

definition sample_metrics :: "metric list" where
  "sample_metrics = [Other ''# TYPE istio_requests_total counter'',
     Requests ''reporter=\"destination\",'' ''200'' '',grpc=\"\"'' 97, Requests [] ''503'' [] 2,
     Requests [] ''204'' [] 1, Shed ''cluster=\"x\"'' 4]"

theorem parseMetrics_reads_exposition_witness:
  "snap_is (parseMetrics (exposition sample_metrics) 7) (class_sum sample_metrics) 4 \<and>
   class_sum sample_metrics 2 = 98 \<and> class_sum sample_metrics 5 = 2"
proof -
  have ok: "list_all metric_ok sample_metrics" by code_simp
  have s: "class_sum sample_metrics 2 = 98" "class_sum sample_metrics 3 = 0" "class_sum sample_metrics 4 = 0"
    "class_sum sample_metrics 5 = 2" "shed_sum sample_metrics = 4" by code_simp+
  with parseMetrics_reads_exposition [OF ok, of 7] show ?thesis by simp
qed

subsection \<open>One call\<close>

lemma scrapes_length: "length (scrapes env pods k r) \<le> length pods"
  by (induction pods arbitrary: k r) (auto simp: Let_def le_SucI split: sum.splits)

lemma scrapes_distinct: "distinct (map pod_Name pods) \<Longrightarrow> distinct (map fst (scrapes env pods k r))"
proof (induction pods arbitrary: k r)
  case (Cons pod pods)
  have "pod_Name pod \<notin> set (map fst (scrapes env pods k' r'))" for k' r'
    using scrapes_names [of env pods k' r'] Cons.prems by auto
  with Cons show ?case by (auto simp: Let_def split: sum.splits)
qed simp

lemma gained_le:
  assumes "\<And>n c. (n, c) \<in> set rs \<Longrightarrow> exact B c" "\<And>n p. map_of prev n = Some p \<Longrightarrow> exact B p" "0 \<le> B"
  shows "gained total_gain prev rs \<le> int (length rs) * B"
  using assms(1)
proof (induction rs)
  case (Cons ns rs)
  have "exact B (snd ns)" using Cons.prems [of "fst ns" "snd ns"] by simp
  then have "increment total_gain prev ns \<le> B"
    using assms(2,3) by (auto simp: increment_def exact_def split: option.splits dest: assms(2))
  moreover have "gained total_gain prev rs \<le> int (length rs) * B"
    by (rule Cons.IH) (use Cons.prems in auto)
  ultimately show ?case by (simp add: gained_def algebra_simps)
qed (simp add: gained_def)

lemma capped_ratio:
  assumes "fint x T" "fint y U" "1 \<le> T" "0 \<le> U"
  defines "r \<equiv> (if flt (fof_int 1) (fdiv y x) then fof_int 1 else fdiv y x)"
  shows "is_fin r \<and> 0 \<le> fval r \<and> fval r \<le> 1 \<and>
    (if U \<le> T then rounds_to (U / T) r else fval r = 1)"
proof -
  have one: "fint (fof_int 1) 1" by (rule fint_of_int) simp
  have xy: "float_ok x" "is_fin x" "fval x = T" "float_ok y" "is_fin y" "fval y = U"
    using assms(1,2) by (simp_all add: fint_def)
  have rt: "rounds_to (U / T) (fdiv y x)" using fdiv_rounds [of y x] xy assms(3) by simp
  show ?thesis
  proof (cases "U \<le> T")
    case True
    have "is_fin (fdiv y x) \<and> 0 \<le> fval (fdiv y x) \<and> fval (fdiv y x) \<le> 1"
      by (rule fdiv_unit_interval) (use xy True assms(3,4) in simp_all)
    then show ?thesis using one True rt unfolding r_def by (simp add: flt_iff fint_def)
  next
    case False
    have "fdiv y x = FInf False \<or> is_fin (fdiv y x)"
      using fdiv_nonneg [of y x] xy assms(3,4) by auto
    moreover have "1 \<le> fval (fdiv y x)" if "is_fin (fdiv y x)"
      using rounds_to_ge [OF rt, of "fof_int 1"] that one False assms(3) by (simp add: fint_def)
    moreover obtain s m e where "fof_int 1 = FFin s m e" using one by (cases "fof_int 1") (auto simp: fint_def)
    ultimately show ?thesis using one False unfolding r_def by (auto simp: flt_iff fint_def)
  qed
qed

lemma ReadSignals_ok:
  assumes "discoverPods env policy = Inr pods" "pods \<noteq> []"
  shows "fst (ReadSignals env policy prev) = scan_signals env (clock env 0) pods
    ((scan_pods env (success_ranges policy) pods (start_scan prev))
      \<lparr>previous := prune_pods pods (previous (scan_pods env (success_ranges policy) pods (start_scan prev)))\<rparr>)"
  using assms by (simp add: ReadSignals_def Let_def)

lemma scan_tallied:
  assumes "distinct (map pod_Name pods)" "is_order (class_order env)"
    and "list_all (\<lambda>(n, s). exact B s) (scraped env pods)" "list_all (\<lambda>(n, s). exact B s) prev"
    and "0 \<le> B" "int (length pods) * (4 * B) \<le> 2 ^ 53"
  shows "tallied (scan_pods env ranges pods (start_scan prev)) (gained total_gain prev (scraped env pods))
    (gained (success_gain ranges) prev (scraped env pods)) (gained shed_gain prev (scraped env pods))"
proof -
  let ?s = "core (start_scan prev)"
  have "int (length (scraped env pods)) * (4 * B) \<le> int (length pods) * (4 * B)"
    using scrapes_length [of env pods 0 1] assms(5) by (intro mult_right_mono) (simp_all add: scraped_def)
  then have b: "int (length (scraped env pods)) * (4 * B) \<le> 2 ^ 53" using assms(6) by linarith
  have e: "exact B p" if "map_of prev n = Some p" for n p
    using map_of_SomeD [OF that] assms(4) by (auto simp: list_all_iff)
  have "tallied ?s 0 0 0" by (simp add: tallied_def)
  moreover have "distinct (map fst (scraped env pods))"
    unfolding scraped_def by (rule scrapes_distinct [OF assms(1)])
  moreover have "exact B c \<and> map_of (previous ?s) n = map_of prev n" if "(n, c) \<in> set (scraped env pods)" for n c
    using assms(3) that by (auto simp: list_all_iff)
  ultimately have "tallied (fold (absorb env ranges) (scraped env pods) ?s) (0 + gained total_gain prev (scraped env pods))
      (0 + gained (success_gain ranges) prev (scraped env pods)) (0 + gained shed_gain prev (scraped env pods))"
    by (rule fold_tallied [OF _ _ assms(2)]) (use e b in auto)
  then show ?thesis by (simp add: tallied_def scan_pods_fields)
qed

text \<open>C17. Functional correctness of one scrape. With distinct pod names, exact counters bounded by B and
  4B times the number of pods within 2^53, in whatever order Go walks the class map: if the pods that
  are not new, not too recent and not restarted gained less than one request, the result is the safe
  default; otherwise the sample count is exactly the sum of their request increments, the success rate
  is the correctly rounded ratio of the increments in the policy's success classes to it, capped at
  1, and it lies between 0 and 1.\<close>

theorem ReadSignals_exact:
  assumes "discoverPods env policy = Inr pods" "pods \<noteq> []"
    and "distinct (map pod_Name pods)" "is_order (class_order env)"
    and "list_all (\<lambda>(n, s). exact B s) (scraped env pods)" "list_all (\<lambda>(n, s). exact B s) prev"
    and "0 \<le> B" "int (length pods) * (4 * B) \<le> 2 ^ 53"
    and "sg = fst (ReadSignals env policy prev)"
    and "T = gained total_gain prev (scraped env pods)"
    and "U = gained (success_gain (success_ranges policy)) prev (scraped env pods)"
  shows "if T < 1 then sg = safeDefaults (CollectedAt sg)
    else SampleCount sg = T \<and> is_fin (SuccessRate sg) \<and> 0 \<le> fval (SuccessRate sg) \<and> fval (SuccessRate sg) \<le> 1 \<and>
      (if U \<le> T then rounds_to (U / T) (SuccessRate sg) else fval (SuccessRate sg) = 1)"
proof -
  let ?s = "scan_pods env (success_ranges policy) pods (start_scan prev)"
  have t: "tallied ?s T U (gained shed_gain prev (scraped env pods))"
    unfolding assms(10,11) by (rule scan_tallied) (use assms in simp_all)
  have one: "fint (fof_int 1) 1" by (rule fint_of_int) simp
  have lt: "flt (totalRqDelta ?s) (fof_int 1) \<longleftrightarrow> T < 1"
    by (rule fint_flt [OF _ one]) (use t in \<open>simp add: tallied_def\<close>)
  show ?thesis
  proof (cases "T < 1")
    case True
    then show ?thesis unfolding assms(9) ReadSignals_ok [OF assms(1,2)]
      by (simp add: scan_signals_def lt safeDefaults_def)
  next
    case False
    then have sp: "scrapedPods ?s \<noteq> 0" using t by (auto simp: tallied_def)
    have f: "fint (totalRqDelta ?s) T" "fint (successDelta ?s) U" "0 \<le> U" using t by (simp_all add: tallied_def)
    define rate where "rate = fdiv (successDelta ?s) (totalRqDelta ?s)"
    have sr: "SuccessRate sg = (if flt (fof_int 1) rate then fof_int 1 else rate)"
      and sc: "SampleCount sg = fto_int64 (int64_of env) (totalRqDelta ?s)"
      unfolding assms(9) ReadSignals_ok [OF assms(1,2)]
      using sp lt False by (simp_all add: scan_signals_def rate_def Let_def)
    have "T \<le> int (length (scraped env pods)) * B"
      unfolding assms(10) by (rule gained_le) (use assms in \<open>auto dest: map_of_SomeD simp: list_all_iff\<close>)
    also have "\<dots> \<le> int (length pods) * B"
      using scrapes_length [of env pods 0 1] assms(7) by (intro mult_right_mono) (simp_all add: scraped_def)
    also have "\<dots> \<le> int (length pods) * (4 * B)" using assms(7) by (intro mult_left_mono) simp_all
    also note assms(8)
    finally have "SampleCount sg = T"
      unfolding sc using False by (intro fint_to_int64 [OF f(1)]) simp
    moreover have "is_fin (SuccessRate sg) \<and> 0 \<le> fval (SuccessRate sg) \<and> fval (SuccessRate sg) \<le> 1 \<and>
      (if U \<le> T then rounds_to (U / T) (SuccessRate sg) else fval (SuccessRate sg) = 1)"
      unfolding sr rate_def by (rule capped_ratio [OF f(1,2) _ f(3)]) (use False in simp)
    ultimately show ?thesis using False by simp
  qed
qed

definition exactly :: "int \<Rightarrow> counterSnapshot \<Rightarrow> bool" where
  \<comment> \<open>an executable check for \<open>exact\<close>\<close>
  "exactly B s \<longleftrightarrow> list_all (\<lambda>x. x = fof_int (cnt x) \<and> 0 \<le> cnt x \<and> cnt x \<le> B)
     [rqTotal s, rq2xx s, rq3xx s, rq4xx s, rq5xx s, shedTotal s]"

lemma list_all_exact:
  assumes "B \<le> 2 ^ 53" "list_all (\<lambda>(n, s). exactly B s) xs"
  shows "list_all (\<lambda>(n, s). exact B s) xs"
proof -
  have "fint x (cnt x)" if "x = fof_int (cnt x)" "0 \<le> cnt x" "cnt x \<le> B" for x
    using fint_of_int [of "cnt x"] that assms(1) by simp
  then show ?thesis using assms(2) by (auto simp: list_all_iff exactly_def exact_def)
qed

definition sample_body :: "int \<Rightarrow> int \<Rightarrow> string" where
  "sample_body good bad = exposition [Requests [] ''200'' [] good, Requests [] ''503'' [] bad]"

definition sample_env :: "(nat \<Rightarrow> string) \<Rightarrow> (nat \<Rightarrow> gotime) \<Rightarrow> Pod list \<Rightarrow> scrape_env" where
  \<comment> \<open>an environment that lists these pods and answers the \<open>i\<close>-th request with the \<open>i\<close>-th body\<close>
  "sample_env bodies clk pods = \<lparr>list_pods = (\<lambda>_ _. Inr pods), http_get = (\<lambda>i _. Response 200 (bodies i) None),
     clock = clk, class_order = rev, int64_of = (\<lambda>_. 0)\<rparr>"

definition sample_pod :: "string \<Rightarrow> Pod" where
  "sample_pod n = \<lparr>pod_Name = n, pod_Phase = ''Running'', pod_IP = ''10.0.0.1''\<rparr>"

definition sample_previous :: Scraper where
  "sample_previous = [(''a'', parseMetrics (sample_body 100 10) 0)]"

theorem ReadSignals_exact_witness:
  "let sg = fst (ReadSignals (sample_env (\<lambda>_. sample_body 190 20) (\<lambda>n. 30 * second) [sample_pod ''a''])
       (sample_policy ''open'') sample_previous)
   in SampleCount sg = 100 \<and> rounds_to (90 / 100) (SuccessRate sg)"
proof -
  let ?env = "sample_env (\<lambda>_. sample_body 190 20) (\<lambda>n. 30 * second) [sample_pod ''a'']"
  let ?p = "sample_policy ''open''"
  have d: "discoverPods ?env ?p = Inr [sample_pod ''a'']"
    by (simp add: discoverPods_def sample_env_def)
  have o: "is_order (class_order ?env)" by (simp add: sample_env_def)
  have e: "list_all (\<lambda>(n, s). exact 1000 s) (scraped ?env [sample_pod ''a''])"
    "list_all (\<lambda>(n, s). exact 1000 s) sample_previous"
    by (rule list_all_exact, simp, code_simp)+
  have T: "gained total_gain sample_previous (scraped ?env [sample_pod ''a'']) = 100"
    "gained (success_gain (success_ranges ?p)) sample_previous (scraped ?env [sample_pod ''a'']) = 90"
    by code_simp+
  from ReadSignals_exact [OF d _ _ o e _ _ refl refl refl] T
  show ?thesis by (simp add: Let_def)
qed

subsection \<open>The shared map and the interval\<close>

lemma fold_absorb_unknown:
  assumes "\<And>n. n \<in> fst ` set rs \<Longrightarrow> map_of (previous s) n = None" "distinct (map fst rs)"
  shows "scrapedPods (fold (absorb env ranges) rs s) = scrapedPods s"
  using assms
proof (induction rs arbitrary: s)
  case (Cons ns rs)
  obtain n c where ns: "ns = (n, c)" by (cases ns)
  have "map_of (previous s) n = None" using Cons.prems(1) by (simp add: ns)
  then have a: "absorb env ranges (n, c) s = s\<lparr>previous := AList.update n c (previous s)\<rparr>"
    by (simp add: absorb_def Let_def)
  have "scrapedPods (fold (absorb env ranges) rs (absorb env ranges (n, c) s)) =
      scrapedPods (absorb env ranges (n, c) s)"
    by (rule Cons.IH) (use Cons.prems in \<open>auto simp: ns a\<close>)
  then show ?case by (simp add: ns a)
qed simp

lemma ReadSignals_unknown_pods:
  assumes "discoverPods env policy = Inr pods" "distinct (map pod_Name pods)"
    and "\<And>n. n \<in> pod_Name ` set pods \<Longrightarrow> map_of prev n = None"
  shows "\<exists>t. fst (ReadSignals env policy prev) = safeDefaults t"
proof (cases "pods = []")
  case True
  then show ?thesis using ReadSignals_failed(1) [of env policy] assms(1) by blast
next
  case False
  have "fst ` set (scraped env pods) \<subseteq> pod_Name ` set pods" "distinct (map fst (scraped env pods))"
    unfolding scraped_def by (rule scrapes_names scrapes_distinct [OF assms(2)])+
  then have "scrapedPods (fold (absorb env (success_ranges policy)) (scraped env pods) (core (start_scan prev))) =
      scrapedPods (core (start_scan prev))"
    by (intro fold_absorb_unknown) (use assms(3) in auto)
  then show ?thesis unfolding ReadSignals_ok [OF assms(1) False]
    by (auto simp: scan_signals_def scan_pods_fields)
qed

text \<open>C37. The previous-counter map is shared by all policies and pruned to the pods of the policy read last:
  when one policy is read and then another whose pods are different, the second read has no previous
  counters and returns the safe default, whatever its pods report and however often they were read
  before. Two policies read alternately never get a sample.\<close>

theorem ReadSignals_interference:
  assumes "discoverPods env1 p1 = Inr pods1" "pods1 \<noteq> []"
    and "discoverPods env2 p2 = Inr pods2" "distinct (map pod_Name pods2)"
    and "pod_Name ` set pods1 \<inter> pod_Name ` set pods2 = {}"
  shows "SampleCount (fst (ReadSignals env2 p2 (snd (snd (ReadSignals env1 p1 prev))))) = 0"
proof -
  have "map_of (snd (snd (ReadSignals env1 p1 prev))) n = None" if "n \<in> pod_Name ` set pods2" for n
    using ReadSignals_previous [OF assms(1,2)] assms(5) that by auto
  from ReadSignals_unknown_pods [OF assms(3,4) this] show ?thesis by (auto simp: safeDefaults_def)
qed

theorem ReadSignals_interference_witness:
  "SampleCount (fst (ReadSignals (sample_env (\<lambda>_. sample_body 900 0) (\<lambda>n. 60 * second) [sample_pod ''b''])
       (sample_policy ''open'')
       (snd (snd (ReadSignals (sample_env (\<lambda>_. sample_body 190 20) (\<lambda>n. 30 * second) [sample_pod ''a''])
         (sample_policy ''open'') [(''b'', parseMetrics (sample_body 100 0) 0)]))))) = 0"
  by (rule ReadSignals_interference [of _ _ "[sample_pod ''a'']" _ _ "[sample_pod ''b'']"])
    (simp_all add: discoverPods_def sample_env_def, simp add: sample_pod_def)

lemma parseMetrics_time: "scrapedAt (parseMetrics body now) = now"
proof -
  have "scrapedAt (parse_line l s) = scrapedAt s" for l s
    by (auto simp: parse_line_def add_class_def split: option.splits)
  then have "scrapedAt (fold parse_line ls s) = scrapedAt s" for ls s
    by (induction ls arbitrary: s) simp_all
  then show ?thesis by (simp add: parseMetrics_def empty_snapshot_def)
qed

lemma scrapes_time:
  "(n, s) \<in> set (scrapes env pods k r) \<Longrightarrow> \<exists>i\<ge>r. scrapedAt s = clock env i"
proof (induction pods arbitrary: k r)
  case (Cons pod pods)
  have IH: "\<exists>i\<ge>r. scrapedAt s = clock env i" if "(n, s) \<in> set (scrapes env pods k' r')" "r \<le> r'" for k' r'
    using Cons.IH [OF that(1)] that(2) by (meson order_trans)
  have "scrapePod ip outcome t = Inr s' \<Longrightarrow> scrapedAt s' = t" for ip outcome t s'
    by (auto simp: scrapePod_def Let_def parseMetrics_time split: http_outcome.splits if_splits sum.splits)
  then show ?case using Cons.prems
    by (auto simp: Let_def split: if_splits sum.splits intro: IH)
qed simp

lemma oldest_from_fresh:
  "(\<And>pod s. pod \<in> set pods \<Longrightarrow> map_of m (pod_Name pod) = Some s \<Longrightarrow> now \<le> scrapedAt s) \<Longrightarrow>
    oldest_from m pods now = now"
proof (induction pods)
  case (Cons pod pods)
  have "oldest_from m pods now = now" by (rule Cons.IH) (use Cons.prems in auto)
  moreover have "\<not> scrapedAt s < now" if "map_of m (pod_Name pod) = Some s" for s
    using Cons.prems [of pod s] that by simp
  ultimately show ?case by (auto split: option.splits)
qed simp

lemma thirty_seconds: "duration_seconds (interval_duration now now) = fof_int 30"
proof -
  have "interval_duration now now = 30000000000" by (simp add: interval_duration_def second_def)
  moreover have "duration_seconds 30000000000 = fof_int 30" by code_simp
  ultimately show ?thesis by simp
qed

text \<open>The request rate ignores the scrape interval: when every listed pod is scraped in the call and the
  clock does not go backwards, a call that returns samples divides the request increment by 30 seconds
  whatever time has passed since the previous scrape (the snapshots whose age would give the interval
  have already been replaced by the ones just taken).\<close>

theorem ReadSignals_rate_ignores_interval:
  assumes "discoverPods env policy = Inr pods" "pods \<noteq> []"
    and "pod_Name ` set pods \<subseteq> fst ` set (scraped env pods)" "mono (clock env)"
    and "SampleCount (fst (ReadSignals env policy prev)) \<noteq> 0"
  shows "\<exists>delta. SampleCount (fst (ReadSignals env policy prev)) = fto_int64 (int64_of env) delta \<and>
    RPS (fst (ReadSignals env policy prev)) = fdiv delta (fof_int 30)"
proof -
  let ?s = "scan_pods env (success_ranges policy) pods (start_scan prev)"
  let ?m = "prune_pods pods (previous ?s)"
  have "oldest_from ?m pods (clock env 0) = clock env 0"
  proof (rule oldest_from_fresh)
    fix pod s assume pod: "pod \<in> set pods" and m: "map_of ?m (pod_Name pod) = Some s"
    from pod assms(3) have "pod_Name pod \<in> fst ` set (rev (scraped env pods))" by auto
    then have "map_of (rev (scraped env pods)) (pod_Name pod) \<noteq> None" by (simp only: map_of_eq_None_iff not_not)
    then obtain s1 where s1: "map_of (rev (scraped env pods)) (pod_Name pod) = Some s1" by blast
    then have "s = s1" using m pod
      by (simp add: map_of_prune scan_pods_fields fold_absorb_previous map_of_fold_update map_add_def)
    with map_of_SomeD [OF s1] obtain i where "scrapedAt s = clock env i"
      using scrapes_time [of "pod_Name pod" s1 env pods 0 1] by (auto simp: scraped_def)
    then show "clock env 0 \<le> scrapedAt s" using assms(4) by (simp add: monoD)
  qed
  then show ?thesis using assms(5) thirty_seconds unfolding ReadSignals_ok [OF assms(1,2)]
    by (auto simp: scan_signals_def oldestPreviousTimestamp_def Let_def safeDefaults_def split: if_splits)
qed

theorem ReadSignals_rate_ignores_interval_witness:
  "let sg = fst (ReadSignals (sample_env (\<lambda>_. sample_body 390 20) (\<lambda>n. 3000 * second) [sample_pod ''a''])
       (sample_policy ''open'') sample_previous)
   in SampleCount sg = 300 \<and> (\<exists>delta. fto_int64 (\<lambda>_. 0) delta = 300 \<and> RPS sg = fdiv delta (fof_int 30))"
proof -
  let ?env = "sample_env (\<lambda>_. sample_body 390 20) (\<lambda>n. 3000 * second) [sample_pod ''a'']"
  let ?p = "sample_policy ''open''"
  have d: "discoverPods ?env ?p = Inr [sample_pod ''a'']"
    by (simp add: discoverPods_def sample_env_def)
  have n: "SampleCount (fst (ReadSignals ?env ?p sample_previous)) = 300" by code_simp
  have "map fst (scraped ?env [sample_pod ''a'']) = [''a'']" by code_simp
  then have s: "pod_Name ` set [sample_pod ''a''] \<subseteq> fst ` set (scraped ?env [sample_pod ''a''])"
    by (simp add: sample_pod_def) (metis list.set_map list.simps(15) insertI1)
  have "mono (clock ?env)" by (simp add: sample_env_def mono_def)
  from ReadSignals_rate_ignores_interval [OF d _ s this, of sample_previous] n obtain delta where
    "fto_int64 (int64_of ?env) delta = 300" "RPS (fst (ReadSignals ?env ?p sample_previous)) = fdiv delta (fof_int 30)"
    by auto
  moreover have "int64_of ?env = (\<lambda>_. 0)" by (simp add: sample_env_def)
  ultimately show ?thesis using n unfolding Let_def by metis
qed

end
