(* ===== verification/Signal_Poller.thy ===== *)
theory Signal_Poller
  imports Signal_Scraper
begin

section \<open>The poller (internal/signal/poller.go)\<close>

text \<open>
  A poller ticks, scrapes, and passes a signal on only after enough consecutive breaching (or, while
  firing, clean) scrapes. Its output is a channel of capacity one holding the freshest signal. \<open>tick\<close>
  is one iteration of the loop of \<open>Run\<close>; \<open>run_step\<close> is the loop with its ticker and its context,
  and \<open>send_step\<close> is the non-blocking send interleaved with a consumer. The Go counters are
  64-bit: they would need 2^63 ticks to wrap, and are integers here.
\<close>

subsection \<open>Configuration\<close>

definition DefaultPollInterval :: duration where "DefaultPollInterval = 500 * millisecond"
definition DefaultConsecutiveBreaches :: int where "DefaultConsecutiveBreaches = 3"
definition DefaultConsecutiveRecoveries :: int where "DefaultConsecutiveRecoveries = 4"
definition minPollInterval :: duration where "minPollInterval = 100 * millisecond"
definition maxPollInterval :: duration where "maxPollInterval = 10 * second"

record PollerConfig =
  PollInterval :: duration
  ConsecutiveBreaches :: int
  ConsecutiveRecoveries :: int

definition withDefaults :: "PollerConfig \<Rightarrow> PollerConfig" where
  "withDefaults c =
     (let c1 = (if PollInterval c < minPollInterval \<or> maxPollInterval < PollInterval c
                then c\<lparr>PollInterval := DefaultPollInterval\<rparr> else c);
          c2 = (if ConsecutiveBreaches c1 \<le> 0 \<or> 20 < ConsecutiveBreaches c1
                then c1\<lparr>ConsecutiveBreaches := DefaultConsecutiveBreaches\<rparr> else c1)
      in if ConsecutiveRecoveries c2 \<le> 0 \<or> 20 < ConsecutiveRecoveries c2
         then c2\<lparr>ConsecutiveRecoveries := DefaultConsecutiveRecoveries\<rparr> else c2)"

subsection \<open>State\<close>

record breachState =
  consecutiveBreach :: int
  consecutiveClean :: int
  firing :: bool

record Poller =
  cfg :: PollerConfig
  poller_policy :: AdaptivePolicy
  out :: "Signals option"  \<comment> \<open>the channel of capacity one\<close>
  poller_state :: breachState

definition NewPoller :: "AdaptivePolicy \<Rightarrow> PollerConfig \<Rightarrow> Poller" where
  "NewPoller policy c = \<lparr>cfg = withDefaults c, poller_policy = policy, out = None,
     poller_state = \<lparr>consecutiveBreach = 0, consecutiveClean = 0, firing = False\<rparr>\<rparr>"

subsection \<open>The breach condition\<close>

definition parseFloat :: "string \<Rightarrow> float64" where
  "parseFloat s = (if s = [] then fzero else (case sscanf_f s of None \<Rightarrow> fzero | Some f \<Rightarrow> f))"

fun breach_loop :: "TriggerConfig list \<Rightarrow> Signals \<Rightarrow> bool" where
  "breach_loop [] sg = False"
| "breach_loop (t # ts) sg = (case cond_SuccessRate (tr_When t) of
     None \<Rightarrow> breach_loop ts sg
   | Some r \<Rightarrow>
       if rc_Below r \<noteq> [] then
         (let threshold = parseFloat (rc_Below r) in
          if flt fzero threshold \<and> flt (SuccessRate sg) threshold then True
          else breach_loop ts sg)
       else breach_loop ts sg)"

definition isBreaching :: "AdaptivePolicy \<Rightarrow> Signals \<Rightarrow> bool" where
  "isBreaching policy sg =
     (if Triggers (Spec policy) = [] then False else breach_loop (Triggers (Spec policy)) sg)"

subsection \<open>The channel\<close>

definition try_send :: "Signals \<Rightarrow> Signals option \<Rightarrow> bool \<times> Signals option" where
  \<comment> \<open>\<open>select { case out <- sig: default: }\<close>\<close>
  "try_send sg ch = (case ch of None \<Rightarrow> (True, Some sg) | Some x \<Rightarrow> (False, Some x))"

definition try_receive :: "Signals option \<Rightarrow> Signals option" where
  \<comment> \<open>\<open>select { case <-out: default: }\<close>\<close>
  "try_receive ch = None"

definition sendNonBlocking :: "Signals \<Rightarrow> Signals option \<Rightarrow> Signals option" where
  "sendNonBlocking sg ch =
     (let (sent, ch1) = try_send sg ch
      in if sent then ch1 else snd (try_send sg (try_receive ch1)))"

subsection \<open>One tick\<close>

definition debounce :: "Signals \<Rightarrow> Poller \<Rightarrow> Poller" where
  "debounce sg p =
     (let breaching = isBreaching (poller_policy p) sg;
          b = poller_state p;
          b1 = (if breaching
                then b\<lparr>consecutiveClean := 0, consecutiveBreach := consecutiveBreach b + 1\<rparr>
                else b\<lparr>consecutiveBreach := 0, consecutiveClean := consecutiveClean b + 1\<rparr>)
      in if \<not> firing b1 \<and> ConsecutiveBreaches (cfg p) \<le> consecutiveBreach b1
         then p\<lparr>poller_state := b1\<lparr>firing := True\<rparr>, out := sendNonBlocking sg (out p)\<rparr>
         else if firing b1 \<and> ConsecutiveRecoveries (cfg p) \<le> consecutiveClean b1
         then p\<lparr>poller_state := b1\<lparr>firing := False\<rparr>, out := sendNonBlocking sg (out p)\<rparr>
         else p\<lparr>poller_state := b1\<rparr>)"

definition tick_with :: "('e \<Rightarrow> AdaptivePolicy \<Rightarrow> 's \<Rightarrow> Signals \<times> 'x option \<times> 's) \<Rightarrow>
    'e \<Rightarrow> Poller \<times> 's \<Rightarrow> Poller \<times> 's" where
  \<comment> \<open>one tick over any signal source\<close>
  "tick_with read env ps =
     (case read env (poller_policy (fst ps)) (snd ps) of
        (sg, Some e, s') \<Rightarrow> (fst ps, s')
      | (sg, None, s') \<Rightarrow> (debounce sg (fst ps), s'))"

definition tick :: "scrape_env \<Rightarrow> Poller \<times> Scraper \<Rightarrow> Poller \<times> Scraper" where
  "tick env ps = tick_with ReadSignals env ps"

subsection \<open>Run\<close>

text \<open>The goroutine: while its context lives, it takes ticks; another party may read the channel, use
  the shared scraper, write to the policy whose pointer the poller was given, or cancel the context at
  any time. When a tick and the cancellation are both
  ready Go picks either.\<close>

record run_state =
  poller :: Poller
  scraper :: Scraper
  cancelled :: bool
  returned :: bool
  consumed :: "Signals list"

inductive run_step :: "run_state \<Rightarrow> run_state \<Rightarrow> bool" where
  run_tick: "\<not> returned s \<Longrightarrow> tick env (poller s, scraper s) = (p, sc) \<Longrightarrow>
    run_step s (s\<lparr>poller := p, scraper := sc\<rparr>)"
| run_done: "\<not> returned s \<Longrightarrow> cancelled s \<Longrightarrow> run_step s (s\<lparr>returned := True\<rparr>)"
| run_cancel: "run_step s (s\<lparr>cancelled := True\<rparr>)"
| run_consume: "out (poller s) = Some sg \<Longrightarrow>
    run_step s (s\<lparr>poller := (poller s)\<lparr>out := None\<rparr>, consumed := consumed s @ [sg]\<rparr>)"
| run_share: "run_step s (s\<lparr>scraper := sc\<rparr>)"
| run_policy: "run_step s (s\<lparr>poller := (poller s)\<lparr>poller_policy := policy\<rparr>\<rparr>)"

definition Run :: "Poller \<Rightarrow> Scraper \<Rightarrow> run_state \<Rightarrow> bool" where
  \<comment> \<open>the states the goroutine can reach\<close>
  "Run p sc s \<longleftrightarrow> run_step\<^sup>*\<^sup>*
     \<lparr>poller = p, scraper = sc, cancelled = False, returned = False, consumed = []\<rparr> s"

subsection \<open>The send, interleaved with its consumer\<close>

datatype send_pc = TrySend | Drain | Retry | Sent

inductive send_step :: "Signals \<Rightarrow> send_pc \<times> Signals option \<times> Signals list \<Rightarrow>
    send_pc \<times> Signals option \<times> Signals list \<Rightarrow> bool" for sg where
  send_first: "send_step sg (TrySend, None, r) (Sent, Some sg, r)"
| send_full: "send_step sg (TrySend, Some x, r) (Drain, Some x, r)"
| send_drain: "send_step sg (Drain, ch, r) (Retry, None, r)"
| send_retry: "send_step sg (Retry, None, r) (Sent, Some sg, r)"
| send_give_up: "send_step sg (Retry, Some x, r) (Sent, Some x, r)"
| send_consume: "send_step sg (pc, Some x, r) (pc, None, r @ [x])"

inductive_cases send_step_cases: "send_step sg s s'"

end
