(* ===== verification/Poller_Props.thy ===== *)
theory Poller_Props
  imports Signal_Poller Scraper_Props Trigger_Props
begin

section \<open>Correctness of the poller\<close>

text \<open>
  The locale \<open>signal_source\<close> is what the poller needs of its scraper; \<open>ReadSignals\<close> provides it. The
  debouncer is compared with a specification over the history of scrapes (\<open>should_fire\<close>), the
  breach test with the trigger evaluator, and the send with its consumer interleaved.
\<close>

subsection \<open>What the poller needs of a scraper\<close>

locale signal_source =
  fixes read :: "'e \<Rightarrow> AdaptivePolicy \<Rightarrow> 's \<Rightarrow> Signals \<times> 'x option \<times> 's"
  assumes error_keeps: "read e p s = (sg, Some x, s') \<Longrightarrow> s' = s"
    and error_no_samples: "read e p s = (sg, Some x, s') \<Longrightarrow> SampleCount sg = 0"
begin

lemma failed_tick: "fst (snd (read e (poller_policy p) s)) \<noteq> None \<Longrightarrow> tick_with read e (p, s) = (p, s)"
  by (cases "read e (poller_policy p) s") (auto simp: tick_with_def dest: error_keeps)

lemma tick_invariant:
  assumes "I p" "\<And>sg q. I q \<Longrightarrow> I (debounce sg q)"
  shows "I (fst (tick_with read e (p, s)))"
  using assms by (cases "read e (poller_policy p) s") (auto simp: tick_with_def split: option.splits)

lemma ticks_invariant:
  assumes "I p" "\<And>sg q. I q \<Longrightarrow> I (debounce sg q)"
  shows "I (fst (fold (tick_with read) es (p, s)))"
  using assms(1)
proof (induction es arbitrary: p s)
  case (Cons e es)
  then show ?case using tick_invariant [of I, OF Cons.prems assms(2), of e s]
    by (cases "tick_with read e (p, s)") simp
qed simp

end

interpretation scraping: signal_source ReadSignals
proof
  fix e p s sg x s'
  assume *: "ReadSignals e p s = (sg, Some x, s')"
  then obtain err where "discoverPods e p = Inl err \<or> discoverPods e p = Inr []"
    by (auto simp: ReadSignals_def Let_def split: sum.splits if_splits)
  from ReadSignals_failed [OF this, of s] * show "s' = s" "SampleCount sg = 0"
    by (auto simp: safeDefaults_def)
qed

subsection \<open>Configuration\<close>

definition config_ok :: "PollerConfig \<Rightarrow> bool" where
  "config_ok c \<longleftrightarrow> minPollInterval \<le> PollInterval c \<and> PollInterval c \<le> maxPollInterval \<and>
     1 \<le> ConsecutiveBreaches c \<and> ConsecutiveBreaches c \<le> 20 \<and>
     1 \<le> ConsecutiveRecoveries c \<and> ConsecutiveRecoveries c \<le> 20"

lemma withDefaults_ok: "config_ok (withDefaults c)"
  by (auto simp: withDefaults_def config_ok_def Let_def minPollInterval_def maxPollInterval_def
      DefaultPollInterval_def DefaultConsecutiveBreaches_def DefaultConsecutiveRecoveries_def
      millisecond_def second_def)

text \<open>Every poller runs with a legal configuration: withDefaults always yields an interval between
  100 ms and 10 s and counts between 1 and 20, and it changes a configuration exactly when some field is
  out of range.\<close>

theorem withDefaults_legal:
  "config_ok (cfg (NewPoller policy c)) \<and> (withDefaults c = c \<longleftrightarrow> config_ok c)"
proof -
  have "config_ok c \<Longrightarrow> withDefaults c = c" by (simp add: config_ok_def withDefaults_def)
  then show ?thesis using withDefaults_ok [of c] by (auto simp: NewPoller_def)
qed

subsection \<open>The debouncer\<close>

fun should_fire :: "int \<Rightarrow> int \<Rightarrow> bool list \<Rightarrow> bool" where
  \<comment> \<open>whether the poller is firing after these scrapes, newest first\<close>
  "should_fire n m [] = False"
| "should_fire n m (b # h) =
     (if should_fire n m h then trailing (map Not (b # h)) < m else n \<le> trailing (b # h))"

definition breaches :: "AdaptivePolicy \<Rightarrow> Signals list \<Rightarrow> bool list" where
  \<comment> \<open>the verdicts on a sequence of signals, newest first\<close>
  "breaches policy sgs = rev (map (isBreaching policy) sgs)"

abbreviation debounced :: "AdaptivePolicy \<Rightarrow> PollerConfig \<Rightarrow> Signals list \<Rightarrow> Poller" where
  "debounced policy c sgs \<equiv> fold debounce sgs (NewPoller policy c)"

lemma sendNonBlocking_fresh [simp]: "sendNonBlocking sg ch = Some sg"
  by (cases ch) (simp_all add: sendNonBlocking_def try_send_def try_receive_def)

lemma debounce_keeps [simp]: "cfg (debounce sg p) = cfg p" "poller_policy (debounce sg p) = poller_policy p"
  by (simp_all add: debounce_def Let_def)

lemma debounced_keeps [simp]:
  "cfg (debounced policy c sgs) = withDefaults c" "poller_policy (debounced policy c sgs) = policy"
  by (induction sgs rule: rev_induct) (simp_all add: NewPoller_def)

lemma debounce_step:
  assumes "poller_state p = \<lparr>consecutiveBreach = trailing h, consecutiveClean = trailing (map Not h), firing = f\<rparr>"
    and "f = should_fire n m h" "poller_policy p = policy"
    and "ConsecutiveBreaches (cfg p) = n" "ConsecutiveRecoveries (cfg p) = m" "1 \<le> n" "1 \<le> m"
  shows "poller_state (debounce sg p) =
      \<lparr>consecutiveBreach = trailing (isBreaching policy sg # h),
       consecutiveClean = trailing (map Not (isBreaching policy sg # h)),
       firing = should_fire n m (isBreaching policy sg # h)\<rparr>"
    "out (debounce sg p) = (if should_fire n m (isBreaching policy sg # h) \<noteq> f then Some sg else out p)"
  using assms by (auto simp: debounce_def Let_def)

lemma breaches_snoc [simp]: "breaches policy (sgs @ [sg]) = isBreaching policy sg # breaches policy sgs"
  by (simp add: breaches_def)

lemma debounced_state:
  fixes policy c sgs
  defines "n \<equiv> ConsecutiveBreaches (withDefaults c)" and "m \<equiv> ConsecutiveRecoveries (withDefaults c)"
  shows "poller_state (debounced policy c sgs) =
    \<lparr>consecutiveBreach = trailing (breaches policy sgs),
     consecutiveClean = trailing (map Not (breaches policy sgs)),
     firing = should_fire n m (breaches policy sgs)\<rparr>"
proof (induction sgs rule: rev_induct)
  case Nil
  then show ?case by (simp add: NewPoller_def breaches_def)
next
  case (snoc sg sgs)
  have ok: "1 \<le> n" "1 \<le> m" using withDefaults_ok [of c] by (simp_all add: config_ok_def n_def m_def)
  from debounce_step(1) [OF snoc.IH refl debounced_keeps(2) _ _ ok, of sg]
  show ?case by (simp add: n_def m_def)
qed

lemma debounced_spec:
  fixes policy c sgs sg
  defines "n \<equiv> ConsecutiveBreaches (withDefaults c)" and "m \<equiv> ConsecutiveRecoveries (withDefaults c)"
  shows "firing (poller_state (debounced policy c sgs)) = should_fire n m (breaches policy sgs) \<and>
    out (debounce sg (debounced policy c sgs)) =
      (if should_fire n m (breaches policy (sgs @ [sg])) \<noteq> should_fire n m (breaches policy sgs)
       then Some sg else out (debounced policy c sgs))"
proof -
  have ok: "1 \<le> n" "1 \<le> m" using withDefaults_ok [of c] by (simp_all add: config_ok_def n_def m_def)
  note st = debounced_state [where policy = policy and c = c and sgs = sgs, folded n_def m_def]
  show ?thesis using debounce_step(2) [OF st refl debounced_keeps(2) _ _ ok, of sg] st
    by (simp add: n_def m_def)
qed

text \<open>C18. The debouncer implements its specification: over any sequence of scraped signals from a new
  poller, it is firing exactly when the history says so (a confirmed breach needs the configured number
  of consecutive breaching scrapes, the recovery the configured number of consecutive clean ones), and
  a signal is emitted exactly at the changes of that state, replacing whatever the channel held.\<close>

theorem debounce_implements_spec:
  fixes policy c sgs sg
  defines "n \<equiv> ConsecutiveBreaches (withDefaults c)" and "m \<equiv> ConsecutiveRecoveries (withDefaults c)"
  shows "firing (poller_state (debounced policy c sgs)) = should_fire n m (breaches policy sgs) \<and>
    out (debounce sg (debounced policy c sgs)) =
      (if should_fire n m (breaches policy (sgs @ [sg])) \<noteq> should_fire n m (breaches policy sgs)
       then Some sg else out (debounced policy c sgs))"
  unfolding n_def m_def by (rule debounced_spec)

subsection \<open>The breach test\<close>

definition below_only :: "TriggerConfig \<Rightarrow> bool" where
  \<comment> \<open>the trigger's only condition is a success rate below a positive decimal\<close>
  "below_only t \<longleftrightarrow> (\<exists>a b k. digits a \<and> a \<noteq> [] \<and> digits b \<and> is_fin (dec_real_float a b) \<and>
     0 < fval (dec_real_float a b) \<and>
     tr_When t = \<lparr>cond_SuccessRate = Some \<lparr>rc_Below = dec_string a b, rc_Above = [], rc_ConsecutiveSamples = k\<rparr>,
       cond_ServiceLatencyMs = None, cond_RPSAbove = None\<rparr>)"

lemma breach_loop_Cons:
  "breach_loop (t # ts) sg \<longleftrightarrow> breach_loop [t] sg \<or> breach_loop ts sg"
  by (auto simp: Let_def split: option.splits)

lemma breach_loop_iff: "breach_loop ts sg \<longleftrightarrow> (\<exists>t \<in> set ts. breach_loop [t] sg)"
proof (induction ts)
  case (Cons t ts)
  then show ?case by (subst breach_loop_Cons) simp
qed simp

lemma breach_loop_rate: "SuccessRate sg = SuccessRate sg' \<Longrightarrow> breach_loop ts sg = breach_loop ts sg'"
proof (induction ts)
  case (Cons t ts)
  show ?case by (simp only: breach_loop.simps Cons.IH [OF Cons.prems] Cons.prems)
qed simp

lemma isBreaching_rate: "SuccessRate sg = SuccessRate sg' \<Longrightarrow> isBreaching policy sg = isBreaching policy sg'"
  unfolding isBreaching_def by (simp only: breach_loop_rate [of sg sg'])

lemma breach_one:
  assumes "below_only t"
  shows "breach_loop [t] sg \<longleftrightarrow> holds sg t"
proof -
  from assms obtain a b k where d: "digits a" "a \<noteq> []" "digits b" "is_fin (dec_real_float a b)"
    "0 < fval (dec_real_float a b)" and
    w: "tr_When t = \<lparr>cond_SuccessRate = Some \<lparr>rc_Below = dec_string a b, rc_Above = [], rc_ConsecutiveSamples = k\<rparr>,
       cond_ServiceLatencyMs = None, cond_RPSAbove = None\<rparr>" by (auto simp: below_only_def)
  have ne: "dec_string a b \<noteq> []" using d(2) by (simp add: dec_string_def)
  have "flt fzero (dec_real_float a b)" using d(4,5) by (simp add: flt_iff)
  then show ?thesis using sscanf_f_dec [OF d(1-4)] parse_float_dec [OF d(1-4)] ne
    by (simp add: w holds_def conditionMet_def rate_results_def latency_results_def rps_results_def Let_def
        parseFloat_def mustParseRate_def)
qed

text \<open>The poller's gate agrees with the trigger evaluator: when every trigger of the policy is a success
  rate below some positive decimal threshold, a scrape counts as a breach exactly when the condition of
  some trigger holds for it, although the two packages parse thresholds with different routines.\<close>

theorem isBreaching_agrees_with_triggers:
  assumes "list_all below_only (Triggers (Spec policy))"
  shows "isBreaching policy sg \<longleftrightarrow> list_ex (holds sg) (Triggers (Spec policy))"
  using assms breach_one
  by (auto simp: isBreaching_def breach_loop_iff [of "Triggers (Spec policy)"] list_all_iff list_ex_iff)

definition gate_policy :: "string \<Rightarrow> AdaptivePolicy" where
  \<comment> \<open>a policy with one trigger, below the given threshold\<close>
  "gate_policy th = (sample_policy ''open'')\<lparr>Spec := sample_spec\<lparr>Triggers := [below95\<lparr>tr_When :=
     \<lparr>cond_SuccessRate = Some \<lparr>rc_Below = th, rc_Above = [], rc_ConsecutiveSamples = 1\<rparr>,
       cond_ServiceLatencyMs = None, cond_RPSAbove = None\<rparr>\<rparr>]\<rparr>\<rparr>"

theorem isBreaching_agrees_with_triggers_witness:
  "isBreaching (gate_policy ''0.95'') (sample_signals 90) \<and>
   isBreaching (gate_policy ''0.95'') (sample_signals 90) =
     list_ex (holds (sample_signals 90)) (Triggers (Spec (gate_policy ''0.95'')))"
proof -
  have d: "digits ''0''" "digits ''95''" "dec_string ''0'' ''95'' = ''0.95''"
    by (simp_all add: digits_def is_dec_code char_code_def dec_string_def)
  have f: "dec_real_float ''0'' ''95'' = flit 95 100" by code_simp
  have r: "is_fin (flit 95 100)" by code_simp
  have "flt fzero (flit 95 100)" by code_simp
  then have "0 < fval (flit 95 100)" using r by (simp add: flt_iff)
  with d f r have "list_all below_only (Triggers (Spec (gate_policy ''0.95'')))"
    by (simp add: gate_policy_def below_only_def) (metis f list.distinct(1))
  from isBreaching_agrees_with_triggers [OF this, of "sample_signals 90"]
  moreover have "isBreaching (gate_policy ''0.95'') (sample_signals 90)" by code_simp
  ultimately show ?thesis by blast
qed

text \<open>An idle service is reported as breached: if a trigger's threshold lies above the default rate that
  stands in for missing data, then the configured number of scrapes without any sample makes the poller
  fire and emit a signal, and the trigger evaluator, given that signal, never switches on it.\<close>

theorem poller_idle_breach:
  assumes "isBreaching policy (safeDefaults 0)"
    and "list_all (\<lambda>sg. sg = safeDefaults (CollectedAt sg)) sgs"
    and "int (length sgs) = ConsecutiveBreaches (withDefaults c)"
  shows "firing (poller_state (debounced policy c sgs)) \<and>
    (\<exists>sg. out (debounced policy c sgs) = Some sg \<and> SampleCount sg = 0 \<and>
      \<not> ShouldSwitch (fst (Evaluate policy sg clk st)))"
proof -
  have any: "isBreaching policy (safeDefaults t)" for t
    using assms(1) isBreaching_rate [of "safeDefaults 0" "safeDefaults t" policy] by (simp add: safeDefaults_def)
  have b: "breaches policy xs = replicate (length xs) True" if "set xs \<subseteq> set sgs" for xs
  proof -
    have "isBreaching policy sg" if "sg \<in> set xs" for sg
      using assms(2) \<open>set xs \<subseteq> set sgs\<close> that any [of "CollectedAt sg"] by (auto simp: list_all_iff subset_iff)
    then have "map (isBreaching policy) xs = map (\<lambda>_. True) xs" by (intro map_cong) auto
    then show ?thesis by (simp add: breaches_def map_replicate_const)
  qed
  have tr: "trailing (replicate k True) = int k" "trailing (map Not (replicate k True)) = 0" for k
    by (induction k) simp_all
  have quiet: "\<not> should_fire n m (replicate k True)" if "int k < n" for n m k
    using that by (induction k) (auto simp: tr)
  let ?n = "ConsecutiveBreaches (withDefaults c)" and ?m = "ConsecutiveRecoveries (withDefaults c)"
  have "1 \<le> ?n" using withDefaults_ok [of c] by (simp add: config_ok_def)
  with assms(3) obtain ys sg where sgs: "sgs = ys @ [sg]" by (cases sgs rule: rev_cases) auto
  have ys: "int (length ys) < ?n" using assms(3) by (simp add: sgs)
  have "\<not> should_fire ?n ?m (breaches policy ys)" "should_fire ?n ?m (breaches policy sgs)"
    using b [of ys] b [of sgs] quiet [OF ys] tr(1) [of "length ys"] assms(3) by (auto simp: sgs)
  then have "out (debounced policy c sgs) = Some sg" "firing (poller_state (debounced policy c sgs))"
    using debounced_spec [where policy = policy and c = c and sgs = ys and sg = sg]
      debounced_state [where policy = policy and c = c and sgs = sgs] by (auto simp: sgs)
  moreover have "SampleCount sg = 0" using assms(2) by (simp add: sgs safeDefaults_def) (metis Signals.select_convs(5))
  ultimately show ?thesis using Evaluate_guarded by blast
qed

theorem poller_idle_breach_witness:
  "isBreaching (gate_policy ''0.995'') (safeDefaults 0) \<and>
   firing (poller_state (debounced (gate_policy ''0.995'')
     \<lparr>PollInterval = 0, ConsecutiveBreaches = 2, ConsecutiveRecoveries = 0\<rparr> [safeDefaults 1, safeDefaults 2]))"
proof -
  let ?c = "\<lparr>PollInterval = 0, ConsecutiveBreaches = 2, ConsecutiveRecoveries = 0\<rparr>"
  have b: "isBreaching (gate_policy ''0.995'') (safeDefaults 0)" by code_simp
  have "list_all (\<lambda>sg. sg = safeDefaults (CollectedAt sg)) [safeDefaults 1, safeDefaults 2]"
    by (simp add: safeDefaults_def)
  moreover have "int (length [safeDefaults 1, safeDefaults 2]) = ConsecutiveBreaches (withDefaults ?c)"
    by (simp add: withDefaults_def minPollInterval_def millisecond_def)
  ultimately show ?thesis using poller_idle_breach [OF b] b by blast
qed

subsection \<open>The running goroutine\<close>

definition poller_inv :: "PollerConfig \<Rightarrow> Poller \<Rightarrow> bool" where
  "poller_inv c p \<longleftrightarrow> cfg p = withDefaults c \<and>
     0 \<le> consecutiveBreach (poller_state p) \<and> 0 \<le> consecutiveClean (poller_state p) \<and>
     (consecutiveBreach (poller_state p) = 0 \<or> consecutiveClean (poller_state p) = 0) \<and>
     (if firing (poller_state p) then consecutiveClean (poller_state p) < ConsecutiveRecoveries (cfg p)
      else consecutiveBreach (poller_state p) < ConsecutiveBreaches (cfg p))"

lemma poller_inv_debounce: "poller_inv c p \<Longrightarrow> poller_inv c (debounce sg p)"
  using withDefaults_ok [of c] by (auto simp: poller_inv_def debounce_def config_ok_def Let_def)

lemma poller_inv_new: "poller_inv c (NewPoller policy c)"
  using withDefaults_ok [of c] by (simp add: poller_inv_def NewPoller_def config_ok_def)

lemma poller_inv_step:
  assumes "run_step s s'" "poller_inv c (poller s)" "returned s \<longrightarrow> cancelled s"
  shows "poller_inv c (poller s') \<and> (returned s' \<longrightarrow> cancelled s')"
  using assms(1)
proof (cases rule: run_step.cases)
  case (run_tick env p sc)
  then have "poller_inv c p"
    using scraping.tick_invariant [of "poller_inv c", OF assms(2) poller_inv_debounce, of env "scraper s"]
    by (simp add: tick_def)
  with run_tick assms(3) show ?thesis by simp
qed (use assms in \<open>auto simp: poller_inv_def\<close>)

text \<open>C31. Invariant of the goroutine: in every state it can reach, with ticks, scrape errors, a consumer,
  other users of the shared scraper, writes to the shared policy and the cancellation interleaved in any way, the configuration is
  the legal one it was built with, the breach and clean counters are non-negative and never both
  positive, the counter that would change the firing state is below its bound, and the goroutine
  returns only after its context was cancelled.\<close>

theorem Run_invariant:
  assumes "Run (NewPoller policy c) sc s"
  shows "poller_inv c (poller s) \<and> (returned s \<longrightarrow> cancelled s)"
  using assms unfolding Run_def
proof (induction rule: rtranclp_induct)
  case base
  then show ?case by (simp add: poller_inv_new)
next
  case (step y z)
  then show ?case using poller_inv_step by blast
qed

theorem Run_invariant_witness:
  "Run (NewPoller (sample_policy ''open'') \<lparr>PollInterval = 0, ConsecutiveBreaches = 0, ConsecutiveRecoveries = 0\<rparr>) []
     \<lparr>poller = NewPoller (sample_policy ''open'') \<lparr>PollInterval = 0, ConsecutiveBreaches = 0, ConsecutiveRecoveries = 0\<rparr>,
       scraper = [], cancelled = True, returned = True, consumed = []\<rparr> \<and>
   poller_inv \<lparr>PollInterval = 0, ConsecutiveBreaches = 0, ConsecutiveRecoveries = 0\<rparr>
     (NewPoller (sample_policy ''open'') \<lparr>PollInterval = 0, ConsecutiveBreaches = 0, ConsecutiveRecoveries = 0\<rparr>)"
proof -
  let ?c = "\<lparr>PollInterval = 0, ConsecutiveBreaches = 0, ConsecutiveRecoveries = 0\<rparr>"
  let ?p = "NewPoller (sample_policy ''open'') ?c"
  let ?s = "\<lambda>a b. \<lparr>poller = ?p, scraper = [], cancelled = a, returned = b, consumed = []\<rparr>"
  have "run_step (?s False False) (?s True False)" using run_cancel [of "?s False False"] by simp
  moreover have "run_step (?s True False) (?s True True)" using run_done [of "?s True False"] by simp
  ultimately have "Run ?p [] (?s True True)"
    unfolding Run_def by (meson converse_rtranclp_into_rtranclp r_into_rtranclp)
  with Run_invariant [OF this] show ?thesis by simp
qed

subsection \<open>The send\<close>

fun send_inv :: "Signals \<Rightarrow> Signals option \<Rightarrow> send_pc \<times> Signals option \<times> Signals list \<Rightarrow> bool" where
  \<comment> \<open>what the consumer has read and the channel holds, at each point of the send\<close>
  "send_inv sg ch0 (pc, ch, r) \<longleftrightarrow>
     (if pc = Sent
      then (ch = Some sg \<and> set r \<subseteq> set_option ch0) \<or> (ch = None \<and> (\<exists>r0. r = r0 @ [sg] \<and> set r0 \<subseteq> set_option ch0))
      else if pc = Retry then ch = None \<and> set r \<subseteq> set_option ch0
      else (ch = ch0 \<and> r = []) \<or> (ch = None \<and> set r \<subseteq> set_option ch0))"

lemma send_inv_step:
  assumes "send_step sg s s'" "send_inv sg ch0 s"
  shows "send_inv sg ch0 s'"
  using assms by (elim send_step_cases) (auto split: if_splits)

text \<open>The send never loses the fresh signal: however the consumer's reads interleave with the three
  channel operations of sendNonBlocking, when the send is over the fresh signal is either in the channel
  or the last thing the consumer read, and the consumer read nothing else than the signal that was pending
  before. Without a consumer the channel holds the fresh signal.\<close>

theorem sendNonBlocking_delivers_freshest:
  assumes "(send_step sg)\<^sup>*\<^sup>* (TrySend, ch0, []) (Sent, ch, r)"
  shows "((ch = Some sg \<and> set r \<subseteq> set_option ch0) \<or>
      (ch = None \<and> (\<exists>r0. r = r0 @ [sg] \<and> set r0 \<subseteq> set_option ch0))) \<and> sendNonBlocking sg ch0 = Some sg"
proof -
  have "send_inv sg ch0 s" if "(send_step sg)\<^sup>*\<^sup>* (TrySend, ch0, []) s" for s
    using that by (induction rule: rtranclp_induct) (auto intro: send_inv_step)
  from this [OF assms] show ?thesis by simp
qed

theorem sendNonBlocking_delivers_freshest_witness:
  "(send_step (sample_signals 90))\<^sup>*\<^sup>* (TrySend, Some (sample_signals 80), [])
     (Sent, Some (sample_signals 90), [sample_signals 80]) \<and>
   sendNonBlocking (sample_signals 90) (Some (sample_signals 80)) = Some (sample_signals 90)"
proof -
  let ?a = "sample_signals 80" and ?b = "sample_signals 90"
  have "send_step ?b (TrySend, Some ?a, []) (Drain, Some ?a, [])" by (rule send_full)
  moreover have "send_step ?b (Drain, Some ?a, []) (Drain, None, [?a])" using send_consume [of ?b Drain ?a "[]"] by simp
  moreover have "send_step ?b (Drain, None, [?a]) (Retry, None, [?a])" by (rule send_drain)
  moreover have "send_step ?b (Retry, None, [?a]) (Sent, Some ?b, [?a])" by (rule send_retry)
  ultimately have "(send_step ?b)\<^sup>*\<^sup>* (TrySend, Some ?a, []) (Sent, Some ?b, [?a])"
    by (meson converse_rtranclp_into_rtranclp r_into_rtranclp)
  with sendNonBlocking_delivers_freshest [OF this] show ?thesis by simp
qed

end
