(* ===== verification/Json_Value.thy ===== *)
theory Json_Value
  imports Go_Fmt
begin

section \<open>Dynamically typed values\<close>

text \<open>
  The values of Go's \<open>interface{}\<close> the program builds: the configuration trees it hands to the
  Kubernetes API and the runtime values it pushes. A map is an association list; \<open>fmt_v\<close> is
  \<open>fmt.Sprintf("%v", v)\<close>, which prints maps in the order of their keys.
\<close>

datatype jval =
    JBool bool
  | JInt int
  | JFloat float64
  | JStr string
  | JList "jval list"
  | JMap "(string \<times> jval) list"

fun fmt_v :: "jval \<Rightarrow> string" where
  "fmt_v (JBool b) = fmt_v_bool b"
| "fmt_v (JInt n) = fmt_d n"
| "fmt_v (JFloat f) = fmt_v_float f"
| "fmt_v (JStr s) = s"
| "fmt_v (JList vs) = ''['' @ str_join '' '' (map fmt_v vs) @ '']''"
| "fmt_v (JMap m) =
     ''map['' @ str_join '' '' (map (\<lambda>(k, s). k @ '':'' @ s)
        (sort_key fst (map (\<lambda>(k, v). (k, fmt_v v)) m))) @ '']''"

type_synonym jobject = "(string, jval) gomap"

fun jget :: "jval \<Rightarrow> string list \<Rightarrow> jval option" where
  \<comment> \<open>the value at a path of map keys\<close>
  "jget v [] = Some v"
| "jget (JMap m) (k # ks) = (case map_of m k of None \<Rightarrow> None | Some v \<Rightarrow> jget v ks)"
| "jget _ (k # ks) = None"

end
