(* ===== verification/Render_Common.thy ===== *)
theory Render_Common
  imports Json_Value Signal_Scraper
begin

section \<open>What the renderers share (internal/renderer/interface.go, istio.go)\<close>

text \<open>
  The result type, the constants, and the helpers both backends use. A rendered object is the
  record of the calls the renderer makes on it: its header fields, and the \<open>SetNested...\<close> calls in
  order, each a path and a value. What the Kubernetes library does with them is not modelled.
  Go's range over a label selector is the parameter \<open>ord\<close>.
\<close>

subsection \<open>Objects and results\<close>

record OwnerReference =
  or_APIVersion :: string
  or_Kind :: string
  or_Name :: string
  or_UID :: string
  or_Controller :: bool
  or_BlockOwnerDeletion :: bool

record Object =
  o_APIVersion :: string
  o_Kind :: string
  o_Name :: string
  o_Namespace :: string
  o_Labels :: "(string, string) gomap"
  o_Owners :: "OwnerReference list"
  o_Fields :: "(string list \<times> jval) list"  \<comment> \<open>the \<open>SetNested...\<close> calls, in order\<close>

record RenderResult =
  Resources :: "Object list"
  ManagedResourceRefs :: "ManagedResource list"
  ActiveFilterNames :: "string list"
  RTDSLayers :: "(string, jobject) gomap"

definition empty_result :: RenderResult where
  "empty_result = \<lparr>Resources = [], ManagedResourceRefs = [], ActiveFilterNames = [], RTDSLayers = []\<rparr>"

definition set_field :: "string list \<Rightarrow> jval \<Rightarrow> Object \<Rightarrow> Object" where
  \<comment> \<open>\<open>unstructured.SetNestedField/Slice/StringMap\<close> with its error ignored, as in the source\<close>
  "set_field path v ob = ob\<lparr>o_Fields := o_Fields ob @ [(path, v)]\<rparr>"

definition string_map :: "(string, string) gomap \<Rightarrow> jval" where
  "string_map m = JMap (map (\<lambda>(k, v). (k, JStr v)) m)"

definition ref_of :: "Object \<Rightarrow> ManagedResource" where
  "ref_of ob = \<lparr>mr_APIVersion = o_APIVersion ob, mr_Kind = o_Kind ob, mr_Name = o_Name ob,
     mr_Namespace = o_Namespace ob\<rparr>"

subsection \<open>Constants\<close>

definition istioNetworkingAPIVersion :: string where
  "istioNetworkingAPIVersion = ''networking.istio.io/v1alpha3''"
definition filterNameAdmissionControl :: string where
  "filterNameAdmissionControl = ''envoy.filters.http.admission_control''"
definition filterNameAdaptiveConcurrency :: string where
  "filterNameAdaptiveConcurrency = ''envoy.filters.http.adaptive_concurrency''"
definition filterNameHTTPConnManager :: string where
  "filterNameHTTPConnManager = ''envoy.filters.network.http_connection_manager''"
definition typeURLAdmissionControl :: string where
  "typeURLAdmissionControl =
     ''type.googleapis.com/envoy.extensions.filters.http.admission_control.v3.AdmissionControl''"
definition typeURLAdaptiveConcurrency :: string where
  "typeURLAdaptiveConcurrency =
     ''type.googleapis.com/envoy.extensions.filters.http.adaptive_concurrency.v3.AdaptiveConcurrency''"
definition typeURLAdmissionControlPerRoute :: string where
  "typeURLAdmissionControlPerRoute =
     ''type.googleapis.com/envoy.extensions.filters.http.admission_control.v3.AdmissionControlPerRoute''"
definition typeURLAdaptiveConcurrencyPerRoute :: string where
  "typeURLAdaptiveConcurrencyPerRoute =
     ''type.googleapis.com/envoy.extensions.filters.http.adaptive_concurrency.v3.AdaptiveConcurrencyPerRoute''"
definition rtdsKeyAdmissionEnabled :: string where
  "rtdsKeyAdmissionEnabled = ''admission_control.enabled''"
definition rtdsKeyAdmissionThreshold :: string where
  "rtdsKeyAdmissionThreshold = ''admission_control.sr_threshold''"
definition rtdsKeyAdmissionAggression :: string where
  "rtdsKeyAdmissionAggression = ''admission_control.aggression''"
definition rtdsKeyConcurrencyEnabled :: string where
  "rtdsKeyConcurrencyEnabled = ''adaptive_concurrency.enabled''"
definition labelManagedBy :: string where "labelManagedBy = ''app.kubernetes.io/managed-by''"
definition labelManagedByVal :: string where "labelManagedByVal = ''shedpilot''"
definition labelPolicy :: string where "labelPolicy = ''resilience.shedpilot.io/policy''"
definition labelPolicyNS :: string where "labelPolicyNS = ''resilience.shedpilot.io/policy-namespace''"
definition rtdsServiceHost :: string where
  "rtdsServiceHost = ''controller-manager-metrics-service.shedpilot-system.svc.cluster.local''"

subsection \<open>Helpers\<close>

definition admissionControlName :: "AdaptivePolicy \<Rightarrow> string" where
  "admissionControlName policy = Name policy @ ''-admission-control''"
definition adaptiveConcurrencyName :: "AdaptivePolicy \<Rightarrow> string" where
  "adaptiveConcurrencyName policy = Name policy @ ''-adaptive-concurrency''"
definition streamingProtectionName :: "AdaptivePolicy \<Rightarrow> string" where
  "streamingProtectionName policy = Name policy @ ''-streaming''"
definition statsFlushName :: "AdaptivePolicy \<Rightarrow> string" where
  "statsFlushName policy = Name policy @ ''-stats-flush''"
definition skipPathsName :: "AdaptivePolicy \<Rightarrow> string" where
  "skipPathsName policy = Name policy @ ''-skip-paths''"

definition ownerReferences :: "AdaptivePolicy \<Rightarrow> OwnerReference list" where
  "ownerReferences policy =
     [\<lparr>or_APIVersion = ''resilience.shedpilot.io/v1alpha1'', or_Kind = ''AdaptivePolicy'',
       or_Name = Name policy, or_UID = UID policy, or_Controller = True, or_BlockOwnerDeletion = True\<rparr>]"

definition resourceLabels :: "AdaptivePolicy \<Rightarrow> (string, string) gomap" where
  "resourceLabels policy =
     [(labelManagedBy, labelManagedByVal), (labelPolicy, Name policy), (labelPolicyNS, Namespace policy)]"

definition selectorToHost :: "((string \<times> string) list \<Rightarrow> (string \<times> string) list) \<Rightarrow>
    (string, string) gomap \<Rightarrow> string" where
  "selectorToHost ord selector = (case map_of selector ''app'' of
     Some app \<Rightarrow> app
   | None \<Rightarrow> (case ord selector of (k, v) # _ \<Rightarrow> v | [] \<Rightarrow> ''*''))"

definition mustParseFloat :: "string \<Rightarrow> float64" where
  "mustParseFloat s = (case sscanf_f s of Some f \<Rightarrow> f | None \<Rightarrow> fzero)"

definition new_object :: "AdaptivePolicy \<Rightarrow> string \<Rightarrow> string \<Rightarrow> string \<Rightarrow> Object" where
  \<comment> \<open>the six header setters every render function starts with\<close>
  "new_object policy apiVersion kind name =
     \<lparr>o_APIVersion = apiVersion, o_Kind = kind, o_Name = name, o_Namespace = Namespace policy,
      o_Labels = resourceLabels policy, o_Owners = ownerReferences policy, o_Fields = []\<rparr>"

definition layer_name :: "AdaptivePolicy \<Rightarrow> string \<Rightarrow> string" where
  \<comment> \<open>\<open>fmt.Sprintf("shedpilot-%s-<filter>", policy.Name)\<close>\<close>
  "layer_name policy suffix = ''shedpilot-'' @ Name policy @ ''-'' @ suffix"

definition http_ranges :: "AdmissionControlConfig \<Rightarrow> jval" where
  "http_ranges c =
     (let successRanges = (if length (ac_SuccessCodes c) = 0 then default_ranges else ac_SuccessCodes c)
      in JList (map (\<lambda>r. JMap [(''start'', JInt (sint (sr_Start r))), (''end'', JInt (sint (sr_End r)))])
            successRanges))"

subsection \<open>The Renderer interface\<close>

text \<open>An implementation is its four methods. \<open>Detect\<close> reads the cluster, whose answers to list calls are
  a parameter; \<open>Render\<close> returns an error or a result.\<close>

record cluster_view =
  cluster_pods :: "string \<Rightarrow> (string, string) gomap \<Rightarrow> string + Pod list"
  cluster_daemonsets :: "string \<Rightarrow> (string, string) gomap \<Rightarrow> string + int32 list"
    \<comment> \<open>the \<open>NumberReady\<close> of each matching DaemonSet\<close>

record Renderer =
  r_Name :: string
  r_Detect :: "cluster_view \<Rightarrow> string + bool"
  r_Render :: "((string \<times> string) list \<Rightarrow> (string \<times> string) list) \<Rightarrow> AdaptivePolicy \<Rightarrow> string + RenderResult"
  r_RTDSSupported :: bool

end
