(* ===== verification/Rtds_Server.thy ===== *)
theory Rtds_Server
  imports Json_Value
begin

section \<open>The runtime discovery server (internal/rtds/client.go)\<close>

text \<open>
  The server keeps the connected streams by node id, the current values of every layer, and a
  version. \<open>PushLayer\<close> and \<open>Push\<close> are the operations the controller calls, as functions of the
  server's state and of what the streams answer. \<open>rtds_step\<close> is the concurrent system: connections
  (\<open>StreamRuntime\<close>) and pushes, each cut at the points where the code releases its lock. Packing a
  message into a protobuf \<open>Any\<close> and sending it are parameters. The 64-bit version is an integer: it
  would need 2^63 pushes to wrap.
\<close>

subsection \<open>State\<close>

definition RTDSPort :: int where "RTDSPort = 15050"
definition rtdsTypeURL :: string where "rtdsTypeURL = ''type.googleapis.com/envoy.service.runtime.v3.Runtime''"

type_synonym layer_values = "(string, string) gomap"

text \<open>A stream is its node id and the identity of the gRPC stream its \<open>send\<close> writes to.\<close>

record stream =
  nodeID :: string
  send_to :: nat

record Server =
  streams :: "(string, stream) gomap"
  current :: "(string, layer_values) gomap"
  version :: int

definition NewServer :: Server where
  "NewServer = \<lparr>streams = [], current = [], version = 0\<rparr>"

record DiscoveryResponse =
  VersionInfo :: string
  TypeUrl :: string
  RuntimeName :: string
  RuntimeFields :: layer_values
  Nonce :: string

text \<open>What lies outside: packing errors, the orders of Go's map ranges, closed contexts and failing sends.\<close>

record rtds_env =
  pack_error :: "string \<Rightarrow> layer_values \<Rightarrow> string option"
  stream_order :: "(string \<times> stream) list \<Rightarrow> (string \<times> stream) list"
  layer_order :: "(string \<times> layer_values) list \<Rightarrow> (string \<times> layer_values) list"
  ctx_closed :: "nat \<Rightarrow> bool"
  send_error :: "nat \<Rightarrow> DiscoveryResponse \<Rightarrow> string option"

subsection \<open>Operations\<close>

definition buildResponse :: "rtds_env \<Rightarrow> Server \<Rightarrow> string \<Rightarrow> layer_values \<Rightarrow> string + DiscoveryResponse" where
  "buildResponse env s layerName vals =
     (let ver = fmt_d (version s) in
      case pack_error env layerName vals of
        Some e \<Rightarrow> Inl (''packing runtime: '' @ e)
      | None \<Rightarrow> Inr \<lparr>VersionInfo = ver, TypeUrl = rtdsTypeURL, RuntimeName = layerName,
          RuntimeFields = vals, Nonce = ''shedpilot-'' @ layerName @ ''-'' @ ver\<rparr>)"

definition currentSnapshot :: "Server \<Rightarrow> (string, layer_values) gomap" where
  "currentSnapshot s = current s"

fun pushToStream :: "rtds_env \<Rightarrow> Server \<Rightarrow> nat \<Rightarrow> (string \<times> layer_values) list \<Rightarrow>
    DiscoveryResponse list \<times> string option" where
  \<comment> \<open>the responses sent on a stream, and the error that stopped the replay\<close>
  "pushToStream env s i [] = ([], None)"
| "pushToStream env s i ((layerName, vals) # ls) = (case buildResponse env s layerName vals of
     Inl e \<Rightarrow> ([], Some e)
   | Inr resp \<Rightarrow> (case send_error env i resp of
       Some e \<Rightarrow> ([], Some e)
     | None \<Rightarrow> (let (rs, err) = pushToStream env s i ls in (resp # rs, err))))"

definition update_layer :: "string \<Rightarrow> layer_values \<Rightarrow> Server \<Rightarrow> Server" where
  \<comment> \<open>the locked section of \<open>PushLayer\<close>\<close>
  "update_layer layerName vals s =
     s\<lparr>current := AList.update layerName vals (current s), version := version s + 1\<rparr>"

definition push_targets :: "rtds_env \<Rightarrow> Server \<Rightarrow> stream list" where
  "push_targets env s = map snd (stream_order env (streams s))"

definition send_failures :: "rtds_env \<Rightarrow> DiscoveryResponse \<Rightarrow> stream list \<Rightarrow> string list" where
  "send_failures env resp sts =
     concat (map (\<lambda>st. if ctx_closed env (send_to st) then []
        else (case send_error env (send_to st) resp of
                None \<Rightarrow> [] | Some e \<Rightarrow> [nodeID st @ '': '' @ e])) sts)"

definition PushLayer :: "rtds_env \<Rightarrow> string \<Rightarrow> layer_values \<Rightarrow> Server \<Rightarrow>
    string option \<times> (nat \<times> DiscoveryResponse) list \<times> Server" where
  \<comment> \<open>the error, the responses delivered, and the new state\<close>
  "PushLayer env layerName vals s =
     (let s' = update_layer layerName vals s; sts = push_targets env s' in
      if length sts = 0 then (None, [], s')
      else (case buildResponse env s' layerName vals of
              Inl e \<Rightarrow> (Some (''building response: '' @ e), [], s')
            | Inr resp \<Rightarrow>
                (let errs = send_failures env resp sts;
                     sent = map (\<lambda>st. (send_to st, resp)) (filter (\<lambda>st. \<not> ctx_closed env (send_to st) \<and>
                              send_error env (send_to st) resp = None) sts)
                 in if 0 < length errs
                    then (Some (''push failed for some streams: ['' @ str_join '' '' errs @ '']''), sent, s')
                    else (None, sent, s'))))"

definition ConnectedCount :: "Server \<Rightarrow> int" where
  "ConnectedCount s = int (length (streams s))"

text \<open>The identity of a stream: the node id of its first request, or one made from the clock.\<close>

definition stream_node :: "string option \<Rightarrow> gotime \<Rightarrow> string" where
  "stream_node node now =
     (let n = (case node of None \<Rightarrow> [] | Some i \<Rightarrow> i)
      in if n = [] then ''unknown-'' @ fmt_d now else n)"

lemma stream_node_id [simp]: "n \<noteq> [] \<Longrightarrow> stream_node (Some n) now = n"
  by (simp add: stream_node_def)

text \<open>\<open>Start\<close> listens, serves in the background, and returns when the context ends or serving fails; which
  happens is its argument. The two other methods of the gRPC interface only return an error.\<close>

datatype start_outcome = ListenFailed string | ContextDone | ServeFailed string

definition Start :: "int \<Rightarrow> start_outcome \<Rightarrow> string option" where
  "Start port outcome = (case outcome of
     ListenFailed e \<Rightarrow> Some (''listening on :'' @ fmt_d port @ '': '' @ e)
   | ContextDone \<Rightarrow> None
   | ServeFailed e \<Rightarrow> Some e)"

definition DeltaRuntime :: string where "DeltaRuntime = ''delta runtime not supported''"
definition FetchRuntime :: string where "FetchRuntime = ''fetch runtime not supported''"

subsection \<open>The client the controller holds\<close>

record layerEntry =
  le_namespace :: string
  le_selector :: "(string, string) gomap"

record Client =
  has_server :: bool
  enabled :: bool
  registry :: "(string, layerEntry) gomap"

definition NewClient :: "bool \<Rightarrow> Client" where
  \<comment> \<open>the argument says whether the server pointer is non-nil\<close>
  "NewClient server = (if \<not> server then \<lparr>has_server = False, enabled = False, registry = []\<rparr>
     else \<lparr>has_server = True, enabled = True, registry = []\<rparr>)"

definition NewNoopClient :: Client where
  "NewNoopClient = \<lparr>has_server = False, enabled = False, registry = []\<rparr>"

definition Connected :: "Client \<Rightarrow> bool" where
  "Connected c \<longleftrightarrow> \<not> (\<not> enabled c \<or> \<not> has_server c)"

definition RegisterLayer :: "string \<Rightarrow> string \<Rightarrow> (string, string) gomap \<Rightarrow> Client \<Rightarrow> Client" where
  "RegisterLayer layerName ns selector c =
     c\<lparr>registry := AList.update layerName \<lparr>le_namespace = ns, le_selector = selector\<rparr> (registry c)\<rparr>"

definition Push :: "rtds_env \<Rightarrow> Client \<Rightarrow> string \<Rightarrow> jobject \<Rightarrow> Server \<Rightarrow>
    string option \<times> (nat \<times> DiscoveryResponse) list \<times> Server" where
  "Push env c layerName vals s =
     (if \<not> Connected c then (Some ''RTDS server not available'', [], s)
      else let strValues = map (\<lambda>(k, v). (k, fmt_v v)) vals;
               (err, sent, s') = PushLayer env layerName strValues s
           in (case err of
                 Some e \<Rightarrow> (Some (''RTDS push failed: '' @ e), sent, s')
               | None \<Rightarrow> (None, sent, s')))"

subsection \<open>The bootstrap patch\<close>

definition BootstrapPatch :: "string \<Rightarrow> jobject" where
  "BootstrapPatch rtdsServiceAddress =
     [(''layered_runtime'', JMap [(''layers'', JList [JMap
        [(''name'', JStr ''shedpilot-rtds''),
         (''rtds_layer'', JMap
           [(''name'', JStr ''shedpilot-runtime''),
            (''rtds_config'', JMap [(''api_config_source'', JMap
              [(''api_type'', JStr ''GRPC''), (''transport_api_version'', JStr ''V3''),
               (''grpc_services'', JList [JMap [(''envoy_grpc'', JMap
                  [(''cluster_name'', JStr ''shedpilot_rtds'')])]])])])])]])]),
      (''static_resources'', JMap [(''clusters'', JList [JMap
        [(''name'', JStr ''shedpilot_rtds''), (''type'', JStr ''STRICT_DNS''),
         (''connect_timeout'', JStr ''5s''), (''http2_protocol_options'', JMap []),
         (''load_assignment'', JMap
           [(''cluster_name'', JStr ''shedpilot_rtds''),
            (''endpoints'', JList [JMap [(''lb_endpoints'', JList [JMap [(''endpoint'', JMap
              [(''address'', JMap [(''socket_address'', JMap
                [(''address'', JStr rtdsServiceAddress), (''port_value'', JInt RTDSPort)])])])]])]])])]])])]"

subsection \<open>Connections and pushes, interleaved\<close>

text \<open>
  A connection registers and takes its snapshot in one locked section, replays the snapshot layer by
  layer outside the lock, then waits; on disconnect it deletes the entry of its node id. A push
  updates the state and collects its targets in one locked section, then builds the response (which
  reads the version again) and handles each target once, in any order: it sends the response, or leaves the
  target out because its context has ended or the send fails. \<open>delivered\<close> logs what each stream received.
\<close>

datatype phase = Replaying "(string \<times> layer_values) list" | Live | Closed

record connection =
  conn_node :: string
  conn_phase :: phase

record inflight =
  push_layer :: string
  push_values :: layer_values
  push_response :: "DiscoveryResponse option"
  push_to :: "nat list"

record world =
  server :: Server
  conns :: "nat \<Rightarrow> connection option"
  pushes :: "nat \<Rightarrow> inflight option"
  delivered :: "(nat \<times> DiscoveryResponse) list"

definition init_world :: world where
  "init_world = \<lparr>server = NewServer, conns = Map.empty, pushes = Map.empty, delivered = []\<rparr>"

definition initial_replay :: "rtds_env \<Rightarrow> (string, layer_values) gomap \<Rightarrow> (string \<times> layer_values) list" where
  \<comment> \<open>what a new stream is to be sent\<close>
  "initial_replay env cur = (if 0 < length cur then layer_order env cur else [])"

definition replay_stops :: "rtds_env \<Rightarrow> Server \<Rightarrow> nat \<Rightarrow> (string \<times> layer_values) list \<Rightarrow> bool" where
  \<comment> \<open>the snapshot is finished, or its next response fails to build or to be sent\<close>
  "replay_stops env s i ls \<longleftrightarrow> (case ls of
     [] \<Rightarrow> True
   | (l, vals) # _ \<Rightarrow> (case buildResponse env s l vals of
       Inl e \<Rightarrow> True
     | Inr resp \<Rightarrow> send_error env i resp \<noteq> None))"

definition closed_stream :: "world \<Rightarrow> nat \<Rightarrow> bool" where
  \<comment> \<open>the handler has returned, which ends the stream's context\<close>
  "closed_stream w i \<longleftrightarrow> (\<exists>c. conns w i = Some c \<and> conn_phase c = Closed)"

inductive rtds_step :: "rtds_env \<Rightarrow> world \<Rightarrow> world \<Rightarrow> bool" for env where
  connect: "conns w i = None \<Longrightarrow> n = stream_node node now \<Longrightarrow>
    rtds_step env w (w\<lparr>server := (server w)\<lparr>streams := AList.update n \<lparr>nodeID = n, send_to = i\<rparr> (streams (server w))\<rparr>,
      conns := (conns w)(i \<mapsto> \<lparr>conn_node = n,
        conn_phase = Replaying (initial_replay env (currentSnapshot (server w)))\<rparr>)\<rparr>)"
| replay: "conns w i = Some \<lparr>conn_node = n, conn_phase = Replaying ((l, vals) # ls)\<rparr> \<Longrightarrow>
    buildResponse env (server w) l vals = Inr resp \<Longrightarrow> send_error env i resp = None \<Longrightarrow>
    rtds_step env w (w\<lparr>conns := (conns w)(i \<mapsto> \<lparr>conn_node = n, conn_phase = Replaying ls\<rparr>),
      delivered := delivered w @ [(i, resp)]\<rparr>)"
| replay_over: "conns w i = Some \<lparr>conn_node = n, conn_phase = Replaying ls\<rparr> \<Longrightarrow> replay_stops env (server w) i ls \<Longrightarrow>
    rtds_step env w (w\<lparr>conns := (conns w)(i \<mapsto> \<lparr>conn_node = n, conn_phase = Live\<rparr>)\<rparr>)"
| disconnect: "conns w i = Some \<lparr>conn_node = n, conn_phase = Live\<rparr> \<Longrightarrow>
    rtds_step env w (w\<lparr>server := (server w)\<lparr>streams := AList.delete n (streams (server w))\<rparr>,
      conns := (conns w)(i \<mapsto> \<lparr>conn_node = n, conn_phase = Closed\<rparr>)\<rparr>)"
| push_begin: "pushes w k = None \<Longrightarrow>
    rtds_step env w (w\<lparr>server := update_layer l vals (server w),
      pushes := (pushes w)(k \<mapsto> \<lparr>push_layer = l, push_values = vals, push_response = None,
        push_to = map send_to (push_targets env (update_layer l vals (server w)))\<rparr>)\<rparr>)"
| push_build: "pushes w k = Some p \<Longrightarrow> push_response p = None \<Longrightarrow> push_to p \<noteq> [] \<Longrightarrow>
    buildResponse env (server w) (push_layer p) (push_values p) = Inr resp \<Longrightarrow>
    rtds_step env w (w\<lparr>pushes := (pushes w)(k \<mapsto> p\<lparr>push_response := Some resp\<rparr>)\<rparr>)"
| push_send: "pushes w k = Some p \<Longrightarrow> push_response p = Some resp \<Longrightarrow> i \<in> set (push_to p) \<Longrightarrow>
    \<not> ctx_closed env i \<and> send_error env i resp = None \<Longrightarrow>
    rtds_step env w (w\<lparr>pushes := (pushes w)(k \<mapsto> p\<lparr>push_to := remove1 i (push_to p)\<rparr>),
      delivered := delivered w @ [(i, resp)]\<rparr>)"
| push_drop: "pushes w k = Some p \<Longrightarrow> push_response p = Some resp \<Longrightarrow> i \<in> set (push_to p) \<Longrightarrow>
    ctx_closed env i \<or> closed_stream w i \<or> send_error env i resp \<noteq> None \<Longrightarrow>
    rtds_step env w (w\<lparr>pushes := (pushes w)(k \<mapsto> p\<lparr>push_to := remove1 i (push_to p)\<rparr>)\<rparr>)"

definition reachable :: "rtds_env \<Rightarrow> world \<Rightarrow> bool" where
  "reachable env w \<longleftrightarrow> (rtds_step env)\<^sup>*\<^sup>* init_world w"

end
