(* ===== verification/Render_Istio.thy ===== *)
theory Render_Istio
  imports Render_Common Rtds_Server
begin

section \<open>The Istio backend (internal/renderer/istio.go)\<close>

text \<open>
  \<open>IstioRender\<close> builds the EnvoyFilters and the DestinationRule of a policy, in the order of the
  source, with the runtime layer of each filter. The sub-renderers return an error or a value, as in
  Go, although none of them fails.
\<close>

definition listenerContext :: "MeshMode \<Rightarrow> string" where
  "listenerContext mode = ''SIDECAR_INBOUND''"

definition IstioDetect :: "cluster_view \<Rightarrow> string + bool" where
  "IstioDetect c = (case cluster_pods c ''istio-system'' [(''app'', ''istiod'')] of
     Inl e \<Rightarrow> Inr False
   | Inr pods \<Rightarrow> Inr (list_ex (\<lambda>pod. pod_Phase pod = ''Running'') pods))"

definition IstioRTDSSupported :: bool where "IstioRTDSSupported = True"

definition buildEnvoyFilter :: "AdaptivePolicy \<Rightarrow> string \<Rightarrow> string \<Rightarrow> string \<Rightarrow> jval \<Rightarrow> Object" where
  "buildEnvoyFilter policy name context filterName typedConfig =
     set_field [''spec'', ''configPatches'']
       (JList [JMap
         [(''applyTo'', JStr ''HTTP_FILTER''),
          (''match'', JMap
            [(''context'', JStr context),
             (''listener'', JMap [(''filterChain'', JMap [(''filter'', JMap
                [(''name'', JStr filterNameHTTPConnManager)])])])]),
          (''patch'', JMap
            [(''operation'', JStr ''INSERT_BEFORE''),
             (''value'', JMap [(''name'', JStr filterName), (''typed_config'', typedConfig)])])]])
       (set_field [''spec'', ''workloadSelector'', ''labels''] (string_map (Selector (Spec policy)))
         (new_object policy istioNetworkingAPIVersion ''EnvoyFilter'' name))"

definition admission_typed_config :: "AdaptivePolicy \<Rightarrow> AdmissionControlConfig \<Rightarrow> jval" where
  "admission_typed_config policy c =
     JMap [(''@type'', JStr typeURLAdmissionControl),
       (''enabled'', JMap [(''default_value'', JBool (\<not> IsDryRun policy)),
          (''runtime_key'', JStr rtdsKeyAdmissionEnabled)]),
       (''sampling_window'', JStr (EffectiveSuccessRateWindow policy)),
       (''sr_threshold'', JMap
          [(''default_value'', JMap [(''value'',
              JFloat (mustParseFloat (EffectiveSuccessRateThreshold policy)))]),
           (''runtime_key'', JStr rtdsKeyAdmissionThreshold)]),
       (''aggression'', JMap
          [(''default_value'', JFloat (mustParseFloat (EffectiveSheddingSpeed policy))),
           (''runtime_key'', JStr rtdsKeyAdmissionAggression)]),
       (''rps_threshold'', JMap [(''default_value'', JInt (sint (ac_MinRequestsPerSecond c))),
          (''runtime_key'', JStr ''admission_control.rps_threshold'')]),
       (''max_rejection_probability'', JMap [(''default_value'', JMap [(''value'',
          JFloat (mustParseFloat (ac_MaxRejectionPercent c)))])]),
       (''success_criteria'', JMap
          [(''http_criteria'', JMap [(''http_success_status'', http_ranges c)]),
           (''grpc_criteria'', JMap [(''grpc_success_status'', JList [JInt 0])])])]"

definition admission_layer :: "AdaptivePolicy \<Rightarrow> jobject" where
  "admission_layer policy =
     [(rtdsKeyAdmissionEnabled, JBool (\<not> IsDryRun policy)),
      (rtdsKeyAdmissionThreshold,
        JFloat (fdiv (mustParseFloat (EffectiveSuccessRateThreshold policy)) (fof_int 100))),
      (rtdsKeyAdmissionAggression, JFloat (mustParseFloat (EffectiveSheddingSpeed policy)))]"

definition renderAdmissionControl :: "AdaptivePolicy \<Rightarrow> string \<Rightarrow> string + Object \<times> jobject" where
  \<comment> \<open>the nil configuration is excluded by the caller's guard; Go would panic on it\<close>
  "renderAdmissionControl policy context = (case AdmissionControl (Spec policy) of
     None \<Rightarrow> Inl ''nil pointer dereference''
   | Some c \<Rightarrow> Inr (buildEnvoyFilter policy (admissionControlName policy) context
       filterNameAdmissionControl (admission_typed_config policy c), admission_layer policy))"

definition concurrency_typed_config :: "AdaptivePolicy \<Rightarrow> AdaptiveConcurrencyConfig \<Rightarrow> jval" where
  "concurrency_typed_config policy c =
     JMap [(''@type'', JStr typeURLAdaptiveConcurrency),
       (''gradient_controller_config'', JMap
          [(''sample_aggregate_percentile'', JMap
             [(''value'', JFloat (EnvoyValue (EffectiveLatencyPercentile policy)))]),
           (''concurrency_limit_params'', JMap
             ([(''concurrency_update_interval'', JStr (acc_ConcurrencyAdjustInterval c))] @
              (if 0 < sint (acc_ConcurrencyLimit c)
               then [(''max_concurrency_limit'', JInt (sint (acc_ConcurrencyLimit c)))] else []))),
           (''min_rtt_calc_params'', JMap
             [(''interval'', JStr (acc_LatencyBaselineInterval c)),
              (''request_count'', JInt (sint (acc_LatencyBaselineSampleSize c))),
              (''jitter'', JMap [(''value'', JFloat (fof_int (sint (acc_MeasurementJitter c))))])])]),
       (''enabled'', JMap [(''default_value'', JBool (\<not> IsDryRun policy)),
          (''runtime_key'', JStr rtdsKeyConcurrencyEnabled)])]"

definition concurrency_layer :: "AdaptivePolicy \<Rightarrow> jobject" where
  "concurrency_layer policy = [(rtdsKeyConcurrencyEnabled, JBool (\<not> IsDryRun policy))]"

definition renderAdaptiveConcurrency :: "AdaptivePolicy \<Rightarrow> string \<Rightarrow> string + Object \<times> jobject" where
  "renderAdaptiveConcurrency policy context = (case AdaptiveConcurrency (Spec policy) of
     None \<Rightarrow> Inl ''nil pointer dereference''
   | Some c \<Rightarrow> Inr (buildEnvoyFilter policy (adaptiveConcurrencyName policy) context
       filterNameAdaptiveConcurrency (concurrency_typed_config policy c), concurrency_layer policy))"

definition renderStatsFlush :: "AdaptivePolicy \<Rightarrow> Object" where
  "renderStatsFlush policy =
     (let bootstrapValue = AList.update ''stats_flush_on_admin'' (JBool True) (BootstrapPatch rtdsServiceHost) in
      set_field [''spec'', ''configPatches'']
        (JList [JMap
          [(''applyTo'', JStr ''BOOTSTRAP''),
           (''patch'', JMap [(''operation'', JStr ''MERGE''), (''value'', JMap bootstrapValue)])]])
        (set_field [''spec'', ''workloadSelector'', ''labels''] (string_map (Selector (Spec policy)))
          (new_object policy istioNetworkingAPIVersion ''EnvoyFilter'' (statsFlushName policy))))"

definition renderStreamingProtection :: "((string \<times> string) list \<Rightarrow> (string \<times> string) list) \<Rightarrow>
    AdaptivePolicy \<Rightarrow> string + Object" where
  "renderStreamingProtection ord policy = (case StreamingProtection (Spec policy) of
     None \<Rightarrow> Inl ''nil pointer dereference''
   | Some c \<Rightarrow>
       (let pool = [''spec'', ''trafficPolicy'', ''connectionPool'', ''http''];
            dr = new_object policy istioNetworkingAPIVersion ''DestinationRule'' (streamingProtectionName policy);
            dr1 = set_field [''spec'', ''host''] (JStr (selectorToHost ord (Selector (Spec policy)))) dr;
            dr2 = set_field (pool @ [''http2MaxRequests'']) (JInt (sint (sp_MaxConcurrentStreams c))) dr1;
            dr3 = set_field (pool @ [''http1MaxPendingRequests'']) (JInt (sint (sp_MaxPendingRequests c))) dr2
        in Inr (set_field (pool @ [''idleTimeout''])
             (JStr (fmt_d (sint (sp_StreamTimeoutSeconds c)) @ ''s'')) dr3)))"

definition skip_patch :: "string \<Rightarrow> string \<Rightarrow> jval" where
  "skip_patch context path =
     JMap [(''applyTo'', JStr ''HTTP_ROUTE''),
       (''match'', JMap [(''context'', JStr context)]),
       (''patch'', JMap
         [(''operation'', JStr ''INSERT_FIRST''),
          (''value'', JMap
            [(''match'', JMap [(''prefix'', JStr path)]),
             (''direct_response'', JMap [(''status'', JInt 200)]),
             (''typed_per_filter_config'', JMap
               [(filterNameAdmissionControl, JMap
                  [(''@type'', JStr typeURLAdmissionControlPerRoute), (''disabled'', JBool True)]),
                (filterNameAdaptiveConcurrency, JMap
                  [(''@type'', JStr typeURLAdaptiveConcurrencyPerRoute), (''disabled'', JBool True)])])])])]"

definition renderSkipPaths :: "AdaptivePolicy \<Rightarrow> string \<Rightarrow> AdmissionControlConfig \<Rightarrow> Object" where
  "renderSkipPaths policy context c =
     set_field [''spec'', ''configPatches''] (JList (map (skip_patch context) (ac_SkipPaths c)))
       (set_field [''spec'', ''workloadSelector'', ''labels''] (string_map (Selector (Spec policy)))
         (new_object policy istioNetworkingAPIVersion ''EnvoyFilter'' (skipPathsName policy)))"

subsection \<open>Render\<close>

definition istio_ref :: "AdaptivePolicy \<Rightarrow> string \<Rightarrow> string \<Rightarrow> ManagedResource" where
  "istio_ref policy kind name = \<lparr>mr_APIVersion = istioNetworkingAPIVersion, mr_Kind = kind,
     mr_Name = name, mr_Namespace = Namespace policy\<rparr>"

definition add_resource :: "Object \<Rightarrow> ManagedResource \<Rightarrow> RenderResult \<Rightarrow> RenderResult" where
  "add_resource ob ref res = res\<lparr>Resources := Resources res @ [ob],
     ManagedResourceRefs := ManagedResourceRefs res @ [ref]\<rparr>"

definition add_filter :: "string \<Rightarrow> RenderResult \<Rightarrow> RenderResult" where
  "add_filter f res = res\<lparr>ActiveFilterNames := ActiveFilterNames res @ [f]\<rparr>"

definition add_layer :: "string \<Rightarrow> jobject \<Rightarrow> RenderResult \<Rightarrow> RenderResult" where
  "add_layer n l res = res\<lparr>RTDSLayers := AList.update n l (RTDSLayers res)\<rparr>"

definition istio_admission :: "AdaptivePolicy \<Rightarrow> string \<Rightarrow> RenderResult \<Rightarrow> string + RenderResult" where
  "istio_admission policy context res =
     (if \<not> HasAdmissionControl policy then Inr res
      else case renderAdmissionControl policy context of
        Inl e \<Rightarrow> Inl (''rendering admission control: '' @ e)
      | Inr (ef, rtds) \<Rightarrow> Inr (add_layer (layer_name policy ''admission-control'') rtds
          (add_filter ''admission-control''
            (add_resource ef (istio_ref policy ''EnvoyFilter'' (admissionControlName policy)) res))))"

definition istio_concurrency :: "AdaptivePolicy \<Rightarrow> string \<Rightarrow> RenderResult \<Rightarrow> string + RenderResult" where
  "istio_concurrency policy context res =
     (if \<not> HasAdaptiveConcurrency policy then Inr res
      else case renderAdaptiveConcurrency policy context of
        Inl e \<Rightarrow> Inl (''rendering adaptive concurrency: '' @ e)
      | Inr (ef, rtds) \<Rightarrow> Inr (add_layer (layer_name policy ''adaptive-concurrency'') rtds
          (add_filter ''adaptive-concurrency''
            (add_resource ef (istio_ref policy ''EnvoyFilter'' (adaptiveConcurrencyName policy)) res))))"

definition istio_stats_flush :: "AdaptivePolicy \<Rightarrow> RenderResult \<Rightarrow> RenderResult" where
  "istio_stats_flush policy res =
     (if HasAdmissionControl policy \<or> HasAdaptiveConcurrency policy
      then add_resource (renderStatsFlush policy)
             (istio_ref policy ''EnvoyFilter'' (statsFlushName policy)) res
      else res)"

definition istio_skip_paths :: "AdaptivePolicy \<Rightarrow> string \<Rightarrow> RenderResult \<Rightarrow> RenderResult" where
  "istio_skip_paths policy context res = (case AdmissionControl (Spec policy) of
     None \<Rightarrow> res
   | Some c \<Rightarrow>
       if HasAdmissionControl policy \<and> 0 < length (ac_SkipPaths c)
       then add_resource (renderSkipPaths policy context c)
              (istio_ref policy ''EnvoyFilter'' (skipPathsName policy)) res
       else res)"

definition istio_streaming :: "((string \<times> string) list \<Rightarrow> (string \<times> string) list) \<Rightarrow>
    AdaptivePolicy \<Rightarrow> RenderResult \<Rightarrow> string + RenderResult" where
  "istio_streaming ord policy res =
     (if \<not> HasStreamingProtection policy then Inr res
      else case renderStreamingProtection ord policy of
        Inl e \<Rightarrow> Inl (''rendering streaming protection: '' @ e)
      | Inr dr \<Rightarrow> Inr (add_filter ''streaming-protection''
          (add_resource dr (istio_ref policy ''DestinationRule'' (streamingProtectionName policy)) res)))"

definition IstioRender :: "((string \<times> string) list \<Rightarrow> (string \<times> string) list) \<Rightarrow>
    AdaptivePolicy \<Rightarrow> string + RenderResult" where
  "IstioRender ord policy =
     (let context = listenerContext (EffectiveMeshMode policy) in
      case istio_admission policy context empty_result of
        Inl e \<Rightarrow> Inl e
      | Inr r1 \<Rightarrow> (case istio_concurrency policy context r1 of
          Inl e \<Rightarrow> Inl e
        | Inr r2 \<Rightarrow> istio_streaming ord policy
            (istio_skip_paths policy context (istio_stats_flush policy r2))))"

definition IstioRenderer :: Renderer where
  "IstioRenderer = \<lparr>r_Name = ''istio'', r_Detect = IstioDetect, r_Render = IstioRender,
     r_RTDSSupported = IstioRTDSSupported\<rparr>"

end
