(* ===== verification/Render_Cilium.thy ===== *)
theory Render_Cilium
  imports Render_Istio
begin

section \<open>The Cilium backend and backend selection (internal/renderer/cilium.go, detect.go)\<close>

text \<open>
  \<open>CiliumRender\<close> collects the filter configurations and embeds them in one CiliumEnvoyConfig.
  \<open>DetectAndBuild\<close> picks the backend: the one the policy names, else the first of Istio and Cilium
  that is present.
\<close>

definition ciliumAPIVersion :: string where "ciliumAPIVersion = ''cilium.io/v2alpha1''"
definition ciliumEnvoyConfigKind :: string where "ciliumEnvoyConfigKind = ''CiliumEnvoyConfig''"

definition ciliumEnvoyConfigName :: "AdaptivePolicy \<Rightarrow> string" where
  "ciliumEnvoyConfigName policy = ''shedpilot-'' @ Name policy"

definition CiliumDetect :: "cluster_view \<Rightarrow> string + bool" where
  "CiliumDetect c = (case cluster_daemonsets c ''kube-system'' [(''k8s-app'', ''cilium-envoy'')] of
     Inl e \<Rightarrow> Inr False
   | Inr dss \<Rightarrow> Inr (list_ex (\<lambda>ready. 0 < sint ready) dss))"

definition CiliumRTDSSupported :: bool where "CiliumRTDSSupported = False"

definition cilium_admission_config :: "AdaptivePolicy \<Rightarrow> AdmissionControlConfig \<Rightarrow> jval" where
  "cilium_admission_config policy c =
     JMap [(''@type'', JStr typeURLAdmissionControl),
       (''enabled'', JMap [(''default_value'', JBool (\<not> IsDryRun policy)),
          (''runtime_key'', JStr rtdsKeyAdmissionEnabled)]),
       (''sampling_window'', JStr (EffectiveSuccessRateWindow policy)),
       (''sr_threshold'', JMap
          [(''default_value'', JMap [(''value'',
              JFloat (fdiv (mustParseFloat (EffectiveSuccessRateThreshold policy)) (fof_int 100)))]),
           (''runtime_key'', JStr rtdsKeyAdmissionThreshold)]),
       (''aggression'', JMap
          [(''default_value'', JFloat (mustParseFloat (EffectiveSheddingSpeed policy))),
           (''runtime_key'', JStr rtdsKeyAdmissionAggression)]),
       (''rps_threshold'', JMap [(''default_value'', JInt (sint (ac_MinRequestsPerSecond c))),
          (''runtime_key'', JStr ''admission_control.rps_threshold'')]),
       (''max_rejection_probability'', JMap [(''default_value'', JMap [(''value'',
          JFloat (mustParseFloat (ac_MaxRejectionPercent c)))])]),
       (''success_criteria'', JMap
          [(''http_criteria'', JMap [(''http_success_status'', http_ranges c)]),
           (''grpc_criteria'', JMap [(''grpc_success_status'', JList [JInt 0])])])]"

definition buildAdmissionControlResource :: "AdaptivePolicy \<Rightarrow> string + jval \<times> jobject" where
  "buildAdmissionControlResource policy = (case AdmissionControl (Spec policy) of
     None \<Rightarrow> Inl ''nil pointer dereference''
   | Some c \<Rightarrow> Inr (cilium_admission_config policy c,
       [(rtdsKeyAdmissionEnabled, JBool (\<not> IsDryRun policy)),
        (rtdsKeyAdmissionThreshold,
          JFloat (fdiv (mustParseFloat (EffectiveSuccessRateThreshold policy)) (fof_int 100))),
        (rtdsKeyAdmissionAggression, JFloat (mustParseFloat (EffectiveSheddingSpeed policy)))]))"

definition cilium_concurrency_config :: "AdaptivePolicy \<Rightarrow> AdaptiveConcurrencyConfig \<Rightarrow> jval" where
  "cilium_concurrency_config policy c =
     JMap [(''@type'', JStr typeURLAdaptiveConcurrency),
       (''gradient_controller_config'', JMap
          [(''sample_aggregate_percentile'', JMap
             [(''value'', JFloat (EnvoyValue (EffectiveLatencyPercentile policy)))]),
           (''concurrency_limit_params'', JMap
             ([(''concurrency_update_interval'', JStr (acc_ConcurrencyAdjustInterval c))] @
              (if 0 < sint (acc_ConcurrencyLimit c)
               then [(''max_concurrency_limit'', JInt (sint (acc_ConcurrencyLimit c)))] else []))),
           (''min_rtt_calc_params'', JMap
             [(''interval'', JStr (acc_LatencyBaselineInterval c)),
              (''request_count'', JInt (sint (acc_LatencyBaselineSampleSize c))),
              (''jitter'', JMap [(''value'', JFloat (fof_int (sint (acc_MeasurementJitter c))))])])]),
       (''enabled'', JMap [(''default_value'', JBool (\<not> IsDryRun policy)),
          (''runtime_key'', JStr rtdsKeyConcurrencyEnabled)])]"

definition buildAdaptiveConcurrencyResource :: "AdaptivePolicy \<Rightarrow> string + jval \<times> jobject" where
  "buildAdaptiveConcurrencyResource policy = (case AdaptiveConcurrency (Spec policy) of
     None \<Rightarrow> Inl ''nil pointer dereference''
   | Some c \<Rightarrow> Inr (cilium_concurrency_config policy c,
       [(rtdsKeyConcurrencyEnabled, JBool (\<not> IsDryRun policy))]))"

definition router_filter :: jval where
  "router_filter = JMap [(''name'', JStr ''envoy.filters.http.router''),
     (''typed_config'', JMap [(''@type'',
        JStr ''type.googleapis.com/envoy.extensions.filters.http.router.v3.Router'')])]"

definition listener_resource :: "AdaptivePolicy \<Rightarrow> jval list \<Rightarrow> jval" where
  "listener_resource policy httpFilters =
     JMap [(''@type'', JStr ''type.googleapis.com/envoy.config.listener.v3.Listener''),
       (''name'', JStr (''shedpilot-'' @ Name policy)),
       (''filter_chains'', JList [JMap [(''filters'', JList [JMap
         [(''name'', JStr filterNameHTTPConnManager),
          (''typed_config'', JMap
            [(''@type'', JStr ''type.googleapis.com/envoy.extensions.filters.network.http_connection_manager.v3.HttpConnectionManager''),
             (''stat_prefix'', JStr (''shedpilot_'' @ Name policy)),
             (''http_filters'', JList httpFilters)])]])]])]"

definition buildCiliumEnvoyConfig :: "((string \<times> string) list \<Rightarrow> (string \<times> string) list) \<Rightarrow>
    AdaptivePolicy \<Rightarrow> jval list \<Rightarrow> string + Object" where
  "buildCiliumEnvoyConfig ord policy filterResources =
     (let services = JList [JMap [(''name'', JStr (selectorToHost ord (Selector (Spec policy)))),
            (''namespace'', JStr (Namespace policy))]];
          httpFilters = filterResources @ [router_filter]
      in Inr (set_field [''spec'', ''resources''] (JList [listener_resource policy httpFilters])
           (set_field [''spec'', ''services''] services
             (new_object policy ciliumAPIVersion ciliumEnvoyConfigKind (ciliumEnvoyConfigName policy)))))"

subsection \<open>Render\<close>

definition cilium_admission :: "AdaptivePolicy \<Rightarrow> jval list \<times> RenderResult \<Rightarrow> string + jval list \<times> RenderResult" where
  "cilium_admission policy st =
     (if \<not> HasAdmissionControl policy then Inr st
      else case buildAdmissionControlResource policy of
        Inl e \<Rightarrow> Inl (''building admission control resource: '' @ e)
      | Inr (r, rtds) \<Rightarrow> Inr (fst st @ [r],
          add_layer (layer_name policy ''admission-control'') rtds (add_filter ''admission-control'' (snd st))))"

definition cilium_concurrency :: "AdaptivePolicy \<Rightarrow> jval list \<times> RenderResult \<Rightarrow> string + jval list \<times> RenderResult" where
  "cilium_concurrency policy st =
     (if \<not> HasAdaptiveConcurrency policy then Inr st
      else case buildAdaptiveConcurrencyResource policy of
        Inl e \<Rightarrow> Inl (''building adaptive concurrency resource: '' @ e)
      | Inr (r, rtds) \<Rightarrow> Inr (fst st @ [r],
          add_layer (layer_name policy ''adaptive-concurrency'') rtds
            (add_filter ''adaptive-concurrency'' (snd st))))"

definition CiliumRender :: "((string \<times> string) list \<Rightarrow> (string \<times> string) list) \<Rightarrow>
    AdaptivePolicy \<Rightarrow> string + RenderResult" where
  "CiliumRender ord policy = (case cilium_admission policy ([], empty_result) of
     Inl e \<Rightarrow> Inl e
   | Inr st1 \<Rightarrow> (case cilium_concurrency policy st1 of
       Inl e \<Rightarrow> Inl e
     | Inr (rs, res) \<Rightarrow>
         if length rs = 0 then Inr (res\<lparr>ActiveFilterNames := []\<rparr>)
         else (case buildCiliumEnvoyConfig ord policy rs of
                 Inl e \<Rightarrow> Inl (''building CiliumEnvoyConfig: '' @ e)
               | Inr cec \<Rightarrow> Inr (add_resource cec
                   \<lparr>mr_APIVersion = ciliumAPIVersion, mr_Kind = ciliumEnvoyConfigKind,
                    mr_Name = ciliumEnvoyConfigName policy, mr_Namespace = Namespace policy\<rparr> res))))"

definition CiliumRenderer :: Renderer where
  "CiliumRenderer = \<lparr>r_Name = ''cilium'', r_Detect = CiliumDetect, r_Render = CiliumRender,
     r_RTDSSupported = CiliumRTDSSupported\<rparr>"

subsection \<open>Choosing a backend\<close>

fun detect_loop :: "Renderer list \<Rightarrow> cluster_view \<Rightarrow> string + Renderer" where
  "detect_loop [] c = Inl (''no supported service mesh detected. '' @
     ''Supported: Istio (istiod pod in istio-system), '' @
     ''Cilium (cilium-envoy DaemonSet in kube-system). '' @
     ''Set meshBackend explicitly if detection is incorrect'')"
| "detect_loop (r # rs) c = (case r_Detect r c of
     Inl e \<Rightarrow> detect_loop rs c
   | Inr found \<Rightarrow> if found then Inr r else detect_loop rs c)"

definition detect :: "cluster_view \<Rightarrow> string + Renderer" where
  "detect c = detect_loop [IstioRenderer, CiliumRenderer] c"

definition DetectAndBuild :: "cluster_view \<Rightarrow> AdaptivePolicy \<Rightarrow> string + Renderer" where
  "DetectAndBuild c policy =
     (if EffectiveMeshBackend policy = MeshBackendIstio then Inr IstioRenderer
      else if EffectiveMeshBackend policy = MeshBackendCilium then Inr CiliumRenderer
      else detect c)"

end
