(* ===== verification/Render_Facts.thy ===== *)
theory Render_Facts
  imports Render_Cilium
begin

section \<open>The contract of a renderer\<close>

text \<open>
  \<open>renderer_contract\<close> is what the controller relies on whichever backend it got: rendering never
  fails, what it returns is owned by the policy and described by the references, and the runtime
  layers are those of the policy's filters, disabled in dry-run. Both backends satisfy it.
\<close>

definition filter_layers :: "AdaptivePolicy \<Rightarrow> (string, jobject) gomap" where
  \<comment> \<open>the runtime layers of a policy's filters\<close>
  "filter_layers p =
     (if HasAdmissionControl p then [(layer_name p ''admission-control'', admission_layer p)] else []) @
     (if HasAdaptiveConcurrency p then [(layer_name p ''adaptive-concurrency'', concurrency_layer p)] else [])"

definition owned_by :: "AdaptivePolicy \<Rightarrow> Object \<Rightarrow> bool" where
  "owned_by p ob \<longleftrightarrow> o_Owners ob = ownerReferences p \<and> o_Namespace ob = Namespace p \<and>
     o_Labels ob = resourceLabels p"

locale renderer_contract =
  fixes render :: "((string \<times> string) list \<Rightarrow> (string \<times> string) list) \<Rightarrow> AdaptivePolicy \<Rightarrow> string + RenderResult"
  assumes total: "\<exists>res. render ord p = Inr res"
    and owned: "render ord p = Inr res \<Longrightarrow> list_all (owned_by p) (Resources res)"
    and refs: "render ord p = Inr res \<Longrightarrow> ManagedResourceRefs res = map ref_of (Resources res)"
    and distinct_refs: "render ord p = Inr res \<Longrightarrow> distinct (ManagedResourceRefs res)"
    and few: "render ord p = Inr res \<Longrightarrow> length (Resources res) \<le> 5"
    and stable: "render ord p = Inr res \<Longrightarrow> render ord' (p\<lparr>Status := st\<rparr>) = Inr res' \<Longrightarrow>
      ManagedResourceRefs res' = ManagedResourceRefs res"
    and layers: "render ord p = Inr res \<Longrightarrow> RTDSLayers res = filter_layers p"
    and app_label: "map_of (Selector (Spec p)) ''app'' \<noteq> None \<Longrightarrow> render ord p = render ord' p"
begin

lemma layer_values: "render ord p = Inr res \<Longrightarrow> (n, l) \<in> set (RTDSLayers res) \<Longrightarrow>
    (n = layer_name p ''admission-control'' \<and> l = admission_layer p) \<or>
    (n = layer_name p ''adaptive-concurrency'' \<and> l = concurrency_layer p)"
  by (auto simp: layers filter_layers_def split: if_splits)

lemma layer_not_subscribed: "render ord p = Inr res \<Longrightarrow> n \<in> fst ` set (RTDSLayers res) \<Longrightarrow> n \<noteq> ''shedpilot-runtime''"
proof -
  assume a: "render ord p = Inr res" "n \<in> fst ` set (RTDSLayers res)"
  then have n: "n = (''shedpilot-'' @ Name p @ ''-'') @ ''admission-control'' \<or>
      n = (''shedpilot-'' @ Name p @ ''-'') @ ''adaptive-concurrency''"
    using layer_values by (fastforce simp: layer_name_def)
  have "(''shedpilot-'' @ Name p @ ''-'') @ ''admission-control'' \<noteq> ''shedpilot-'' @ ''runtime''"
    "(''shedpilot-'' @ Name p @ ''-'') @ ''adaptive-concurrency'' \<noteq> ''shedpilot-'' @ ''runtime''"
    by (rule append_last_neq; simp)+
  with n show ?thesis by auto
qed

lemma one_object_per_ref: "render ord p = Inr res \<Longrightarrow> a \<in> set (Resources res) \<Longrightarrow> b \<in> set (Resources res) \<Longrightarrow>
    ref_of a = ref_of b \<Longrightarrow> a = b"
  using refs distinct_refs by (metis distinct_map inj_onD)

end

subsection \<open>Lemmas on the pieces\<close>

lemma set_field_header [simp]:
  "o_APIVersion (set_field path v ob) = o_APIVersion ob" "o_Kind (set_field path v ob) = o_Kind ob"
  "o_Name (set_field path v ob) = o_Name ob" "o_Namespace (set_field path v ob) = o_Namespace ob"
  "o_Labels (set_field path v ob) = o_Labels ob" "o_Owners (set_field path v ob) = o_Owners ob"
  by (simp_all add: set_field_def)

lemma new_object_header [simp]:
  "o_APIVersion (new_object p a k n) = a" "o_Kind (new_object p a k n) = k"
  "o_Name (new_object p a k n) = n" "o_Namespace (new_object p a k n) = Namespace p"
  "o_Labels (new_object p a k n) = resourceLabels p" "o_Owners (new_object p a k n) = ownerReferences p"
  by (simp_all add: new_object_def)

lemmas istio_objects = buildEnvoyFilter_def renderStatsFlush_def renderSkipPaths_def
  renderStreamingProtection_def renderAdmissionControl_def renderAdaptiveConcurrency_def

lemmas istio_steps = istio_admission_def istio_concurrency_def istio_stats_flush_def istio_skip_paths_def
  istio_streaming_def add_resource_def add_filter_def add_layer_def empty_result_def

lemmas object_names = admissionControlName_def adaptiveConcurrencyName_def streamingProtectionName_def
  statsFlushName_def skipPathsName_def

lemma layer_names_differ [simp]: "layer_name p ''admission-control'' \<noteq> layer_name p ''adaptive-concurrency''"
  by (simp add: layer_name_def)

lemma selectorToHost_app: "map_of s ''app'' \<noteq> None \<Longrightarrow> selectorToHost ord s = selectorToHost ord' s"
  by (auto simp: selectorToHost_def)

subsection \<open>Istio\<close>

definition istio_objects_of :: "((string \<times> string) list \<Rightarrow> (string \<times> string) list) \<Rightarrow> AdaptivePolicy \<Rightarrow> Object list" where
  \<comment> \<open>the objects of a policy, in order\<close>
  "istio_objects_of ord p =
     (case AdmissionControl (Spec p) of
        Some c \<Rightarrow> if HasAdmissionControl p
          then [buildEnvoyFilter p (admissionControlName p) ''SIDECAR_INBOUND'' filterNameAdmissionControl
                  (admission_typed_config p c)] else []
      | None \<Rightarrow> []) @
     (case AdaptiveConcurrency (Spec p) of
        Some c \<Rightarrow> if HasAdaptiveConcurrency p
          then [buildEnvoyFilter p (adaptiveConcurrencyName p) ''SIDECAR_INBOUND'' filterNameAdaptiveConcurrency
                  (concurrency_typed_config p c)] else []
      | None \<Rightarrow> []) @
     (if HasAdmissionControl p \<or> HasAdaptiveConcurrency p then [renderStatsFlush p] else []) @
     (case AdmissionControl (Spec p) of
        Some c \<Rightarrow> if HasAdmissionControl p \<and> ac_SkipPaths c \<noteq> [] then [renderSkipPaths p ''SIDECAR_INBOUND'' c] else []
      | None \<Rightarrow> []) @
     (if HasStreamingProtection p then [projr (renderStreamingProtection ord p)] else [])"

lemma has_none [simp]:
  "AdmissionControl (Spec p) = None \<Longrightarrow> \<not> HasAdmissionControl p"
  "AdaptiveConcurrency (Spec p) = None \<Longrightarrow> \<not> HasAdaptiveConcurrency p"
  "StreamingProtection (Spec p) = None \<Longrightarrow> \<not> HasStreamingProtection p"
  by (simp_all add: policy_simps)

lemma ref_of_objects [simp]:
  "ref_of (buildEnvoyFilter p n x f t) = istio_ref p ''EnvoyFilter'' n"
  "ref_of (renderStatsFlush p) = istio_ref p ''EnvoyFilter'' (statsFlushName p)"
  "ref_of (renderSkipPaths p x c) = istio_ref p ''EnvoyFilter'' (skipPathsName p)"
  by (simp_all add: ref_of_def istio_ref_def istio_objects Let_def)

lemma streaming_object:
  assumes "StreamingProtection (Spec p) = Some c"
  shows "renderStreamingProtection ord p = Inr (projr (renderStreamingProtection ord p))"
    "ref_of (projr (renderStreamingProtection ord p)) = istio_ref p ''DestinationRule'' (streamingProtectionName p)"
    "owned_by p (projr (renderStreamingProtection ord p))"
  using assms by (simp_all add: renderStreamingProtection_def ref_of_def istio_ref_def owned_by_def Let_def)

lemma owned_objects [simp]:
  "owned_by p (buildEnvoyFilter p n x f t)" "owned_by p (renderStatsFlush p)" "owned_by p (renderSkipPaths p x c)"
  by (simp_all add: owned_by_def istio_objects Let_def)

lemma IstioRender_eq:
  "IstioRender ord p = Inr \<lparr>Resources = istio_objects_of ord p,
     ManagedResourceRefs = map ref_of (istio_objects_of ord p),
     ActiveFilterNames = (if HasAdmissionControl p then [''admission-control''] else []) @
       (if HasAdaptiveConcurrency p then [''adaptive-concurrency''] else []) @
       (if HasStreamingProtection p then [''streaming-protection''] else []),
     RTDSLayers = filter_layers p\<rparr>"
proof -
  obtain s where s: "StreamingProtection (Spec p) = Some c \<Longrightarrow> renderStreamingProtection ord p = Inr s \<and>
      ref_of s = istio_ref p ''DestinationRule'' (streamingProtectionName p)" for c
    using streaming_object [of p] by metis
  show ?thesis
    by (cases "AdmissionControl (Spec p)"; cases "AdaptiveConcurrency (Spec p)"; cases "StreamingProtection (Spec p)")
      (simp_all add: IstioRender_def istio_steps listenerContext_def istio_objects_of_def filter_layers_def s
        renderAdmissionControl_def renderAdaptiveConcurrency_def Let_def)
qed

lemma istio_owned: "list_all (owned_by p) (istio_objects_of ord p)"
proof -
  have "owned_by p (projr (renderStreamingProtection ord p))" if "HasStreamingProtection p"
    using HasStreamingProtection_Some [OF that] streaming_object(3) by blast
  then show ?thesis by (auto simp: istio_objects_of_def split: option.splits)
qed

lemma istio_few: "length (istio_objects_of ord p) \<le> 5"
  by (simp add: istio_objects_of_def split: option.splits)

lemma status_irrelevant [simp]:
  "HasAdmissionControl (p\<lparr>Status := st\<rparr>) = HasAdmissionControl p"
  "HasAdaptiveConcurrency (p\<lparr>Status := st\<rparr>) = HasAdaptiveConcurrency p"
  "HasStreamingProtection (p\<lparr>Status := st\<rparr>) = HasStreamingProtection p"
  "istio_ref (p\<lparr>Status := st\<rparr>) k n = istio_ref p k n"
  by (simp_all add: policy_simps istio_ref_def)

lemma istio_stable: "map ref_of (istio_objects_of ord' (p\<lparr>Status := st\<rparr>)) = map ref_of (istio_objects_of ord p)"
  using HasStreamingProtection_Some [of p] streaming_object(2) [of p _ ord] streaming_object(2) [of "p\<lparr>Status := st\<rparr>" _ ord']
  by (cases "AdmissionControl (Spec p)"; cases "AdaptiveConcurrency (Spec p)")
    (auto simp: istio_objects_of_def object_names)

lemma istio_ref_inj: "istio_ref p k n = istio_ref p k' n' \<longleftrightarrow> k = k' \<and> n = n'"
  by (auto simp: istio_ref_def)

lemma istio_distinct: "distinct (map ref_of (istio_objects_of ord p))"
proof -
  have "ref_of (projr (renderStreamingProtection ord p)) = istio_ref p ''DestinationRule'' (streamingProtectionName p)"
    if "HasStreamingProtection p"
    using HasStreamingProtection_Some [OF that] streaming_object(2) by blast
  then show ?thesis
    by (auto simp: istio_objects_of_def istio_ref_inj object_names split: option.splits)
qed

lemma istio_order:
  assumes "map_of (Selector (Spec p)) ''app'' \<noteq> None"
  shows "IstioRender ord p = IstioRender ord' p"
proof -
  have "renderStreamingProtection ord p = renderStreamingProtection ord' p"
    unfolding renderStreamingProtection_def selectorToHost_app [OF assms, of ord ord'] ..
  then show ?thesis by (simp only: IstioRender_def istio_streaming_def)
qed

interpretation istio: renderer_contract IstioRender
proof
  show "map_of (Selector (Spec p)) ''app'' \<noteq> None \<Longrightarrow> IstioRender ord p = IstioRender ord' p" for p ord ord'
    by (rule istio_order)
qed (auto simp: IstioRender_eq istio_owned istio_distinct istio_few istio_stable)

subsection \<open>Cilium\<close>

definition cilium_configs :: "AdaptivePolicy \<Rightarrow> jval list" where
  \<comment> \<open>the filter configurations of a policy, in order\<close>
  "cilium_configs p =
     (case AdmissionControl (Spec p) of
        Some c \<Rightarrow> if HasAdmissionControl p then [cilium_admission_config p c] else [] | None \<Rightarrow> []) @
     (case AdaptiveConcurrency (Spec p) of
        Some c \<Rightarrow> if HasAdaptiveConcurrency p then [cilium_concurrency_config p c] else [] | None \<Rightarrow> [])"

definition cilium_object :: "((string \<times> string) list \<Rightarrow> (string \<times> string) list) \<Rightarrow> AdaptivePolicy \<Rightarrow> Object" where
  "cilium_object ord p = projr (buildCiliumEnvoyConfig ord p (cilium_configs p))"

lemma cilium_object_facts:
  "buildCiliumEnvoyConfig ord p (cilium_configs p) = Inr (cilium_object ord p)" "owned_by p (cilium_object ord p)"
  "ref_of (cilium_object ord p) = \<lparr>mr_APIVersion = ciliumAPIVersion, mr_Kind = ciliumEnvoyConfigKind,
     mr_Name = ciliumEnvoyConfigName p, mr_Namespace = Namespace p\<rparr>"
  by (simp_all add: cilium_object_def buildCiliumEnvoyConfig_def owned_by_def ref_of_def Let_def)

lemma CiliumRender_eq:
  "CiliumRender ord p = Inr
     (if cilium_configs p = [] then \<lparr>Resources = [], ManagedResourceRefs = [], ActiveFilterNames = [], RTDSLayers = []\<rparr>
      else \<lparr>Resources = [cilium_object ord p], ManagedResourceRefs = [ref_of (cilium_object ord p)],
        ActiveFilterNames = (if HasAdmissionControl p then [''admission-control''] else []) @
          (if HasAdaptiveConcurrency p then [''adaptive-concurrency''] else []),
        RTDSLayers = filter_layers p\<rparr>)"
proof -
  have "(case cilium_admission p ([], empty_result) of Inl e \<Rightarrow> Inl e | Inr st1 \<Rightarrow> cilium_concurrency p st1) =
      (Inr (cilium_configs p, \<lparr>Resources = [], ManagedResourceRefs = [],
        ActiveFilterNames = (if HasAdmissionControl p then [''admission-control''] else []) @
          (if HasAdaptiveConcurrency p then [''adaptive-concurrency''] else []),
        RTDSLayers = filter_layers p\<rparr>) :: string + jval list \<times> RenderResult)"
    by (cases "AdmissionControl (Spec p)"; cases "AdaptiveConcurrency (Spec p)")
      (simp_all add: cilium_admission_def cilium_concurrency_def add_filter_def add_layer_def empty_result_def
        buildAdmissionControlResource_def buildAdaptiveConcurrencyResource_def cilium_configs_def filter_layers_def
        admission_layer_def concurrency_layer_def)
  moreover have "filter_layers p = []" if "cilium_configs p = []"
    using that HasAdmissionControl_Some [of p] HasAdaptiveConcurrency_Some [of p]
    by (auto simp: cilium_configs_def filter_layers_def split: option.splits if_splits)
  ultimately show ?thesis
    using cilium_object_facts [where ord = ord and p = p]
    by (auto simp: CiliumRender_def add_resource_def split: sum.splits)
qed

lemma cilium_order:
  assumes "map_of (Selector (Spec p)) ''app'' \<noteq> None"
  shows "CiliumRender ord p = CiliumRender ord' p"
proof -
  have "buildCiliumEnvoyConfig ord p rs = buildCiliumEnvoyConfig ord' p rs" for rs
    unfolding buildCiliumEnvoyConfig_def selectorToHost_app [OF assms, of ord ord'] ..
  then show ?thesis by (simp only: CiliumRender_def)
qed

lemma cilium_no_configs: "cilium_configs p = [] \<Longrightarrow> filter_layers p = []"
  using HasAdmissionControl_Some [of p] HasAdaptiveConcurrency_Some [of p]
  by (auto simp: cilium_configs_def filter_layers_def split: option.splits if_splits)

lemma cilium_stable: "cilium_configs (p\<lparr>Status := st\<rparr>) = [] \<longleftrightarrow> cilium_configs p = []"
  by (auto simp: cilium_configs_def split: option.splits)

interpretation cilium: renderer_contract CiliumRender
proof
  show "map_of (Selector (Spec p)) ''app'' \<noteq> None \<Longrightarrow> CiliumRender ord p = CiliumRender ord' p" for p ord ord'
    by (rule cilium_order)
qed (auto simp: CiliumRender_eq cilium_object_facts cilium_no_configs cilium_stable ciliumEnvoyConfigName_def split: if_splits)

end
