(* ===== verification/Render_Props.thy ===== *)
theory Render_Props
  imports Render_Facts Sample_Policy
begin

section \<open>Properties of rendering\<close>

text \<open>
  The properties hold for whichever backend \<open>DetectAndBuild\<close> returns; they follow from the
  interpretations of the renderer contract. The effective configuration comes first.
\<close>

subsection \<open>The effective configuration\<close>

definition first_set :: "string list \<Rightarrow> string \<Rightarrow> string" where
  \<comment> \<open>the first non-empty candidate, else the default\<close>
  "first_set cands d = (case filter (\<lambda>s. s \<noteq> []) cands of x # _ \<Rightarrow> x | [] \<Rightarrow> d)"

definition active_profile :: "AdaptivePolicy \<Rightarrow> ProfileConfig option" where
  "active_profile p = (if ActiveProfile (Spec p) = [] then None else map_of (Profiles (Spec p)) (ActiveProfile (Spec p)))"

definition admission_override :: "(AdmissionControlOverride \<Rightarrow> string) \<Rightarrow> AdaptivePolicy \<Rightarrow> string" where
  "admission_override f p = (case Option.bind (active_profile p) pf_AdmissionControl of None \<Rightarrow> [] | Some ov \<Rightarrow> f ov)"

definition concurrency_override :: "AdaptivePolicy \<Rightarrow> string" where
  "concurrency_override p = (case Option.bind (active_profile p) pf_AdaptiveConcurrency of
     None \<Rightarrow> [] | Some ov \<Rightarrow> acv_LatencyPercentile ov)"

definition admission_base :: "(AdmissionControlConfig \<Rightarrow> string) \<Rightarrow> AdaptivePolicy \<Rightarrow> string" where
  "admission_base f p = (case AdmissionControl (Spec p) of None \<Rightarrow> [] | Some c \<Rightarrow> f c)"

lemma first_set_simps [simp]:
  "first_set [] d = d" "first_set (x # xs) d = (if x \<noteq> [] then x else first_set xs d)"
  by (simp_all add: first_set_def)

text \<open>The four effective settings are the merge the API promises: the active profile's override when the
  profile exists and sets the field, else the baseline field, else the documented default; a profile name
  that is empty or unknown overrides nothing.\<close>

theorem Effective_settings_merge:
  "EffectiveSuccessRateThreshold p =
     first_set [admission_override aco_SuccessRateThreshold p, admission_base ac_SuccessRateThreshold p] ''95.0'' \<and>
   EffectiveSheddingSpeed p =
     first_set [admission_override aco_SheddingSpeed p, admission_base ac_SheddingSpeed p] ''1.5'' \<and>
   EffectiveSuccessRateWindow p =
     first_set [admission_override aco_SuccessRateWindow p, admission_base ac_SuccessRateWindow p] ''30s'' \<and>
   EffectiveLatencyPercentile p =
     first_set [concurrency_override p,
       (case AdaptiveConcurrency (Spec p) of None \<Rightarrow> [] | Some c \<Rightarrow> acc_LatencyPercentile c)] PercentileP50"
proof -
  have a: "ActiveProfileConfig p = (case active_profile p of None \<Rightarrow> (empty_profile, False) | Some c \<Rightarrow> (c, True))"
    by (auto simp: ActiveProfileConfig_def active_profile_def)
  show ?thesis
    unfolding EffectiveSuccessRateThreshold_def EffectiveSheddingSpeed_def EffectiveSuccessRateWindow_def
      EffectiveLatencyPercentile_def a Let_def
    by (cases "active_profile p")
      (auto simp: admission_override_def concurrency_override_def admission_base_def split: option.splits)
qed

subsection \<open>Every backend\<close>

lemma DetectAndBuild_cases:
  "DetectAndBuild c p = Inr r \<Longrightarrow> r = IstioRenderer \<or> r = CiliumRenderer"
  by (auto simp: DetectAndBuild_def detect_def split: if_splits sum.splits)

lemma r_Render_simps [simp]: "r_Render IstioRenderer = IstioRender" "r_Render CiliumRenderer = CiliumRender"
  by (simp_all add: IstioRenderer_def CiliumRenderer_def)

lemma chosen_contract: "DetectAndBuild c p = Inr r \<Longrightarrow> renderer_contract (r_Render r)"
  using DetectAndBuild_cases [of c p r] istio.renderer_contract_axioms cilium.renderer_contract_axioms by auto

text \<open>Whatever backend is chosen, rendering succeeds, every object it returns lives in the policy's
  namespace, carries the policy's labels and exactly one owner reference to the policy (so deleting the
  policy deletes it), and the managed-resource references list these objects in order without
  duplicates.\<close>

theorem Render_owned_resources:
  assumes "DetectAndBuild c p = Inr r"
  shows "\<exists>res. r_Render r ord p = Inr res \<and> list_all (owned_by p) (Resources res) \<and>
    ManagedResourceRefs res = map ref_of (Resources res) \<and> distinct (ManagedResourceRefs res)"
proof -
  note k = chosen_contract [OF assms]
  show ?thesis
    using renderer_contract.total [OF k, of ord p] renderer_contract.owned [OF k]
      renderer_contract.refs [OF k] renderer_contract.distinct_refs [OF k] by blast
qed

definition no_cluster :: cluster_view where
  "no_cluster = \<lparr>cluster_pods = (\<lambda>_ _. Inr []), cluster_daemonsets = (\<lambda>_ _. Inr [1])\<rparr>"

definition guarded_policy :: AdaptivePolicy where
  \<comment> \<open>admission control and streaming protection, with a skip path\<close>
  "guarded_policy = (sample_policy ''open'')\<lparr>Spec := sample_spec\<lparr>
     AdmissionControl := Some \<lparr>ac_Enabled = True, ac_SuccessRateWindow = [], ac_SuccessRateThreshold = ''90.0'',
       ac_SheddingSpeed = ''2.0'', ac_MinRequestsPerSecond = 5, ac_MaxRejectionPercent = ''80.0'',
       ac_SuccessCodes = [], ac_SkipPaths = [''/healthz'']\<rparr>,
     StreamingProtection := Some \<lparr>sp_Enabled = True, sp_MaxConcurrentStreams = 100,
       sp_StreamTimeoutSeconds = 300, sp_MaxPendingRequests = 50\<rparr>\<rparr>\<rparr>"

lemma guarded_backend: "DetectAndBuild no_cluster guarded_policy = Inr CiliumRenderer"
  by (simp add: DetectAndBuild_def detect_def no_cluster_def IstioRenderer_def CiliumRenderer_def IstioDetect_def
      CiliumDetect_def EffectiveMeshBackend_def guarded_policy_def sample_defs MeshBackendAuto_def
      MeshBackendIstio_def MeshBackendCilium_def)

theorem Render_owned_resources_witness:
  "\<exists>res. r_Render CiliumRenderer rev guarded_policy = Inr res \<and> list_all (owned_by guarded_policy) (Resources res)"
  using Render_owned_resources [OF guarded_backend, of rev] by blast

subsection \<open>The objects of the Istio backend\<close>

definition istio_inventory :: "AdaptivePolicy \<Rightarrow> (string \<times> string) list" where
  \<comment> \<open>kind and name of what a policy needs, in the order it is applied\<close>
  "istio_inventory p =
     (if HasAdmissionControl p then [(''EnvoyFilter'', Name p @ ''-admission-control'')] else []) @
     (if HasAdaptiveConcurrency p then [(''EnvoyFilter'', Name p @ ''-adaptive-concurrency'')] else []) @
     (if HasAdmissionControl p \<or> HasAdaptiveConcurrency p then [(''EnvoyFilter'', Name p @ ''-stats-flush'')] else []) @
     (if HasAdmissionControl p \<and> ac_SkipPaths (the (AdmissionControl (Spec p))) \<noteq> []
      then [(''EnvoyFilter'', Name p @ ''-skip-paths'')] else []) @
     (if HasStreamingProtection p then [(''DestinationRule'', Name p @ ''-streaming'')] else [])"

text \<open>The Istio backend renders exactly the objects a policy needs, in the order they must be applied: one
  EnvoyFilter per enabled filter, the statistics bootstrap patch when there is any filter, the health-path
  bypass when admission control has paths to skip, and the DestinationRule for streaming protection; and
  it reports exactly the enabled filters.\<close>

theorem IstioRender_inventory:
  "\<exists>res. IstioRender ord p = Inr res \<and>
    map (\<lambda>ob. (o_Kind ob, o_Name ob)) (Resources res) = istio_inventory p \<and>
    ActiveFilterNames res = (if HasAdmissionControl p then [''admission-control''] else []) @
      (if HasAdaptiveConcurrency p then [''adaptive-concurrency''] else []) @
      (if HasStreamingProtection p then [''streaming-protection''] else [])"
proof -
  have "map (\<lambda>r. (mr_Kind r, mr_Name r)) (map ref_of (istio_objects_of ord p)) = istio_inventory p"
    using HasStreamingProtection_Some [of p] streaming_object(2) [of p _ ord]
    by (cases "AdmissionControl (Spec p)"; cases "AdaptiveConcurrency (Spec p)")
      (auto simp: istio_objects_of_def istio_inventory_def istio_ref_def object_names)
  then have "map (\<lambda>ob. (o_Kind ob, o_Name ob)) (istio_objects_of ord p) = istio_inventory p"
    by (simp add: ref_of_def comp_def)
  then show ?thesis by (simp add: IstioRender_eq)
qed

subsection \<open>Dry run\<close>

fun occurrences :: "string \<Rightarrow> jval \<Rightarrow> jval list" where
  \<comment> \<open>the values stored under a key anywhere in a tree\<close>
  "occurrences k (JMap m) = concat (map (\<lambda>(k', v). (if k' = k then [v] else []) @ occurrences k v) m)"
| "occurrences k (JList vs) = concat (map (occurrences k) vs)"
| "occurrences k _ = []"

definition config_values :: "string \<Rightarrow> RenderResult \<Rightarrow> jval list" where
  \<comment> \<open>the values under a key in the configuration of the rendered objects (their selectors aside)\<close>
  "config_values k res = concat (map (occurrences k) (map snd (filter (\<lambda>(path, v).
     path \<noteq> [''spec'', ''workloadSelector'', ''labels'']) (concat (map o_Fields (Resources res))))))"

definition enabled_keys :: "string list" where
  "enabled_keys = [rtdsKeyAdmissionEnabled, rtdsKeyConcurrencyEnabled]"

lemma occ_patch:
  "occurrences ''enabled'' (admission_typed_config p c) =
    [JMap [(''default_value'', JBool (\<not> IsDryRun p)), (''runtime_key'', JStr rtdsKeyAdmissionEnabled)]]"
  "occurrences ''enabled'' (concurrency_typed_config p d) =
    [JMap [(''default_value'', JBool (\<not> IsDryRun p)), (''runtime_key'', JStr rtdsKeyConcurrencyEnabled)]]"
  "occurrences ''enabled'' (cilium_admission_config p c) =
    [JMap [(''default_value'', JBool (\<not> IsDryRun p)), (''runtime_key'', JStr rtdsKeyAdmissionEnabled)]]"
  "occurrences ''enabled'' (cilium_concurrency_config p d) =
    [JMap [(''default_value'', JBool (\<not> IsDryRun p)), (''runtime_key'', JStr rtdsKeyConcurrencyEnabled)]]"
  by (simp_all add: admission_typed_config_def concurrency_typed_config_def cilium_admission_config_def
      cilium_concurrency_config_def http_ranges_def Let_def comp_def)

definition object_values :: "string \<Rightarrow> Object \<Rightarrow> jval list" where
  "object_values k ob = concat (map (occurrences k) (map snd (filter (\<lambda>(path, v).
     path \<noteq> [''spec'', ''workloadSelector'', ''labels'']) (o_Fields ob))))"

lemma config_values_concat: "config_values k res = concat (map (object_values k) (Resources res))"
proof -
  have "concat (map (occurrences k) (map snd (filter f (concat (map o_Fields obs))))) =
      concat (map (\<lambda>ob. concat (map (occurrences k) (map snd (filter f (o_Fields ob))))) obs)" for f obs
    by (induction obs) simp_all
  then show ?thesis by (simp add: config_values_def object_values_def [abs_def])
qed

lemma object_enabled:
  "object_values ''enabled'' (buildEnvoyFilter p n x f t) = occurrences ''enabled'' t"
  "object_values ''enabled'' (renderStatsFlush p) = []"
  "object_values ''enabled'' (renderSkipPaths p x c) = []"
  "HasStreamingProtection p \<Longrightarrow> object_values ''enabled'' (projr (renderStreamingProtection ord p)) = []"
  "object_values ''enabled'' (cilium_object ord p) = concat (map (occurrences ''enabled'') (cilium_configs p))"
proof -
  have "occurrences ''enabled'' (JMap (BootstrapPatch a)) = []" for a
    by (simp add: BootstrapPatch_def)
  then show "object_values ''enabled'' (renderStatsFlush p) = []"
    by (simp add: object_values_def renderStatsFlush_def set_field_def new_object_def BootstrapPatch_def)
  have "occurrences ''enabled'' (skip_patch x path) = []" for path
    by (simp add: skip_patch_def filterNameAdmissionControl_def filterNameAdaptiveConcurrency_def)
  then show "object_values ''enabled'' (renderSkipPaths p x c) = []"
    by (simp add: object_values_def renderSkipPaths_def set_field_def new_object_def)
  show "object_values ''enabled'' (buildEnvoyFilter p n x f t) = occurrences ''enabled'' t"
    by (simp add: object_values_def buildEnvoyFilter_def set_field_def new_object_def)
  show "object_values ''enabled'' (projr (renderStreamingProtection ord p)) = []" if "HasStreamingProtection p"
    using HasStreamingProtection_Some [OF that]
    by (auto simp: object_values_def renderStreamingProtection_def set_field_def new_object_def Let_def)
  show "object_values ''enabled'' (cilium_object ord p) = concat (map (occurrences ''enabled'') (cilium_configs p))"
    by (simp add: object_values_def cilium_object_def buildCiliumEnvoyConfig_def set_field_def new_object_def
        listener_resource_def router_filter_def Let_def)
qed

lemma istio_enabled:
  "v \<in> set (concat (map (object_values ''enabled'') (istio_objects_of ord p))) \<Longrightarrow>
    jget v [''default_value''] = Some (JBool (\<not> IsDryRun p))"
  by (auto simp: istio_objects_of_def object_enabled occ_patch split: option.splits if_splits)

lemma cilium_enabled:
  "v \<in> set (concat (map (occurrences ''enabled'') (cilium_configs p))) \<Longrightarrow>
    jget v [''default_value''] = Some (JBool (\<not> IsDryRun p))"
  by (auto simp: cilium_configs_def occ_patch split: option.splits if_splits)

lemma layers_enabled:
  "list_all (\<lambda>(n, l). map snd (filter (\<lambda>(k, v). k \<in> set enabled_keys) l) = [JBool (\<not> IsDryRun p)]) (filter_layers p)"
  by (simp add: filter_layers_def admission_layer_def concurrency_layer_def enabled_keys_def
      rtdsKeyAdmissionEnabled_def rtdsKeyConcurrencyEnabled_def rtdsKeyAdmissionThreshold_def
      rtdsKeyAdmissionAggression_def)

lemma every_enabled:
  assumes "DetectAndBuild c p = Inr r" "r_Render r ord p = Inr res" "v \<in> set (config_values ''enabled'' res)"
  shows "jget v [''default_value''] = Some (JBool (\<not> IsDryRun p))"
proof (rule disjE [OF DetectAndBuild_cases [OF assms(1)]])
  assume "r = IstioRenderer"
  then have "Resources res = istio_objects_of ord p" using assms(2) by (auto simp: IstioRender_eq)
  then show ?thesis using istio_enabled assms(3) by (simp only: config_values_concat)
next
  assume "r = CiliumRenderer"
  then have "Resources res = [] \<or> Resources res = [cilium_object ord p]"
    using assms(2) by (auto simp: CiliumRender_eq split: if_splits)
  then show ?thesis using cilium_enabled assms(3) by (auto simp only: config_values_concat list.map concat.simps
        object_enabled append_Nil2 list.set empty_iff)
qed

text \<open>The filter configurations in an object are the maps whose \<open>@type\<close> is that of one of the two filters.\<close>

definition filter_urls :: "string list" where
  "filter_urls = [typeURLAdmissionControl, typeURLAdaptiveConcurrency]"

fun filter_configs :: "jval \<Rightarrow> jval list" where
  "filter_configs (JMap m) = (if list_ex (\<lambda>u. map_of m ''@type'' = Some (JStr u)) filter_urls then [JMap m] else []) @
     concat (map (\<lambda>(k, v). filter_configs v) m)"
| "filter_configs (JList vs) = concat (map filter_configs vs)"
| "filter_configs _ = []"

definition object_filters :: "Object \<Rightarrow> jval list" where
  "object_filters ob = concat (map filter_configs (map snd (filter (\<lambda>(path, v).
     path \<noteq> [''spec'', ''workloadSelector'', ''labels'']) (o_Fields ob))))"

definition rendered_filters :: "RenderResult \<Rightarrow> jval list" where
  "rendered_filters res = concat (map object_filters (Resources res))"

definition dest_rules :: "RenderResult \<Rightarrow> Object list" where
  "dest_rules res = filter (\<lambda>ob. o_Kind ob = ''DestinationRule'') (Resources res)"

lemmas type_urls = filter_urls_def typeURLAdmissionControl_def typeURLAdaptiveConcurrency_def
  typeURLAdmissionControlPerRoute_def typeURLAdaptiveConcurrencyPerRoute_def

lemma no_range_filter: "filter_configs (http_ranges c) = []"
  by (auto simp: http_ranges_def filter_urls_def Let_def)

lemma filter_configs_of:
  "filter_configs (admission_typed_config p c) = [admission_typed_config p c]"
  "filter_configs (concurrency_typed_config p d) = [concurrency_typed_config p d]"
  "filter_configs (cilium_admission_config p c) = [cilium_admission_config p c]"
  "filter_configs (cilium_concurrency_config p d) = [cilium_concurrency_config p d]"
  by (simp_all add: admission_typed_config_def concurrency_typed_config_def cilium_admission_config_def
      cilium_concurrency_config_def no_range_filter) (simp_all add: type_urls)

lemma typed_config_keys:
  "jget (admission_typed_config p c) [''enabled'', ''default_value''] = Some (JBool (\<not> IsDryRun p))"
  "jget (concurrency_typed_config p d) [''enabled'', ''default_value''] = Some (JBool (\<not> IsDryRun p))"
  "jget (cilium_admission_config p c) [''enabled'', ''default_value''] = Some (JBool (\<not> IsDryRun p))"
  "jget (cilium_concurrency_config p d) [''enabled'', ''default_value''] = Some (JBool (\<not> IsDryRun p))"
  "jget (admission_typed_config p c) [''@type''] = Some (JStr typeURLAdmissionControl)"
  "jget (concurrency_typed_config p d) [''@type''] = Some (JStr typeURLAdaptiveConcurrency)"
  "jget (cilium_admission_config p c) [''@type''] = Some (JStr typeURLAdmissionControl)"
  "jget (cilium_concurrency_config p d) [''@type''] = Some (JStr typeURLAdaptiveConcurrency)"
  by (simp_all add: admission_typed_config_def concurrency_typed_config_def cilium_admission_config_def
      cilium_concurrency_config_def Let_def)

lemma object_filters_of:
  "object_filters (buildEnvoyFilter p n x f t) = filter_configs t"
  "object_filters (renderStatsFlush p) = []"
  "object_filters (renderSkipPaths p x c) = []"
  "HasStreamingProtection p \<Longrightarrow> object_filters (projr (renderStreamingProtection ord p)) = []"
  "object_filters (cilium_object ord p) = concat (map filter_configs (cilium_configs p))"
proof -
  have "filter_configs (JMap (BootstrapPatch a)) = []" for a by (simp add: BootstrapPatch_def filter_urls_def)
  then show "object_filters (renderStatsFlush p) = []"
    by (simp add: object_filters_def renderStatsFlush_def set_field_def new_object_def BootstrapPatch_def filter_urls_def)
  have "filter_configs (skip_patch x path) = []" for path by (simp add: skip_patch_def type_urls)
  then show "object_filters (renderSkipPaths p x c) = []"
    by (simp add: object_filters_def renderSkipPaths_def set_field_def new_object_def)
  show "object_filters (buildEnvoyFilter p n x f t) = filter_configs t"
    by (simp add: object_filters_def buildEnvoyFilter_def set_field_def new_object_def filter_urls_def)
  show "object_filters (projr (renderStreamingProtection ord p)) = []" if "HasStreamingProtection p"
    using HasStreamingProtection_Some [OF that]
    by (auto simp: object_filters_def renderStreamingProtection_def set_field_def new_object_def Let_def)
  show "object_filters (cilium_object ord p) = concat (map filter_configs (cilium_configs p))"
    by (simp add: object_filters_def cilium_object_def buildCiliumEnvoyConfig_def set_field_def new_object_def
        listener_resource_def router_filter_def type_urls Let_def)
qed

definition expected_filters :: "AdaptivePolicy \<Rightarrow> (jval option \<times> jval option) list" where
  \<comment> \<open>type and default of the enabled flag of each filter of a policy\<close>
  "expected_filters p =
     (if HasAdmissionControl p then [(Some (JStr typeURLAdmissionControl), Some (JBool (\<not> IsDryRun p)))] else []) @
     (if HasAdaptiveConcurrency p then [(Some (JStr typeURLAdaptiveConcurrency), Some (JBool (\<not> IsDryRun p)))] else [])"

definition filter_flags :: "RenderResult \<Rightarrow> (jval option \<times> jval option) list" where
  "filter_flags res = map (\<lambda>f. (jget f [''@type''], jget f [''enabled'', ''default_value''])) (rendered_filters res)"

lemma layers_count: "length (filter_layers p) = length (expected_filters p)"
  by (simp add: filter_layers_def expected_filters_def)

lemma active_configs:
  "HasAdmissionControl p \<Longrightarrow> \<exists>c. AdmissionControl (Spec p) = Some c"
  "HasAdaptiveConcurrency p \<Longrightarrow> \<exists>d. AdaptiveConcurrency (Spec p) = Some d"
  by (auto simp: HasAdmissionControl_def HasAdaptiveConcurrency_def split: option.splits)

lemma rendered_flags:
  assumes "DetectAndBuild c p = Inr r" "r_Render r ord p = Inr res"
  shows "filter_flags res = expected_filters p"
proof (rule disjE [OF DetectAndBuild_cases [OF assms(1)]])
  assume "r = IstioRenderer"
  then have "Resources res = istio_objects_of ord p" using assms(2) by (auto simp: IstioRender_eq)
  then show ?thesis using active_configs [of p]
    by (auto simp: filter_flags_def rendered_filters_def istio_objects_of_def object_filters_of filter_configs_of
        typed_config_keys expected_filters_def split: option.splits)
next
  assume "r = CiliumRenderer"
  then have "Resources res = (if cilium_configs p = [] then [] else [cilium_object ord p])"
    using assms(2) by (auto simp: CiliumRender_eq split: if_splits)
  then show ?thesis using active_configs [of p]
    by (auto simp: filter_flags_def rendered_filters_def cilium_configs_def object_filters_of filter_configs_of
        typed_config_keys expected_filters_def split: option.splits if_splits)
qed

lemma object_kinds:
  "o_Kind (buildEnvoyFilter p n x f t) = ''EnvoyFilter''" "o_Kind (renderStatsFlush p) = ''EnvoyFilter''"
  "o_Kind (renderSkipPaths p x c) = ''EnvoyFilter''" "o_Kind (cilium_object ord p) = ''CiliumEnvoyConfig''"
  "HasStreamingProtection p \<Longrightarrow> o_Kind (projr (renderStreamingProtection ord p)) = ''DestinationRule''"
proof -
  show "o_Kind (projr (renderStreamingProtection ord p)) = ''DestinationRule''" if "HasStreamingProtection p"
    using HasStreamingProtection_Some [OF that]
    by (auto simp: renderStreamingProtection_def set_field_def new_object_def Let_def)
qed (simp_all add: buildEnvoyFilter_def renderStatsFlush_def renderSkipPaths_def cilium_object_def buildCiliumEnvoyConfig_def
    ciliumEnvoyConfigKind_def set_field_def new_object_def Let_def)

lemma dest_rules_of:
  assumes "DetectAndBuild c p = Inr r" "r_Render r ord p = Inr res"
  shows "dest_rules res = (if r_Name r = ''istio'' \<and> HasStreamingProtection p
    then [projr (renderStreamingProtection ord p)] else [])"
proof (rule disjE [OF DetectAndBuild_cases [OF assms(1)]])
  assume r: "r = IstioRenderer"
  then have "Resources res = istio_objects_of ord p" using assms(2) by (auto simp: IstioRender_eq)
  moreover have "r_Name r = ''istio''" by (simp add: r IstioRenderer_def)
  ultimately show ?thesis by (auto simp: dest_rules_def istio_objects_of_def object_kinds split: option.splits)
next
  assume r: "r = CiliumRenderer"
  then have "Resources res = [] \<or> Resources res = [cilium_object ord p]"
    using assms(2) by (auto simp: CiliumRender_eq split: if_splits)
  moreover have "r_Name r \<noteq> ''istio''" by (simp add: r CiliumRenderer_def)
  ultimately show ?thesis by (auto simp: dest_rules_def object_kinds)
qed

text \<open>C32. In dry run every filter is installed switched off, and streaming protection is rendered as if there were
  no dry run: whichever backend is chosen, the objects it renders hold exactly one configuration of each filter the
  policy has enabled, whose enabled flag has the negation of dryRun as its default, as has any other enabled flag in
  them; each runtime layer, one per such filter, has exactly one enabled key, with that value; but the DestinationRule
  that limits streams, pending requests and idle time, one on Istio if streaming protection is on, is
  the same whatever dryRun says.\<close>

theorem Render_enabled_iff_not_dry_run:
  assumes "DetectAndBuild c p = Inr r" "r_Render r ord p = Inr res"
  shows "filter_flags res = expected_filters p \<and>
    list_all (\<lambda>v. jget v [''default_value''] = Some (JBool (\<not> IsDryRun p))) (config_values ''enabled'' res) \<and>
    length (RTDSLayers res) = length (expected_filters p) \<and>
    list_all (\<lambda>(n, l). map snd (filter (\<lambda>(k, v). k \<in> set enabled_keys) l) = [JBool (\<not> IsDryRun p)]) (RTDSLayers res) \<and>
    length (dest_rules res) = (if r_Name r = ''istio'' \<and> HasStreamingProtection p then 1 else 0) \<and>
    (\<forall>d. case r_Render r ord (p\<lparr>Spec := (Spec p)\<lparr>DryRun := d\<rparr>\<rparr>) of
       Inr res' \<Rightarrow> dest_rules res' = dest_rules res | Inl e \<Rightarrow> False)"
proof -
  let ?q = "\<lambda>d. p\<lparr>Spec := (Spec p)\<lparr>DryRun := d\<rparr>\<rparr>"
  have rules: "case r_Render r ord (?q d) of Inr res' \<Rightarrow> dest_rules res' = dest_rules res | Inl e \<Rightarrow> False" for d
  proof -
    have "EffectiveMeshBackend (?q d) = EffectiveMeshBackend p" by (simp add: EffectiveMeshBackend_def)
    then have q: "DetectAndBuild c (?q d) = Inr r" using assms(1) by (simp only: DetectAndBuild_def)
    obtain res' where r': "r_Render r ord (?q d) = Inr res'" using renderer_contract.total [OF chosen_contract [OF q]] by blast
    have "renderStreamingProtection ord (?q d) = renderStreamingProtection ord p"
      "HasStreamingProtection (?q d) = HasStreamingProtection p"
      by (simp_all add: renderStreamingProtection_def new_object_def resourceLabels_def ownerReferences_def
          streamingProtectionName_def HasStreamingProtection_def Let_def split: option.split)
    then have "dest_rules res' = dest_rules res" using dest_rules_of [OF q r'] dest_rules_of [OF assms] by simp
    then show ?thesis by (simp add: r')
  qed
  have "list_all (\<lambda>v. jget v [''default_value''] = Some (JBool (\<not> IsDryRun p))) (config_values ''enabled'' res)"
    using every_enabled [OF assms] by (auto simp: list_all_iff)
  moreover have "RTDSLayers res = filter_layers p"
    using renderer_contract.layers [OF chosen_contract [OF assms(1)] assms(2)] .
  ultimately show ?thesis
    using rendered_flags [OF assms] layers_enabled [of p] layers_count [of p] dest_rules_of [OF assms] rules by simp
qed

definition dry_policy :: AdaptivePolicy where
  \<comment> \<open>the guarded policy in dry run, on Istio\<close>
  "dry_policy = guarded_policy\<lparr>Spec := (Spec guarded_policy)\<lparr>DryRun := True, MeshBackendField := MeshBackendIstio\<rparr>\<rparr>"

theorem Render_enabled_iff_not_dry_run_witness:
  "\<exists>res. r_Render IstioRenderer rev dry_policy = Inr res \<and>
    filter_flags res = [(Some (JStr typeURLAdmissionControl), Some (JBool False))] \<and> length (dest_rules res) = 1"
proof -
  have b: "DetectAndBuild no_cluster dry_policy = Inr IstioRenderer"
    by (simp add: DetectAndBuild_def EffectiveMeshBackend_def dry_policy_def MeshBackendIstio_def)
  obtain res where r: "r_Render IstioRenderer rev dry_policy = Inr res" using istio.total [of rev dry_policy] by auto
  have "expected_filters dry_policy = [(Some (JStr typeURLAdmissionControl), Some (JBool False))]"
    by (simp add: expected_filters_def dry_policy_def guarded_policy_def sample_defs HasAdmissionControl_def
        HasAdaptiveConcurrency_def IsDryRun_def)
  moreover have "HasStreamingProtection dry_policy"
    by (simp add: dry_policy_def guarded_policy_def sample_defs HasStreamingProtection_def)
  moreover have "r_Name IstioRenderer = ''istio''" by (simp add: IstioRenderer_def)
  ultimately show ?thesis using Render_enabled_iff_not_dry_run [OF b r] r by auto
qed

subsection \<open>Thresholds\<close>

lemma occ_threshold:
  "occurrences ''sr_threshold'' (admission_typed_config p c) =
    [JMap [(''default_value'', JMap [(''value'', JFloat (mustParseFloat (EffectiveSuccessRateThreshold p)))]),
       (''runtime_key'', JStr rtdsKeyAdmissionThreshold)]]"
  "occurrences ''sr_threshold'' (cilium_admission_config p c) =
    [JMap [(''default_value'', JMap [(''value'',
        JFloat (fdiv (mustParseFloat (EffectiveSuccessRateThreshold p)) (fof_int 100)))]),
       (''runtime_key'', JStr rtdsKeyAdmissionThreshold)]]"
  by (simp_all add: admission_typed_config_def cilium_admission_config_def http_ranges_def Let_def comp_def)

definition pushed_threshold :: "AdaptivePolicy \<Rightarrow> jval option" where
  \<comment> \<open>the threshold of the admission-control layer both backends push\<close>
  "pushed_threshold p = Option.bind (map_of (filter_layers p) (layer_name p ''admission-control''))
     (\<lambda>l. map_of l rtdsKeyAdmissionThreshold)"

text \<open>The two backends disagree on the unit of the success-rate threshold: with admission control on,
  the filter that Istio installs has as its default the percentage itself, while the value pushed at
  runtime under the same key is that percentage divided by 100; the filter that Cilium installs has the
  value that is pushed.\<close>

theorem threshold_units:
  assumes "HasAdmissionControl p" "AdmissionControl (Spec p) = Some c"
    and "x = mustParseFloat (EffectiveSuccessRateThreshold p)"
  shows "\<exists>istio_filter cilium_filter.
    renderAdmissionControl p ''SIDECAR_INBOUND'' =
      Inr (buildEnvoyFilter p (admissionControlName p) ''SIDECAR_INBOUND'' filterNameAdmissionControl istio_filter,
        admission_layer p) \<and>
    map (\<lambda>v. jget v [''default_value'', ''value'']) (occurrences ''sr_threshold'' istio_filter) = [Some (JFloat x)] \<and>
    buildAdmissionControlResource p = Inr (cilium_filter, admission_layer p) \<and>
    map (\<lambda>v. jget v [''default_value'', ''value'']) (occurrences ''sr_threshold'' cilium_filter) =
      [Some (JFloat (fdiv x (fof_int 100)))] \<and>
    pushed_threshold p = Some (JFloat (fdiv x (fof_int 100)))"
proof -
  have "pushed_threshold p = Some (JFloat (fdiv x (fof_int 100)))"
    using assms by (simp add: pushed_threshold_def filter_layers_def admission_layer_def
        rtdsKeyAdmissionEnabled_def rtdsKeyAdmissionThreshold_def)
  moreover have "map (\<lambda>v. jget v [''default_value'', ''value''])
      (occurrences ''sr_threshold'' (admission_typed_config p c)) = [Some (JFloat x)]"
    "map (\<lambda>v. jget v [''default_value'', ''value'']) (occurrences ''sr_threshold'' (cilium_admission_config p c)) =
      [Some (JFloat (fdiv x (fof_int 100)))]"
    by (simp_all add: occ_threshold assms(3))
  moreover have "renderAdmissionControl p ''SIDECAR_INBOUND'' =
      Inr (buildEnvoyFilter p (admissionControlName p) ''SIDECAR_INBOUND'' filterNameAdmissionControl
        (admission_typed_config p c), admission_layer p)"
    "buildAdmissionControlResource p = Inr (cilium_admission_config p c, admission_layer p)"
    using assms(2) by (simp_all add: renderAdmissionControl_def buildAdmissionControlResource_def admission_layer_def)
  ultimately show ?thesis
    by - (rule exI [of _ "admission_typed_config p c"], rule exI [of _ "cilium_admission_config p c"],
      intro conjI; assumption)
qed

theorem threshold_units_witness:
  "pushed_threshold guarded_policy = Some (JFloat (flit 9 10)) \<and>
   mustParseFloat (EffectiveSuccessRateThreshold guarded_policy) = fof_int 90"
proof -
  have h: "HasAdmissionControl guarded_policy" by (simp add: HasAdmissionControl_def guarded_policy_def)
  obtain c where c: "AdmissionControl (Spec guarded_policy) = Some c" by (simp add: guarded_policy_def)
  have x: "mustParseFloat (EffectiveSuccessRateThreshold guarded_policy) = fof_int 90" by code_simp
  have "fdiv (fof_int 90) (fof_int 100) = flit 9 10" by code_simp
  with threshold_units [OF h c x [symmetric]] x show ?thesis by auto
qed

subsection \<open>Profile switches and layer names\<close>

text \<open>C33. A profile switch never changes what is installed: rendering the policy with another active profile
  yields the same objects by kind, name and namespace in the same order, the same filters and the same
  runtime layers by name; only values inside them change.\<close>

theorem profile_switch_keeps_shape:
  assumes "DetectAndBuild c p = Inr r" "q = p\<lparr>Spec := (Spec p)\<lparr>ActiveProfile := prof\<rparr>\<rparr>"
    and "r_Render r ord p = Inr res" "r_Render r ord q = Inr res'"
  shows "DetectAndBuild c q = Inr r \<and> ManagedResourceRefs res' = ManagedResourceRefs res \<and>
    ActiveFilterNames res' = ActiveFilterNames res \<and> map fst (RTDSLayers res') = map fst (RTDSLayers res)"
proof -
  have spec: "AdmissionControl (Spec q) = AdmissionControl (Spec p)" "AdaptiveConcurrency (Spec q) = AdaptiveConcurrency (Spec p)"
    "StreamingProtection (Spec q) = StreamingProtection (Spec p)" "HasAdmissionControl q = HasAdmissionControl p"
    "HasAdaptiveConcurrency q = HasAdaptiveConcurrency p" "HasStreamingProtection q = HasStreamingProtection p"
    "EffectiveMeshBackend q = EffectiveMeshBackend p" "Name q = Name p" "Namespace q = Namespace p"
    unfolding assms(2) by (simp_all add: policy_simps EffectiveMeshBackend_def)
  then have names: "layer_name q s = layer_name p s" "istio_ref q k n = istio_ref p k n"
    "admissionControlName q = admissionControlName p" "adaptiveConcurrencyName q = adaptiveConcurrencyName p"
    "statsFlushName q = statsFlushName p" "skipPathsName q = skipPathsName p"
    "streamingProtectionName q = streamingProtectionName p" "ciliumEnvoyConfigName q = ciliumEnvoyConfigName p" for s k n
    by (simp_all add: layer_name_def istio_ref_def object_names ciliumEnvoyConfigName_def)
  have d: "DetectAndBuild c q = Inr r" using assms(1) unfolding DetectAndBuild_def spec .
  have l: "map fst (filter_layers q) = map fst (filter_layers p)" by (simp add: filter_layers_def spec names)
  have i: "map ref_of (istio_objects_of ord q) = map ref_of (istio_objects_of ord p)"
  proof -
    have "ref_of (projr (renderStreamingProtection ord q)) = ref_of (projr (renderStreamingProtection ord p))"
      if "HasStreamingProtection p"
      using HasStreamingProtection_Some [OF that] streaming_object(2) spec names by metis
    then show ?thesis by (auto simp: istio_objects_of_def spec names split: option.splits)
  qed
  have n: "cilium_configs q = [] \<longleftrightarrow> cilium_configs p = []"
    by (auto simp: cilium_configs_def spec split: option.splits)
  show ?thesis using DetectAndBuild_cases [OF assms(1)] assms(3,4) d l i n
    by (auto simp: IstioRender_eq CiliumRender_eq spec names cilium_object_facts)
qed

theorem profile_switch_keeps_shape_witness:
  "\<exists>res res'. CiliumRender rev guarded_policy = Inr res \<and>
    CiliumRender rev (guarded_policy\<lparr>Spec := (Spec guarded_policy)\<lparr>ActiveProfile := ''strict''\<rparr>\<rparr>) = Inr res' \<and>
    ManagedResourceRefs res' = ManagedResourceRefs res"
proof -
  let ?q = "guarded_policy\<lparr>Spec := (Spec guarded_policy)\<lparr>ActiveProfile := ''strict''\<rparr>\<rparr>"
  obtain res res' where r: "CiliumRender rev guarded_policy = Inr res" "CiliumRender rev ?q = Inr res'"
    using cilium.total by blast
  then have s: "r_Render CiliumRenderer rev guarded_policy = Inr res" "r_Render CiliumRenderer rev ?q = Inr res'"
    by simp_all
  from profile_switch_keeps_shape [OF guarded_backend refl s] r show ?thesis by blast
qed

text \<open>What the Cilium backend leaves out: it renders the same whatever paths are to bypass admission control.\<close>

lemma CiliumRender_drops_skip_paths:
  assumes "AdmissionControl (Spec p) = Some c"
  shows "CiliumRender ord (p\<lparr>Spec := (Spec p)\<lparr>AdmissionControl := Some (c\<lparr>ac_SkipPaths := paths\<rparr>)\<rparr>\<rparr>) =
    CiliumRender ord p" (is "CiliumRender ord ?q = _")
proof -
  have a: "ActiveProfileConfig ?q = ActiveProfileConfig p" by (simp add: ActiveProfileConfig_def)
  have e: "HasAdmissionControl ?q = HasAdmissionControl p" "HasAdaptiveConcurrency ?q = HasAdaptiveConcurrency p"
    "IsDryRun ?q = IsDryRun p" "EffectiveSuccessRateThreshold ?q = EffectiveSuccessRateThreshold p"
    "EffectiveSheddingSpeed ?q = EffectiveSheddingSpeed p" "EffectiveSuccessRateWindow ?q = EffectiveSuccessRateWindow p"
    "EffectiveLatencyPercentile ?q = EffectiveLatencyPercentile p"
    using assms by (simp_all add: HasAdmissionControl_def HasAdaptiveConcurrency_def IsDryRun_def
      EffectiveSuccessRateThreshold_def EffectiveSheddingSpeed_def EffectiveSuccessRateWindow_def
      EffectiveLatencyPercentile_def a)
  have c: "cilium_configs ?q = cilium_configs p" "filter_layers ?q = filter_layers p"
    using assms by (simp_all add: cilium_configs_def filter_layers_def cilium_admission_config_def http_ranges_def
      cilium_concurrency_config_def admission_layer_def concurrency_layer_def layer_name_def e split: option.split)
  have "cilium_object ord ?q = cilium_object ord p"
    by (simp add: cilium_object_def c buildCiliumEnvoyConfig_def Let_def new_object_def resourceLabels_def
      ownerReferences_def listener_resource_def ciliumEnvoyConfigName_def)
  then show ?thesis unfolding CiliumRender_eq c e by simp
qed

definition subscribed_names :: "jval list" where
  \<comment> \<open>the runtime names the installed bootstrap patch makes Envoy subscribe to\<close>
  "subscribed_names = concat (map (\<lambda>v. case jget v [''name''] of Some n \<Rightarrow> [n] | None \<Rightarrow> [])
     (occurrences ''rtds_layer'' (JMap (BootstrapPatch rtdsServiceHost))))"

text \<open>No runtime layer a backend renders, and hence none the controller pushes, has the one runtime name that
  the bootstrap patch makes Envoy subscribe to.\<close>

theorem layers_never_subscribed:
  assumes "DetectAndBuild c p = Inr r" "r_Render r ord p = Inr res" "n \<in> fst ` set (RTDSLayers res)"
  shows "subscribed_names = [JStr ''shedpilot-runtime''] \<and> JStr n \<notin> set subscribed_names"
proof -
  have s: "subscribed_names = [JStr ''shedpilot-runtime'']"
    by (simp add: subscribed_names_def BootstrapPatch_def)
  have "n \<noteq> ''shedpilot-runtime''"
    by (rule renderer_contract.layer_not_subscribed [OF chosen_contract [OF assms(1)] assms(2,3)])
  then show ?thesis unfolding s by auto
qed

theorem layers_never_subscribed_witness:
  "\<exists>res. CiliumRender rev guarded_policy = Inr res \<and>
    layer_name guarded_policy ''admission-control'' \<in> fst ` set (RTDSLayers res) \<and>
    JStr (layer_name guarded_policy ''admission-control'') \<notin> set subscribed_names"
proof -
  obtain res where r: "r_Render CiliumRenderer rev guarded_policy = Inr res"
    using cilium.total [of rev guarded_policy] by auto
  have "HasAdmissionControl guarded_policy" by (simp add: HasAdmissionControl_def guarded_policy_def)
  then have n: "layer_name guarded_policy ''admission-control'' \<in> fst ` set (RTDSLayers res)"
    using cilium.layers r by (simp add: filter_layers_def)
  from layers_never_subscribed [OF guarded_backend r n] n r show ?thesis by auto
qed

text \<open>Rendering is not a function of the policy alone: a policy whose selector has no app label can get two
  different DestinationRules, depending on the order in which Go walks the selector, although the
  interface demands identical output; with an app label the output does not depend on it.\<close>

theorem Render_depends_on_map_order:
  "(\<exists>p ord ord'. is_order ord \<and> is_order ord' \<and> IstioRender ord p \<noteq> IstioRender ord' p) \<and>
   (\<forall>p ord ord'. map_of (Selector (Spec p)) ''app'' = None \<or>
     (IstioRender ord p = IstioRender ord' p \<and> CiliumRender ord p = CiliumRender ord' p))"
proof
  let ?p = "guarded_policy\<lparr>Spec := (Spec guarded_policy)\<lparr>Selector := [(''tier'', ''web''), (''zone'', ''a'')]\<rparr>\<rparr>"
  have "map o_Fields (istio_objects_of (\<lambda>xs. xs) ?p) \<noteq> map o_Fields (istio_objects_of rev ?p)"
    by (simp add: istio_objects_of_def guarded_policy_def HasStreamingProtection_def HasAdmissionControl_def
        HasAdaptiveConcurrency_def sample_defs renderStreamingProtection_def selectorToHost_def set_field_def Let_def)
  then have "IstioRender (\<lambda>xs. xs) ?p \<noteq> IstioRender rev ?p" by (auto simp: IstioRender_eq)
  then show "\<exists>p ord ord'. is_order ord \<and> is_order ord' \<and> IstioRender ord p \<noteq> IstioRender ord' p"
    using is_order_id is_order_rev by blast
qed (use istio.app_label cilium.app_label in blast)

end
