(* ===== verification/Rtds_Props.thy ===== *)
theory Rtds_Props
  imports Rtds_Server
begin

section \<open>Properties of the runtime discovery server\<close>

text \<open>
  A push as a function of the server's state; then the reachable worlds, in which connections and
  pushes interleave: where delivered values come from, when a connection is registered, and two races.
\<close>

subsection \<open>One push\<close>

lemma PushLayer_sends:
  assumes "is_order (stream_order env)" "pack_error env l vals = None"
    and "PushLayer env l vals s = (err, sent, s')"
  shows "map_of (current s') = (map_of (current s))(l \<mapsto> vals) \<and> version s' = version s + 1 \<and>
    streams s' = streams s \<and>
    (\<exists>resp. RuntimeName resp = l \<and> RuntimeFields resp = vals \<and> VersionInfo resp = fmt_d (version s + 1) \<and>
      set sent = (\<lambda>st. (send_to st, resp)) ` {st \<in> snd ` set (streams s).
        \<not> ctx_closed env (send_to st) \<and> send_error env (send_to st) resp = None} \<and>
      (err = None \<longleftrightarrow> (\<forall>st \<in> snd ` set (streams s).
        ctx_closed env (send_to st) \<or> send_error env (send_to st) resp = None)))"
proof -
  let ?s = "update_layer l vals s"
  have "\<exists>resp. buildResponse env ?s l vals = Inr resp \<and> RuntimeName resp = l \<and> RuntimeFields resp = vals \<and>
      VersionInfo resp = fmt_d (version s + 1)"
    using assms(2) by (simp add: buildResponse_def update_layer_def Let_def)
  then obtain resp where resp: "buildResponse env ?s l vals = Inr resp" "RuntimeName resp = l"
    "RuntimeFields resp = vals" "VersionInfo resp = fmt_d (version s + 1)" by blast
  have t: "set (push_targets env ?s) = snd ` set (streams s)"
    using order_set [OF assms(1)] by (simp add: push_targets_def update_layer_def)
  have f: "send_failures env resp sts = [] \<longleftrightarrow> (\<forall>st \<in> set sts.
      ctx_closed env (send_to st) \<or> send_error env (send_to st) resp = None)" for sts
    by (induction sts) (auto simp: send_failures_def split: option.splits)
  have s': "s' = ?s" using assms(3) by (auto simp: PushLayer_def Let_def split: if_splits sum.splits)
  have st: "map_of (current s') = (map_of (current s))(l \<mapsto> vals)" "version s' = version s + 1" "streams s' = streams s"
    by (simp_all add: s' update_layer_def)
  show ?thesis
  proof (cases "push_targets env ?s = []")
    case True
    then have "streams s = []" using t by auto
    then show ?thesis using assms(3) True resp st by (auto simp: PushLayer_def Let_def)
  next
    case False
    then have e: "err = None \<longleftrightarrow> send_failures env resp (push_targets env ?s) = []"
      and s: "sent = map (\<lambda>st. (send_to st, resp)) (filter (\<lambda>st. \<not> ctx_closed env (send_to st) \<and>
        send_error env (send_to st) resp = None) (push_targets env ?s))"
      using assms(3) resp(1) by (auto simp: PushLayer_def Let_def split: if_splits)
    show ?thesis
      by (intro conjI st exI [of _ resp] resp) (simp_all add: e f s t)
  qed
qed

text \<open>C25. A push reaches every stream: it records the values as the layer's current ones and advances the
  version; when the message can be packed, every registered stream that is open and accepts the send
  receives the response with the layer's name, exactly the pushed values and the new version, no other
  stream receives anything, and the result is an error exactly when some open stream refused.\<close>

theorem PushLayer_reaches_every_stream:
  assumes "is_order (stream_order env)" "pack_error env l vals = None"
    and "PushLayer env l vals s = (err, sent, s')"
  shows "map_of (current s') = (map_of (current s))(l \<mapsto> vals) \<and> version s' = version s + 1 \<and>
    streams s' = streams s \<and>
    (\<exists>resp. RuntimeName resp = l \<and> RuntimeFields resp = vals \<and> VersionInfo resp = fmt_d (version s + 1) \<and>
      set sent = (\<lambda>st. (send_to st, resp)) ` {st \<in> snd ` set (streams s).
        \<not> ctx_closed env (send_to st) \<and> send_error env (send_to st) resp = None} \<and>
      (err = None \<longleftrightarrow> (\<forall>st \<in> snd ` set (streams s).
        ctx_closed env (send_to st) \<or> send_error env (send_to st) resp = None)))"
  by (rule PushLayer_sends [OF assms])

definition open_env :: rtds_env where
  \<comment> \<open>every message packs, every stream is open and accepts what it is sent\<close>
  "open_env = \<lparr>pack_error = (\<lambda>_ _. None), stream_order = (\<lambda>xs. xs), layer_order = (\<lambda>xs. xs),
     ctx_closed = (\<lambda>_. False), send_error = (\<lambda>_ _. None)\<rparr>"

theorem PushLayer_reaches_every_stream_witness:
  "\<exists>sent s'. PushLayer open_env ''l'' [(''k'', ''v'')]
      \<lparr>streams = [(''n'', \<lparr>nodeID = ''n'', send_to = 4\<rparr>)], current = [], version = 6\<rparr> = (None, sent, s') \<and>
    version s' = 7 \<and> fst ` set sent = {4}"
proof -
  let ?s = "\<lparr>streams = [(''n'', \<lparr>nodeID = ''n'', send_to = 4\<rparr>)], current = [], version = 6\<rparr>"
  obtain err sent s' where p: "PushLayer open_env ''l'' [(''k'', ''v'')] ?s = (err, sent, s')"
    by (metis prod_cases3)
  have o: "is_order (stream_order open_env)" "pack_error open_env ''l'' [(''k'', ''v'')] = None"
    by (simp_all add: open_env_def)
  from PushLayer_reaches_every_stream [OF o p] have "err = None" "version s' = 7" "fst ` set sent = {4}"
    by (auto simp: open_env_def)
  with p show ?thesis by blast
qed

subsection \<open>Where delivered values come from\<close>

definition pushed :: "world \<Rightarrow> string \<Rightarrow> layer_values \<Rightarrow> bool" where
  \<comment> \<open>a push of these values for this layer has begun; pushes are never forgotten\<close>
  "pushed w l vals \<longleftrightarrow> (\<exists>k p. pushes w k = Some p \<and> push_layer p = l \<and> push_values p = vals)"

definition replay_list :: "world \<Rightarrow> nat \<Rightarrow> (string \<times> layer_values) list" where
  "replay_list w i = (case conns w i of
     Some c \<Rightarrow> (case conn_phase c of Replaying ls \<Rightarrow> ls | _ \<Rightarrow> []) | None \<Rightarrow> [])"

definition sources_ok :: "world \<Rightarrow> bool" where
  "sources_ok w \<longleftrightarrow>
     (\<forall>l vals. (l, vals) \<in> set (current (server w)) \<longrightarrow> pushed w l vals) \<and>
     (\<forall>i l vals. (l, vals) \<in> set (replay_list w i) \<longrightarrow> pushed w l vals) \<and>
     (\<forall>k p resp. pushes w k = Some p \<longrightarrow> push_response p = Some resp \<longrightarrow>
        RuntimeName resp = push_layer p \<and> RuntimeFields resp = push_values p) \<and>
     (\<forall>i resp. (i, resp) \<in> set (delivered w) \<longrightarrow> pushed w (RuntimeName resp) (RuntimeFields resp))"

lemma buildResponse_carries:
  "buildResponse env s l vals = Inr resp \<Longrightarrow> RuntimeName resp = l \<and> RuntimeFields resp = vals"
  by (auto simp: buildResponse_def Let_def split: option.splits)

lemma pushed_mono:
  assumes "\<And>k p. pushes w k = Some p \<Longrightarrow> \<exists>q. pushes w' k = Some q \<and> push_layer q = push_layer p \<and> push_values q = push_values p"
  shows "pushed w l vals \<Longrightarrow> pushed w' l vals"
  unfolding pushed_def using assms by metis

lemma sources_okI:
  assumes "sources_ok w" "\<And>l v. pushed w l v \<Longrightarrow> pushed w' l v"
    and "\<And>l v. (l, v) \<in> set (current (server w')) \<Longrightarrow> (l, v) \<in> set (current (server w)) \<or> pushed w' l v"
    and "\<And>i x. x \<in> set (replay_list w' i) \<Longrightarrow> x \<in> set (replay_list w i) \<or> x \<in> set (current (server w))"
    and "\<And>k p resp. pushes w' k = Some p \<Longrightarrow> push_response p = Some resp \<Longrightarrow>
      (\<exists>q. pushes w k = Some q \<and> push_response q = Some resp \<and> push_layer q = push_layer p \<and>
        push_values q = push_values p) \<or> RuntimeName resp = push_layer p \<and> RuntimeFields resp = push_values p"
    and "\<And>i resp. (i, resp) \<in> set (delivered w') \<Longrightarrow>
      (i, resp) \<in> set (delivered w) \<or> pushed w (RuntimeName resp) (RuntimeFields resp)"
  shows "sources_ok w'"
  unfolding sources_ok_def
proof (intro conjI allI impI)
  show "pushed w' l v" if "(l, v) \<in> set (current (server w'))" for l v
    using assms(3) [OF that] assms(1,2) by (auto simp: sources_ok_def)
  show "pushed w' l v" if "(l, v) \<in> set (replay_list w' i)" for i l v
    using assms(4) [OF that] assms(1,2) by (auto simp: sources_ok_def)
  show "pushed w' (RuntimeName resp) (RuntimeFields resp)" if "(i, resp) \<in> set (delivered w')" for i resp
    using assms(6) [OF that] assms(1,2) by (auto simp: sources_ok_def)
  show "RuntimeName resp = push_layer p" "RuntimeFields resp = push_values p"
    if "pushes w' k = Some p" "push_response p = Some resp" for k p resp
    using assms(5) [OF that] assms(1) by (auto simp: sources_ok_def)
qed

lemma pushed_upd:
  "pushed (w\<lparr>conns := c\<rparr>) = pushed w" "pushed (w\<lparr>server := s\<rparr>) = pushed w" "pushed (w\<lparr>delivered := d\<rparr>) = pushed w"
  by (simp_all add: pushed_def [abs_def])

lemma pushed_step:
  assumes "rtds_step env w w'" "pushed w l v"
  shows "pushed w' l v"
proof (rule pushed_mono [OF _ assms(2)])
  show "\<exists>q. pushes w' k = Some q \<and> push_layer q = push_layer p \<and> push_values q = push_values p"
    if "pushes w k = Some p" for k p
    using assms(1) that by cases auto
qed

lemma set_update: "set (AList.update k v m) \<subseteq> insert (k, v) (set m)"
  by (induction m) auto

lemma sources_step:
  assumes "rtds_step env w w'" "sources_ok w" "is_order (layer_order env)"
  shows "sources_ok w'"
proof (rule sources_okI [OF assms(2)])
  show "pushed w l v \<Longrightarrow> pushed w' l v" for l v by (rule pushed_step [OF assms(1)])
  show "(l, v) \<in> set (current (server w')) \<Longrightarrow> (l, v) \<in> set (current (server w)) \<or> pushed w' l v" for l v
    using assms(1)
  proof cases
    case (push_begin k n vals)
    have "pushed w' n vals" using push_begin by (auto simp: pushed_def)
    moreover assume "(l, v) \<in> set (current (server w'))"
    ultimately show ?thesis using push_begin(1) set_update [of n vals "current (server w)"]
      by (auto simp: update_layer_def)
  qed auto
  show "x \<in> set (replay_list w' i) \<Longrightarrow> x \<in> set (replay_list w i) \<or> x \<in> set (current (server w))" for i x
    using assms(1)
  proof cases
    case (connect j n node now)
    have "set (initial_replay env (current (server w))) \<subseteq> set (current (server w))"
      using order_set [OF assms(3), of "current (server w)"] by (auto simp: initial_replay_def)
    moreover assume "x \<in> set (replay_list w' i)"
    ultimately show ?thesis using connect(1)
      by (auto simp: replay_list_def currentSnapshot_def split: if_splits)
  qed (auto simp: replay_list_def split: if_splits)
  show "(\<exists>q. pushes w k = Some q \<and> push_response q = Some resp \<and> push_layer q = push_layer p \<and>
      push_values q = push_values p) \<or> RuntimeName resp = push_layer p \<and> RuntimeFields resp = push_values p"
    if "pushes w' k = Some p" "push_response p = Some resp" for k p resp
    using assms(1)
  proof cases
    case (push_build m q r)
    then show ?thesis using that buildResponse_carries [OF push_build(5)] by (auto split: if_splits)
  qed (use that in \<open>auto split: if_splits\<close>)
  show "(i, resp) \<in> set (delivered w) \<or> pushed w (RuntimeName resp) (RuntimeFields resp)"
    if "(i, resp) \<in> set (delivered w')" for i resp
    using assms(1)
  proof cases
    case (replay j n l vals ls r)
    have "(l, vals) \<in> set (replay_list w j)" using replay(2) by (simp add: replay_list_def)
    then have "pushed w l vals" using assms(2) by (auto simp: sources_ok_def)
    then show ?thesis using replay that buildResponse_carries [OF replay(3)] by auto
  next
    case (push_send k p r j)
    then have "pushed w (RuntimeName r) (RuntimeFields r)"
      using assms(2) by (fastforce simp: sources_ok_def pushed_def)
    then show ?thesis using push_send that by auto
  qed (use that in auto)
qed

text \<open>C26. Streams only ever receive pushed values: in every reachable interleaving of connections, replays,
  disconnections and pushes, every response a stream has received, every layer still waiting to be replayed
  to one and every current layer of the server carries the values of some push of that very layer.\<close>

theorem delivered_values_were_pushed:
  assumes "reachable env w" "is_order (layer_order env)"
  shows "list_all (\<lambda>(i, resp). pushed w (RuntimeName resp) (RuntimeFields resp)) (delivered w) \<and>
    list_all (\<lambda>(l, vals). pushed w l vals) (current (server w)) \<and>
    (\<forall>i. list_all (\<lambda>(l, vals). pushed w l vals) (replay_list w i))"
proof -
  have "sources_ok w"
    using assms(1) unfolding reachable_def
  proof (induction rule: rtranclp_induct)
    case base
    show ?case by (simp add: sources_ok_def init_world_def NewServer_def replay_list_def)
  next
    case (step y z)
    then show ?case using sources_step assms(2) by blast
  qed
  then show ?thesis by (auto simp: sources_ok_def list_all_iff)
qed

abbreviation sample_values :: layer_values where
  "sample_values \<equiv> [(''admission_control.enabled'', ''true'')]"

definition pushed_world :: "layer_values list \<Rightarrow> world" where
  \<comment> \<open>the server after pushes of one layer to nobody\<close>
  "pushed_world vs = foldl (\<lambda>w (k, v). w\<lparr>server := update_layer ''l'' v (server w), pushes := (pushes w)(k \<mapsto>
     \<lparr>push_layer = ''l'', push_values = v, push_response = None, push_to = []\<rparr>)\<rparr>) init_world (enumerate 0 vs)"

lemma pushed_world_one:
  "pushed_world [v] = \<lparr>server = \<lparr>streams = [], current = [(''l'', v)], version = 1\<rparr>, conns = Map.empty,
     pushes = [0 \<mapsto> \<lparr>push_layer = ''l'', push_values = v, push_response = None, push_to = []\<rparr>], delivered = []\<rparr>"
  by (simp add: pushed_world_def init_world_def NewServer_def update_layer_def)

lemma reach_pushed_one: "is_order (stream_order env) \<Longrightarrow> reachable env (pushed_world [v])"
proof -
  assume o: "is_order (stream_order env)"
  have "push_targets env (update_layer ''l'' v NewServer) = []"
    using order_Nil_iff [OF o, of "[]"] by (simp add: push_targets_def update_layer_def NewServer_def)
  then have "rtds_step env init_world (pushed_world [v])"
    using push_begin [of init_world 0 env "''l''" v]
    by (simp add: pushed_world_def init_world_def)
  then show ?thesis by (simp add: reachable_def)
qed

theorem delivered_values_were_pushed_witness:
  "reachable open_env (pushed_world [sample_values]) \<and> pushed (pushed_world [sample_values]) ''l'' sample_values"
proof -
  have r: "reachable open_env (pushed_world [sample_values])"
    by (rule reach_pushed_one) (simp add: open_env_def)
  have "is_order (layer_order open_env)" by (simp add: open_env_def)
  from delivered_values_were_pushed [OF r this] r show ?thesis by (simp add: pushed_world_one)
qed

subsection \<open>Registration\<close>

definition steady_step :: "rtds_env \<Rightarrow> world \<Rightarrow> world \<Rightarrow> bool" where
  \<comment> \<open>a step that does not replace the registration of a connected node\<close>
  "steady_step env w w' \<longleftrightarrow> rtds_step env w w' \<and>
     (\<forall>n st. map_of (streams (server w)) n = Some st \<longrightarrow> map_of (streams (server w')) n \<in> {None, Some st})"

definition connected :: "world \<Rightarrow> nat \<Rightarrow> string \<Rightarrow> bool" where
  "connected w i n \<longleftrightarrow> (\<exists>ph. conns w i = Some \<lparr>conn_node = n, conn_phase = ph\<rparr> \<and> ph \<noteq> Closed)"

definition registered :: "world \<Rightarrow> bool" where
  "registered w \<longleftrightarrow>
     (\<forall>i n. connected w i n \<longrightarrow> map_of (streams (server w)) n = Some \<lparr>nodeID = n, send_to = i\<rparr>)"

lemma registered_step:
  assumes "steady_step env w w'" "registered w"
  shows "registered w'"
proof -
  from assms(1) have st: "rtds_step env w w'" and keep: "\<And>n st. map_of (streams (server w)) n = Some st \<Longrightarrow>
      map_of (streams (server w')) n \<in> {None, Some st}" by (auto simp: steady_step_def)
  show ?thesis unfolding registered_def
  proof (intro allI impI)
    fix j m assume c: "connected w' j m"
    show "map_of (streams (server w')) m = Some \<lparr>nodeID = m, send_to = j\<rparr>"
      using st
    proof cases
      case (connect i n node now)
      show ?thesis
      proof (cases "j = i")
        case True
        then show ?thesis using c connect by (auto simp: connected_def)
      next
        case False
        then have "connected w j m" using c connect by (auto simp: connected_def)
        then have "map_of (streams (server w)) m = Some \<lparr>nodeID = m, send_to = j\<rparr>"
          using assms(2) by (auto simp: registered_def)
        with keep [OF this] connect show ?thesis by (auto split: if_splits)
      qed
    next
      case (disconnect i n)
      have ne: "j \<noteq> i" using c disconnect(1) by (auto simp: connected_def)
      then have "connected w j m" using c disconnect(1) by (auto simp: connected_def)
      then have r: "map_of (streams (server w)) m = Some \<lparr>nodeID = m, send_to = j\<rparr>"
        using assms(2) by (auto simp: registered_def)
      have "connected w i n" using disconnect(2) by (auto simp: connected_def)
      then have "map_of (streams (server w)) n = Some \<lparr>nodeID = n, send_to = i\<rparr>"
        using assms(2) by (auto simp: registered_def)
      with r ne have "m \<noteq> n" by auto
      then show ?thesis using r disconnect(1) by simp
    qed (use c assms(2) in \<open>auto simp: connected_def registered_def update_layer_def split: if_splits\<close>)
  qed
qed

text \<open>C28. As long as no node connects a second time while it is registered, every connected stream (replaying or
  live) is registered under its node, so every later push addresses it; other connections coming and
  going never remove it.\<close>

theorem connected_streams_are_registered:
  assumes "(steady_step env)\<^sup>*\<^sup>* init_world w" "connected w i n" "is_order (stream_order env)"
  shows "\<lparr>nodeID = n, send_to = i\<rparr> \<in> set (push_targets env (server w))"
proof -
  have "registered w" using assms(1)
  proof (induction rule: rtranclp_induct)
    case base
    show ?case by (simp add: registered_def connected_def init_world_def)
  next
    case (step y z)
    then show ?case using registered_step by blast
  qed
  then have "map_of (streams (server w)) n = Some \<lparr>nodeID = n, send_to = i\<rparr>"
    using assms(2) by (simp add: registered_def)
  then show ?thesis using order_set [OF assms(3), of "streams (server w)"]
    by (force simp: push_targets_def dest: map_of_SomeD)
qed

lemma open_env_orders [simp]: "is_order (stream_order open_env)" "is_order (layer_order open_env)"
  by (simp_all add: open_env_def)

definition one_stream :: "nat \<Rightarrow> phase \<Rightarrow> world" where
  \<comment> \<open>node \<open>n\<close> connected to the fresh server\<close>
  "one_stream i ph = init_world\<lparr>server := NewServer\<lparr>streams := [(''n'', \<lparr>nodeID = ''n'', send_to = i\<rparr>)]\<rparr>,
     conns := [i \<mapsto> \<lparr>conn_node = ''n'', conn_phase = ph\<rparr>]\<rparr>"

lemma first_connect: "rtds_step open_env init_world (one_stream 0 (Replaying []))"
  using connect [of init_world 0 "''n''" "Some ''n''" 0 open_env]
  by (simp add: one_stream_def init_world_def NewServer_def currentSnapshot_def initial_replay_def)

theorem connected_streams_are_registered_witness:
  "\<lparr>nodeID = ''n'', send_to = 0\<rparr> \<in> set (push_targets open_env (server (one_stream 0 (Replaying []))))"
proof (rule connected_streams_are_registered)
  have "steady_step open_env init_world (one_stream 0 (Replaying []))"
    using first_connect by (simp add: steady_step_def init_world_def NewServer_def)
  then show "(steady_step open_env)\<^sup>*\<^sup>* init_world (one_stream 0 (Replaying []))" by blast
  show "connected (one_stream 0 (Replaying [])) 0 ''n''" by (simp add: connected_def one_stream_def)
qed simp

subsection \<open>Two races\<close>

text \<open>C39. A reconnecting proxy can be dropped: when a node connects again before its old stream ends, the old
  stream's cleanup deletes the entry of the node, not of the stream, so a world is reachable in which the
  node's second stream is live and the server has no stream to push to.\<close>

theorem reconnect_race:
  "\<exists>w. reachable open_env w \<and> conns w 1 = Some \<lparr>conn_node = ''n'', conn_phase = Live\<rparr> \<and>
    push_targets open_env (server w) = [] \<and> ConnectedCount (server w) = 0"
proof -
  let ?st = "\<lambda>i. NewServer\<lparr>streams := [(''n'', \<lparr>nodeID = ''n'', send_to = i\<rparr>)]\<rparr>"
  let ?c = "\<lambda>ph. \<lparr>conn_node = ''n'', conn_phase = ph\<rparr>"
  let ?w = "\<lambda>s p0 p1. init_world\<lparr>server := s, conns := [0 \<mapsto> ?c p0, Suc 0 \<mapsto> ?c p1]\<rparr>"
  have s1: "rtds_step open_env (one_stream 0 (Replaying [])) (?w (?st 1) (Replaying []) (Replaying []))"
    using connect [of "one_stream 0 (Replaying [])" 1 "''n''" "Some ''n''" 0 open_env]
    by (simp add: one_stream_def init_world_def NewServer_def currentSnapshot_def initial_replay_def)
  have s2: "rtds_step open_env (?w (?st 1) (Replaying []) (Replaying [])) (?w (?st 1) Live (Replaying []))"
    using replay_over [of "?w (?st 1) (Replaying []) (Replaying [])" 0 "''n''" "[]" open_env]
    by (simp add: init_world_def fun_upd_twist replay_stops_def)
  have s3: "rtds_step open_env (?w (?st 1) Live (Replaying [])) (?w (?st 1) Live Live)"
    using replay_over [of "?w (?st 1) Live (Replaying [])" 1 "''n''" "[]" open_env]
    by (simp add: init_world_def replay_stops_def)
  have s4: "rtds_step open_env (?w (?st 1) Live Live) (?w NewServer Closed Live)"
    using disconnect [of "?w (?st 1) Live Live" 0 "''n''" open_env]
    by (simp add: init_world_def fun_upd_twist NewServer_def)
  have "(rtds_step open_env)\<^sup>*\<^sup>* init_world (?w NewServer Closed Live)"
    using first_connect s1 s2 s3 s4 by (meson rtranclp.rtrancl_into_rtrancl rtranclp.rtrancl_refl)
  then show ?thesis
    by (intro exI [of _ "?w NewServer Closed Live"])
      (simp add: reachable_def push_targets_def NewServer_def open_env_def ConnectedCount_def)
qed

text \<open>The worlds of the second race: node \<open>n\<close> replays the values \<open>v0\<close> of a layer that has just been pushed with \<open>v1\<close>.\<close>

definition race_world :: "layer_values \<Rightarrow> layer_values \<Rightarrow> phase \<Rightarrow> DiscoveryResponse option \<Rightarrow> nat list \<Rightarrow>
    (nat \<times> DiscoveryResponse) list \<Rightarrow> world" where
  "race_world v0 v1 ph r to d =
     \<lparr>server = \<lparr>streams = [(''n'', \<lparr>nodeID = ''n'', send_to = 0\<rparr>)], current = [(''l'', v1)], version = 2\<rparr>,
      conns = [0 \<mapsto> \<lparr>conn_node = ''n'', conn_phase = ph\<rparr>],
      pushes = [0 \<mapsto> \<lparr>push_layer = ''l'', push_values = v0, push_response = None, push_to = []\<rparr>,
        Suc 0 \<mapsto> \<lparr>push_layer = ''l'', push_values = v1, push_response = r, push_to = to\<rparr>], delivered = d\<rparr>"

definition race_response :: "layer_values \<Rightarrow> DiscoveryResponse" where
  "race_response v = \<lparr>VersionInfo = fmt_d 2, TypeUrl = rtdsTypeURL, RuntimeName = ''l'', RuntimeFields = v,
     Nonce = ''shedpilot-'' @ ''l'' @ ''-'' @ fmt_d 2\<rparr>"

lemma race_build_response: "buildResponse open_env (server (race_world v0 v1 ph r to d)) ''l'' v = Inr (race_response v)"
  by (simp add: open_env_def buildResponse_def race_world_def race_response_def Let_def)

lemma race_reachable: "reachable open_env (race_world v0 v1 (Replaying [(''l'', v0)]) None [0] [])"
proof -
  let ?w1 = "\<lparr>server = \<lparr>streams = [(''n'', \<lparr>nodeID = ''n'', send_to = 0\<rparr>)], current = [(''l'', v0)], version = 1\<rparr>,
    conns = [0 \<mapsto> \<lparr>conn_node = ''n'', conn_phase = Replaying [(''l'', v0)]\<rparr>],
    pushes = [0 \<mapsto> \<lparr>push_layer = ''l'', push_values = v0, push_response = None, push_to = []\<rparr>], delivered = []\<rparr>"
  note sim = open_env_def currentSnapshot_def update_layer_def push_targets_def initial_replay_def
  have "rtds_step open_env (pushed_world [v0]) ?w1"
    using connect [of "pushed_world [v0]" 0 "''n''" "Some ''n''" 0 open_env] by (simp add: pushed_world_one sim)
  moreover have "rtds_step open_env ?w1 (race_world v0 v1 (Replaying [(''l'', v0)]) None [0] [])"
    using push_begin [of ?w1 1 open_env "''l''" v1] by (simp add: sim race_world_def)
  moreover have "reachable open_env (pushed_world [v0])" by (rule reach_pushed_one) simp
  ultimately show ?thesis unfolding reachable_def by (meson rtranclp.rtrancl_into_rtrancl)
qed

lemma race_steps:
  "rtds_step open_env (race_world v0 v1 ph None [0] []) (race_world v0 v1 ph (Some (race_response v1)) [0] [])"
  "rtds_step open_env (race_world v0 v1 ph (Some r) [0] []) (race_world v0 v1 ph (Some r) [] [(0, r)])"
  "rtds_step open_env (race_world v0 v1 (Replaying [(''l'', v)]) q to d)
     (race_world v0 v1 (Replaying []) q to (d @ [(0, race_response v)]))"
  "rtds_step open_env (race_world v0 v1 (Replaying []) q to d) (race_world v0 v1 Live q to d)"
proof -
  let ?W = "race_world v0 v1"
  show "rtds_step open_env (?W ph None [0] []) (?W ph (Some (race_response v1)) [0] [])"
    using push_build [of "?W ph None [0] []" "Suc 0" "\<lparr>push_layer = ''l'', push_values = v1, push_response = None,
        push_to = [0]\<rparr>" open_env "race_response v1"] race_build_response [of v0 v1 ph None "[0]" "[]" v1]
    by (simp add: race_world_def)
  show "rtds_step open_env (?W ph (Some r) [0] []) (?W ph (Some r) [] [(0, r)])"
    using push_send [of "?W ph (Some r) [0] []" 1 _ r 0 open_env] by (simp add: race_world_def open_env_def)
  show "rtds_step open_env (?W (Replaying [(''l'', v)]) q to d) (?W (Replaying []) q to (d @ [(0, race_response v)]))"
    using replay [of "?W (Replaying [(''l'', v)]) q to d" 0 "''n''" "''l''" v "[]" open_env, OF _ race_build_response]
    by (simp add: race_world_def open_env_def)
  show "rtds_step open_env (?W (Replaying []) q to d) (?W Live q to d)"
    using replay_over [of "?W (Replaying []) q to d" 0 "''n''" "[]" open_env] by (simp add: race_world_def replay_stops_def)
qed

text \<open>C40. A replay can undo a push: the snapshot a new stream replays is taken before, and sent after, a push
  that reaches the same stream, so a quiescent world is reachable in which the last values the stream received
  for a layer are older than the layer's current values, under the very same version.\<close>

theorem stale_replay_race:
  assumes "v0 \<noteq> v1"
  shows "\<exists>w new old. reachable open_env w \<and> conns w 0 = Some \<lparr>conn_node = ''n'', conn_phase = Live\<rparr> \<and>
    (\<forall>k p. pushes w k = Some p \<longrightarrow> push_to p = []) \<and>
    map_of (current (server w)) ''l'' = Some v1 \<and> delivered w = [(0, new), (0, old)] \<and>
    RuntimeName new = ''l'' \<and> RuntimeName old = ''l'' \<and> RuntimeFields new = v1 \<and> RuntimeFields old = v0 \<and>
    VersionInfo old = VersionInfo new"
proof -
  let ?W = "race_world v0 v1" and ?r = race_response
  let ?w = "?W Live (Some (?r v1)) [] [(0, ?r v1), (0, ?r v0)]"
  have "reachable open_env ?w"
    using race_reachable [of v0 v1] race_steps(1) [of v0 v1 "Replaying [(''l'', v0)]"]
      race_steps(2) [of v0 v1 "Replaying [(''l'', v0)]" "?r v1"] race_steps(3) [of v0 v1 v0 "Some (?r v1)" "[]" "[(0, ?r v1)]", simplified append.simps]
      race_steps(4) [of v0 v1 "Some (?r v1)" "[]" "[(0, ?r v1), (0, ?r v0)]"]
    unfolding reachable_def by (meson rtranclp.rtrancl_into_rtrancl)
  then show ?thesis
    by (intro exI [of _ ?w] exI [of _ "?r v1"] exI [of _ "?r v0"]) (simp add: race_world_def race_response_def)
qed

theorem stale_replay_race_witness:
  "\<exists>w new old. reachable open_env w \<and> delivered w = [(0, new), (0, old)] \<and>
    RuntimeFields new = [(''k'', ''new'')] \<and> RuntimeFields old = [(''k'', ''old'')]"
proof -
  have "[(''k'', ''old'')] \<noteq> [(''k'', ''new'')]" by simp
  from stale_replay_race [OF this] show ?thesis by blast
qed

end
