(* ===== verification/Rtds_Rest.thy ===== *)
theory Rtds_Rest
  imports Rtds_Props
begin

section \<open>The server comes to rest\<close>

text \<open>
  When no proxy connects and no push starts, the steps the server still has to take are bounded by
  the replays and sends that are outstanding, in any interleaving; and what was outstanding is delivered, save
  to streams that cannot be sent to.
\<close>

fun phase_work :: "phase \<Rightarrow> nat" where
  "phase_work (Replaying ls) = length ls + 2"
| "phase_work Live = 1"
| "phase_work Closed = 0"

definition push_work :: "inflight \<Rightarrow> nat" where
  "push_work p = length (push_to p) + (if push_response p = None then 1 else 0)"

definition total :: "('a \<Rightarrow> nat) \<Rightarrow> (nat \<Rightarrow> 'a option) \<Rightarrow> nat" where
  "total f m = (\<Sum>i \<in> dom m. f (the (m i)))"

definition work :: "world \<Rightarrow> nat" where
  "work w = total (\<lambda>c. phase_work (conn_phase c)) (conns w) + total push_work (pushes w)"

definition bounded_world :: "world \<Rightarrow> bool" where
  "bounded_world w \<longleftrightarrow> finite (dom (conns w)) \<and> finite (dom (pushes w))"

definition inner_step :: "rtds_env \<Rightarrow> world \<Rightarrow> world \<Rightarrow> bool" where
  \<comment> \<open>a step in which no stream connects and no push starts\<close>
  "inner_step env w w' \<longleftrightarrow> rtds_step env w w' \<and> dom (conns w') = dom (conns w) \<and> dom (pushes w') = dom (pushes w)"

lemma total_update:
  assumes "finite (dom m)" "m i = Some a"
  shows "total f (m(i \<mapsto> b)) + f a = total f m + f b"
proof -
  have d: "dom (m(i \<mapsto> b)) = dom m" "i \<in> dom m" using assms(2) by auto
  have "total f (m(i \<mapsto> b)) = f b + (\<Sum>j \<in> dom m - {i}. f (the ((m(i \<mapsto> b)) j)))"
    unfolding total_def d(1) using sum.remove [OF assms(1) d(2), of "\<lambda>j. f (the ((m(i \<mapsto> b)) j))"] by simp
  also have "(\<Sum>j \<in> dom m - {i}. f (the ((m(i \<mapsto> b)) j))) = (\<Sum>j \<in> dom m - {i}. f (the (m j)))"
    by (rule sum.cong) auto
  finally show ?thesis
    unfolding total_def using sum.remove [OF assms(1) d(2), of "\<lambda>j. f (the (m j))"] assms(2) by simp
qed

lemma total_decreases:
  assumes "finite (dom m)" "m i = Some a" "f b < f a"
  shows "total f (m(i \<mapsto> b)) < total f m"
  using total_update [OF assms(1,2), of f b] assms(3) by simp

lemma bounded_step: "rtds_step env w w' \<Longrightarrow> bounded_world w \<Longrightarrow> bounded_world w'"
  by (cases rule: rtds_step.cases) (auto simp: bounded_world_def)

lemma reachable_bounded: "reachable env w \<Longrightarrow> bounded_world w"
  unfolding reachable_def
proof (induction rule: rtranclp_induct)
  case base
  then show ?case by (simp add: init_world_def bounded_world_def)
next
  case (step v w)
  then show ?case using bounded_step by blast
qed

lemma inner_step_works:
  assumes "inner_step env w w'" "bounded_world w"
  shows "work w' < work w"
proof -
  from assms have f: "finite (dom (conns w))" "finite (dom (pushes w))" by (auto simp: bounded_world_def)
  from assms(1) have s: "rtds_step env w w'" and d: "dom (conns w') = dom (conns w)" "dom (pushes w') = dom (pushes w)"
    by (auto simp: inner_step_def)
  show ?thesis
    using s
  proof cases
    case (connect i n now)
    then show ?thesis using d(1) by auto
  next
    case (push_begin k l vals)
    then show ?thesis using d(2) by auto
  next
    case (replay i n l vals ls resp)
    then show ?thesis
      using total_decreases [OF f(1) replay(2), of "\<lambda>c. phase_work (conn_phase c)" "\<lparr>conn_node = n, conn_phase = Replaying ls\<rparr>"]
      by (simp add: work_def)
  next
    case (replay_over i n ls)
    then show ?thesis
      using total_decreases [OF f(1) replay_over(2), of "\<lambda>c. phase_work (conn_phase c)" "\<lparr>conn_node = n, conn_phase = Live\<rparr>"]
      by (simp add: work_def)
  next
    case (disconnect i n)
    then show ?thesis
      using total_decreases [OF f(1) disconnect(2), of "\<lambda>c. phase_work (conn_phase c)" "\<lparr>conn_node = n, conn_phase = Closed\<rparr>"]
      by (simp add: work_def)
  next
    case (push_build k p resp)
    then show ?thesis
      using total_decreases [OF f(2) push_build(2), of push_work "p\<lparr>push_response := Some resp\<rparr>"]
      by (simp add: work_def push_work_def)
  next
    case (push_send k p resp i)
    then show ?thesis
      using total_decreases [OF f(2) push_send(2), of push_work "p\<lparr>push_to := remove1 i (push_to p)\<rparr>"]
      by (auto simp: work_def push_work_def length_remove1 dest: length_pos_if_in_set)
  next
    case (push_drop k p resp i)
    then show ?thesis
      using total_decreases [OF f(2) push_drop(2), of push_work "p\<lparr>push_to := remove1 i (push_to p)\<rparr>"]
      by (auto simp: work_def push_work_def length_remove1 dest: length_pos_if_in_set)
  qed
qed

subsection \<open>What is outstanding\<close>

definition push_answer :: "rtds_env \<Rightarrow> Server \<Rightarrow> inflight \<Rightarrow> DiscoveryResponse option" where
  \<comment> \<open>the response a push sends: the one it has built, or the one it will build\<close>
  "push_answer env s p = (case push_response p of
     Some resp \<Rightarrow> Some resp
   | None \<Rightarrow> (case buildResponse env s (push_layer p) (push_values p) of Inr resp \<Rightarrow> Some resp | Inl e \<Rightarrow> None))"

definition due_replay :: "rtds_env \<Rightarrow> world \<Rightarrow> nat \<Rightarrow> DiscoveryResponse \<Rightarrow> bool" where
  \<comment> \<open>the rest of the snapshot of stream \<open>i\<close> contains the response, before anything that fails\<close>
  "due_replay env w i resp \<longleftrightarrow> resp \<in> set (fst (pushToStream env (server w) i (replay_list w i)))"

definition due_push :: "rtds_env \<Rightarrow> world \<Rightarrow> nat \<Rightarrow> DiscoveryResponse \<Rightarrow> bool" where
  \<comment> \<open>stream \<open>i\<close> is a target, not yet handled, of a push of the response\<close>
  "due_push env w i resp \<longleftrightarrow> (\<exists>k p. pushes w k = Some p \<and> push_answer env (server w) p = Some resp \<and> i \<in> set (push_to p))"

definition lost_to :: "rtds_env \<Rightarrow> world \<Rightarrow> nat \<Rightarrow> DiscoveryResponse \<Rightarrow> bool" where
  "lost_to env w i resp \<longleftrightarrow> ctx_closed env i \<or> closed_stream w i \<or> send_error env i resp \<noteq> None"

definition disconnects :: "world \<Rightarrow> world \<Rightarrow> bool" where
  "disconnects w w' \<longleftrightarrow> (\<exists>i. \<not> closed_stream w i \<and> closed_stream w' i)"

definition idle :: "rtds_env \<Rightarrow> world \<Rightarrow> bool" where
  \<comment> \<open>nothing is left to do but to wait for the streams to end\<close>
  "idle env w \<longleftrightarrow> (\<forall>w'. inner_step env w w' \<longrightarrow> disconnects w w')"

subsection \<open>What one step settles\<close>

lemma closed_stays: "rtds_step env w w' \<Longrightarrow> closed_stream w i \<Longrightarrow> closed_stream w' i"
  by (cases rule: rtds_step.cases) (auto simp: closed_stream_def)

lemma buildResponse_version: "version s = version s' \<Longrightarrow> buildResponse env s = buildResponse env s'"
  by (simp add: buildResponse_def fun_eq_iff)

lemma pushToStream_version: "version s = version s' \<Longrightarrow> pushToStream env s i ls = pushToStream env s' i ls"
  by (induction ls) (auto simp: buildResponse_version [of s s'] split: sum.splits option.splits)

lemma push_answer_version: "version s = version s' \<Longrightarrow> push_answer env s p = push_answer env s' p"
  by (auto simp: push_answer_def buildResponse_version [of s s'] split: option.splits)

lemma inner_version: "inner_step env w w' \<Longrightarrow> version (server w') = version (server w)"
  unfolding inner_step_def by (elim conjE, cases rule: rtds_step.cases, assumption) auto

lemma stopped_replay: "replay_stops env s i ls \<Longrightarrow> fst (pushToStream env s i ls) = []"
  by (cases ls) (auto simp: replay_stops_def split: sum.splits option.splits prod.splits)

lemma replay_settles:
  assumes "inner_step env w w'" "due_replay env w i resp"
  shows "due_replay env w' i resp \<or> (i, resp) \<in> set (drop (length (delivered w)) (delivered w'))"
proof -
  from assms(1) have s: "rtds_step env w w'" and d: "dom (conns w') = dom (conns w)" "dom (pushes w') = dom (pushes w)"
    by (auto simp: inner_step_def)
  note v = pushToStream_version [OF inner_version [OF assms(1)]]
  show ?thesis
    using s
  proof cases
    case (connect j n node now)
    then show ?thesis using d(1) by auto
  next
    case (push_begin k l vals)
    then show ?thesis using d(2) by auto
  next
    case (replay j n l vals ls r)
    then show ?thesis using assms(2)
      by (cases "j = i") (auto simp: due_replay_def replay_list_def case_prod_unfold Let_def)
  next
    case (replay_over j n ls)
    then show ?thesis using assms(2) stopped_replay [OF replay_over(3)]
      by (cases "j = i") (auto simp: due_replay_def replay_list_def)
  next
    case (disconnect j n)
    then show ?thesis using assms(2) v by (cases "j = i") (auto simp: due_replay_def replay_list_def)
  qed (use assms(2) in \<open>auto simp: due_replay_def replay_list_def\<close>)
qed

lemma push_settles:
  assumes "inner_step env w w'" "due_push env w i resp"
  shows "due_push env w' i resp \<or> (i, resp) \<in> set (drop (length (delivered w)) (delivered w')) \<or> lost_to env w' i resp"
proof -
  from assms(1) have s: "rtds_step env w w'" and d: "dom (conns w') = dom (conns w)" "dom (pushes w') = dom (pushes w)"
    by (auto simp: inner_step_def)
  from assms(2) obtain k p where p: "pushes w k = Some p" "push_answer env (server w) p = Some resp" "i \<in> set (push_to p)"
    by (auto simp: due_push_def)
  note v = push_answer_version [OF inner_version [OF assms(1)]]
  have keep: "due_push env w' i resp" if "pushes w' k = Some p" using that p v by (auto simp: due_push_def)
  show ?thesis
    using s
  proof cases
    case (connect j n node now)
    then show ?thesis using d(1) by auto
  next
    case (push_begin m l vals)
    then show ?thesis using d(2) by auto
  next
    case (push_build m q r)
    show ?thesis
    proof (cases "m = k")
      case True
      then have "r = resp" using push_build p(1,2) by (simp add: push_answer_def)
      then have "push_answer env (server w') (p\<lparr>push_response := Some r\<rparr>) = Some resp" by (simp add: push_answer_def)
      moreover have "pushes w' k = Some (p\<lparr>push_response := Some r\<rparr>)" using push_build(1,2) p(1) True by simp
      ultimately show ?thesis using p(3) by (force simp: due_push_def)
    qed (use push_build(1) p(1) keep in simp)
  next
    case (push_send m q r j)
    show ?thesis
    proof (cases "m = k \<and> j = i")
      case True
      then have "r = resp" using push_send p(1,2) by (simp add: push_answer_def)
      then show ?thesis using push_send(1) True by simp
    next
      case False
      then have "\<exists>q'. pushes w' k = Some q' \<and> i \<in> set (push_to q') \<and> push_answer env (server w') q' = Some resp"
        using push_send(1,2) p v by (cases "m = k") (auto simp: push_answer_def in_set_remove1 split: option.splits)
      then show ?thesis by (auto simp: due_push_def)
    qed
  next
    case (push_drop m q r j)
    show ?thesis
    proof (cases "m = k \<and> j = i")
      case True
      then have "r = resp" using push_drop p(1,2) by (simp add: push_answer_def)
      then show ?thesis using push_drop(1,5) True by (auto simp: lost_to_def closed_stream_def)
    next
      case False
      then have "\<exists>q'. pushes w' k = Some q' \<and> i \<in> set (push_to q') \<and> push_answer env (server w') q' = Some resp"
        using push_drop(1,2) p v by (cases "m = k") (auto simp: push_answer_def in_set_remove1 split: option.splits)
      then show ?thesis by (auto simp: due_push_def)
    qed
  qed (use keep p(1) in simp_all)
qed

subsection \<open>What cannot go on has nothing outstanding\<close>

lemma idle_replays:
  assumes "idle env w" "conns w i = Some \<lparr>conn_node = n, conn_phase = Replaying ls\<rparr>"
  shows False
proof -
  have stay: False if s: "rtds_step env w w'" and c: "conns w' = (conns w)(i \<mapsto> \<lparr>conn_node = n, conn_phase = ph\<rparr>)"
    and ph: "ph \<noteq> Closed" and q: "pushes w' = pushes w" for w' ph
  proof -
    have "inner_step env w w'" using s c q assms(2) by (auto simp: inner_step_def)
    then obtain j where "\<not> closed_stream w j" "closed_stream w' j" using assms(1) by (auto simp: idle_def disconnects_def)
    then show False using c ph by (auto simp: closed_stream_def split: if_splits)
  qed
  show False
  proof (cases "replay_stops env (server w) i ls")
    case True
    show False by (rule stay [OF replay_over [OF assms(2) True], of Live]) simp_all
  next
    case False
    then obtain l vals ls' resp where ls: "ls = (l, vals) # ls'" "buildResponse env (server w) l vals = Inr resp"
        "send_error env i resp = None"
      by (cases ls) (auto simp: replay_stops_def split: sum.splits)
    show False by (rule stay [OF replay [OF assms(2) [unfolded ls(1)] ls(2,3)], of "Replaying ls'"]) simp_all
  qed
qed

lemma idle_pushes:
  assumes "idle env w" "due_push env w i resp"
  shows False
proof -
  from assms(2) obtain k p where p: "pushes w k = Some p" "push_answer env (server w) p = Some resp" "i \<in> set (push_to p)"
    by (auto simp: due_push_def)
  have stay: False if s: "rtds_step env w w'" and c: "conns w' = conns w" and q: "pushes w' = (pushes w)(k \<mapsto> p')" for w' p'
  proof -
    have "inner_step env w w'" using s c q p(1) by (auto simp: inner_step_def)
    then show False using assms(1) c by (auto simp: idle_def disconnects_def closed_stream_def)
  qed
  have ne: "push_to p \<noteq> []" using p(3) by auto
  show False
  proof (cases "push_response p")
    case None
    with p(2) have b: "buildResponse env (server w) (push_layer p) (push_values p) = Inr resp"
      by (simp add: push_answer_def split: sum.splits)
    show False by (rule stay [OF push_build [OF p(1) None ne b]]) simp_all
  next
    case (Some r)
    show False
    proof (cases "\<not> ctx_closed env i \<and> send_error env i r = None")
      case True
      show False by (rule stay [OF push_send [OF p(1) Some p(3) True]]) simp_all
    next
      case False
      then have d: "ctx_closed env i \<or> closed_stream w i \<or> send_error env i r \<noteq> None" by auto
      show False by (rule stay [OF push_drop [OF p(1) Some p(3) d]]) simp_all
    qed
  qed
qed

definition all_served :: "rtds_env \<Rightarrow> world \<Rightarrow> world \<Rightarrow> bool" where
  \<comment> \<open>between the two worlds everything outstanding in the first was delivered, unless its stream cannot be sent to\<close>
  "all_served env w w' \<longleftrightarrow>
     (\<forall>i. case conns w' i of Some c \<Rightarrow> conn_phase c \<in> {Live, Closed} | None \<Rightarrow> True) \<and>
     (\<forall>i resp. due_replay env w i resp \<longrightarrow> (i, resp) \<in> set (drop (length (delivered w)) (delivered w'))) \<and>
     (\<forall>i resp. due_push env w i resp \<longrightarrow>
       (i, resp) \<in> set (drop (length (delivered w)) (delivered w')) \<or> lost_to env w' i resp)"

lemma inner_delivers: "inner_step env w w' \<Longrightarrow> \<exists>new. delivered w' = delivered w @ new"
  unfolding inner_step_def by (elim conjE, cases rule: rtds_step.cases, assumption) auto

definition settled_since :: "rtds_env \<Rightarrow> world \<Rightarrow> world \<Rightarrow> bool" where
  "settled_since env w w' \<longleftrightarrow> (\<exists>new. delivered w' = delivered w @ new \<and>
     (\<forall>i resp. due_replay env w i resp \<longrightarrow> due_replay env w' i resp \<or> (i, resp) \<in> set new) \<and>
     (\<forall>i resp. due_push env w i resp \<longrightarrow> due_push env w' i resp \<or> (i, resp) \<in> set new \<or> lost_to env w' i resp))"

lemma settled_step:
  assumes "settled_since env w v" "inner_step env v w'"
  shows "settled_since env w w'"
proof -
  from assms(1) obtain new where new: "delivered v = delivered w @ new"
    "\<And>i resp. due_replay env w i resp \<Longrightarrow> due_replay env v i resp \<or> (i, resp) \<in> set new"
    "\<And>i resp. due_push env w i resp \<Longrightarrow> due_push env v i resp \<or> (i, resp) \<in> set new \<or> lost_to env v i resp"
    by (auto simp: settled_since_def)
  obtain more where more: "delivered w' = delivered v @ more" using inner_delivers [OF assms(2)] by blast
  have "rtds_step env v w'" using assms(2) by (simp add: inner_step_def)
  then have "lost_to env v i resp \<Longrightarrow> lost_to env w' i resp" for i resp
    using closed_stays by (auto simp: lost_to_def)
  then show ?thesis
    using new replay_settles [OF assms(2)] push_settles [OF assms(2)] more
    unfolding settled_since_def by (intro exI [of _ "new @ more"]) (simp, blast)
qed

lemma settled_idle:
  assumes "settled_since env w w'" "idle env w'"
  shows "all_served env w w'"
proof -
  have ph: "conn_phase c \<in> {Live, Closed}" if "conns w' i = Some c" for i c
    using idle_replays [OF assms(2), of i "conn_node c"] that by (cases c; cases "conn_phase c") auto
  then have "\<not> due_replay env w' i resp" for i resp
    by (force simp: due_replay_def replay_list_def split: option.splits phase.splits)
  moreover have "\<not> due_push env w' i resp" for i resp using idle_pushes [OF assms(2)] by blast
  moreover obtain new where "delivered w' = delivered w @ new" using assms(1) by (auto simp: settled_since_def)
  ultimately show ?thesis using assms(1) ph
    unfolding settled_since_def all_served_def by (auto split: option.splits)
qed

text \<open>C29. The runtime server terminates and serves what is outstanding: from every reachable world, however replays,
  pushes and disconnections interleave, a run in which no proxy connects and no push starts takes at most as many
  steps as there are layers to replay, streams to close, responses to build and sends to make; and once nothing but
  disconnections is possible, no stream is in its replay, every response its replay was to send has been sent on
  that stream during the run, and every push that was under way has been sent, during the run, to each of its
  remaining targets whose context is open, whose stream has not ended and whose send does not fail.\<close>

theorem rtds_comes_to_rest:
  assumes "reachable env w" "((inner_step env) ^^ n) w w'"
  shows "n + work w' \<le> work w \<and> (idle env w' \<longrightarrow> all_served env w w')"
proof -
  have "n + work w' \<le> work w \<and> bounded_world w' \<and> settled_since env w w'"
    using assms(2)
  proof (induction n arbitrary: w')
    case 0
    then show ?case using reachable_bounded [OF assms(1)] by (simp add: settled_since_def)
  next
    case (Suc n)
    then obtain v where v: "((inner_step env) ^^ n) w v" "inner_step env v w'" by auto
    from Suc.IH [OF v(1)] have IH: "n + work v \<le> work w" "bounded_world v" "settled_since env w v" by auto
    moreover have "bounded_world w'" using v(2) IH(2) by (auto simp: inner_step_def intro: bounded_step)
    ultimately show ?case using inner_step_works [OF v(2)] settled_step [OF _ v(2)] by simp
  qed
  then show ?thesis using settled_idle by blast
qed

lemma race_idle: "idle open_env (race_world v0 v1 Live (Some r) [] d)"
  unfolding idle_def
proof (intro allI impI)
  fix w'
  let ?w = "race_world v0 v1 Live (Some r) [] d"
  assume "inner_step open_env ?w w'"
  then have s: "rtds_step open_env ?w w'" and dm: "dom (conns w') = dom (conns ?w)" "dom (pushes w') = dom (pushes ?w)"
    by (auto simp: inner_step_def)
  show "disconnects ?w w'"
    using s
  proof cases
    case (connect i n node now)
    then show ?thesis using dm(1) by auto
  next
    case (push_begin k l vals)
    then show ?thesis using dm(2) by auto
  next
    case (disconnect i n)
    then have "closed_stream w' i" "\<not> closed_stream ?w i" by (auto simp: closed_stream_def)
    then show ?thesis by (auto simp: disconnects_def)
  qed (auto simp: race_world_def split: if_splits)
qed

theorem rtds_comes_to_rest_witness:
  "\<exists>w'. ((inner_step open_env) ^^ 4) (race_world [] sample_values (Replaying [(''l'', [])]) None [0] []) w' \<and>
    idle open_env w' \<and> (0, race_response []) \<in> set (delivered w') \<and> (0, race_response sample_values) \<in> set (delivered w')"
proof -
  let ?W = "race_world [] sample_values" and ?r = "race_response sample_values" and ?R = "Replaying [(''l'', [])]"
  let ?w = "?W ?R None [0] []" and ?w' = "?W Live (Some ?r) [] [(0, ?r), (0, race_response [])]"
  have inner: "inner_step open_env (?W ph q to d) (?W ph' q' to' d')"
    if "rtds_step open_env (?W ph q to d) (?W ph' q' to' d')" for ph q to d ph' q' to' d'
    using that by (simp add: inner_step_def race_world_def)
  have run: "((inner_step open_env) ^^ 4) ?w ?w'"
    using inner [OF race_steps(1) [of _ _ ?R]] inner [OF race_steps(2) [of _ _ ?R ?r]]
      inner [OF race_steps(3) [of _ _ "[]" "Some ?r" "[]" "[(0, ?r)]", simplified append.simps]]
      inner [OF race_steps(4) [of _ _ "Some ?r" "[]" "[(0, ?r), (0, race_response [])]"]]
    by (auto simp: numeral_eq_Suc)
  have "reachable open_env ?w" by (rule race_reachable)
  from rtds_comes_to_rest [OF this run] race_idle have served: "all_served open_env ?w ?w'" by blast
  have "due_replay open_env ?w 0 (race_response [])"
    using race_build_response [of "[]" sample_values ?R None "[0]" "[]" "[]"]
    by (simp add: due_replay_def replay_list_def race_world_def open_env_def)
  moreover have "due_push open_env ?w 0 ?r"
    using race_build_response [of "[]" sample_values ?R None "[0]" "[]" sample_values]
    by (auto simp: due_push_def push_answer_def race_world_def intro!: exI [of _ "Suc 0"])
  moreover have "\<not> lost_to open_env ?w' 0 ?r" by (simp add: lost_to_def closed_stream_def race_world_def open_env_def)
  ultimately have "(0, race_response []) \<in> set (delivered ?w')" "(0, ?r) \<in> set (delivered ?w')"
    using served by (meson all_served_def in_set_dropD)+
  with run race_idle show ?thesis by blast
qed

end
