(* ===== verification/Rtds_Stream.thy ===== *)
theory Rtds_Stream
  imports Rtds_Rest
begin

section \<open>The stream handler as a whole\<close>

text \<open>
  \<open>StreamRuntime\<close> and \<open>PushLayer\<close> in the order of their source, and why \<open>rtds_step\<close> may cut them into steps:
  each call, run without interruption, is a run of the interleaved system with the same effect.
\<close>

subsection \<open>The handler\<close>

text \<open>What the stream receives is given: the node of the first request or the error instead of it, then the
  acknowledgements (\<open>None\<close>) up to the error that ends the stream, if it has ended.\<close>

datatype stream_result = StreamFailed string | StreamEnded | StreamOpen

fun wait_acks :: "string option list \<Rightarrow> bool" where
  \<comment> \<open>whether the receive loop was left\<close>
  "wait_acks [] = False"
| "wait_acks (None # rs) = wait_acks rs"
| "wait_acks (Some e # rs) = True"

definition register_stream :: "nat \<Rightarrow> string \<Rightarrow> Server \<Rightarrow> (string, layer_values) gomap \<times> Server" where
  \<comment> \<open>the first locked section: the snapshot, and the new state\<close>
  "register_stream i n s =
     (let s1 = s\<lparr>streams := AList.update n \<lparr>nodeID = n, send_to = i\<rparr> (streams s)\<rparr>
      in (currentSnapshot s1, s1))"

definition deregister_stream :: "string \<Rightarrow> Server \<Rightarrow> Server" where
  "deregister_stream n s = s\<lparr>streams := AList.delete n (streams s)\<rparr>"

definition StreamRuntime :: "rtds_env \<Rightarrow> nat \<Rightarrow> string + string option \<Rightarrow> gotime \<Rightarrow> string option list \<Rightarrow> Server \<Rightarrow>
    stream_result \<times> DiscoveryResponse list \<times> Server" where
  \<comment> \<open>how it returned, the responses sent on stream \<open>i\<close>, and the new state; a failed replay is only logged\<close>
  "StreamRuntime env i first now recvs s = (case first of
     Inl e \<Rightarrow> (StreamFailed e, [], s)
   | Inr node \<Rightarrow>
       (let n = stream_node node now;
            (cur, s1) = register_stream i n s;
            sent = fst (pushToStream env s1 i (initial_replay env cur))
        in if wait_acks recvs then (StreamEnded, sent, deregister_stream n s1) else (StreamOpen, sent, s1)))"

subsection \<open>Runs of the interleaved system\<close>

lemma buildResponse_streams: "buildResponse env (s\<lparr>streams := ss\<rparr>) l vals = buildResponse env s l vals"
  by (simp add: buildResponse_def)

lemma replay_run:
  assumes "conns w i = Some \<lparr>conn_node = n, conn_phase = Replaying ls\<rparr>"
  shows "(rtds_step env)\<^sup>*\<^sup>* w (w\<lparr>conns := (conns w)(i \<mapsto> \<lparr>conn_node = n, conn_phase = Live\<rparr>),
    delivered := delivered w @ map (Pair i) (fst (pushToStream env (server w) i ls))\<rparr>)"
  using assms
proof (induction ls arbitrary: w)
  case Nil
  have "w\<lparr>conns := c, delivered := delivered w @ map (Pair i) (fst (pushToStream env (server w) i []))\<rparr> = w\<lparr>conns := c\<rparr>" for c
    by simp
  then show ?case using replay_over [OF Nil, of env] by (simp add: replay_stops_def r_into_rtranclp del: fun_upd_apply)
next
  case (Cons x ls)
  obtain l vals where x: "x = (l, vals)" by fastforce
  have over: "replay_stops env (server w) i (x # ls) \<Longrightarrow> (rtds_step env)\<^sup>*\<^sup>* w (w\<lparr>conns := (conns w)(i \<mapsto> \<lparr>conn_node = n, conn_phase = Live\<rparr>)\<rparr>)"
    using replay_over [OF Cons.prems, of env] by blast
  consider (stop) "fst (pushToStream env (server w) i (x # ls)) = []" "replay_stops env (server w) i (x # ls)"
    | (sent) resp where "buildResponse env (server w) l vals = Inr resp" "send_error env i resp = None"
        "fst (pushToStream env (server w) i (x # ls)) = resp # fst (pushToStream env (server w) i ls)"
    by (cases "buildResponse env (server w) l vals"; cases "send_error env i (projr (buildResponse env (server w) l vals))")
      (simp_all add: x case_prod_unfold Let_def replay_stops_def)
  then show ?case
  proof cases
    case stop
    have "w\<lparr>conns := c, delivered := delivered w @ map (Pair i) []\<rparr> = w\<lparr>conns := c\<rparr>" for c by simp
    then show ?thesis using over [OF stop(2)] unfolding stop(1) by (simp only:)
  next
    case (sent resp)
    let ?w = "w\<lparr>conns := (conns w)(i \<mapsto> \<lparr>conn_node = n, conn_phase = Replaying ls\<rparr>),
      delivered := delivered w @ [(i, resp)]\<rparr>"
    have step: "rtds_step env w ?w" using replay [of w i n l vals ls env resp] Cons.prems sent(1,2) by (simp add: x)
    have "conns ?w i = Some \<lparr>conn_node = n, conn_phase = Replaying ls\<rparr>" by simp
    note run = converse_rtranclp_into_rtranclp [of "rtds_step env", OF step Cons.IH [OF this]]
    have "?w\<lparr>conns := (conns ?w)(i \<mapsto> \<lparr>conn_node = n, conn_phase = Live\<rparr>),
        delivered := delivered ?w @ map (Pair i) (fst (pushToStream env (server ?w) i ls))\<rparr> =
      w\<lparr>conns := (conns w)(i \<mapsto> \<lparr>conn_node = n, conn_phase = Live\<rparr>),
        delivered := delivered w @ map (Pair i) (fst (pushToStream env (server w) i (x # ls)))\<rparr>"
      by (rule world.equality) (simp_all add: sent(3) del: pushToStream.simps)
    with run show ?thesis by (simp only:)
  qed
qed

lemma send_run:
  assumes "pushes w k = Some p" "push_response p = Some resp" "push_to p = map send_to sts"
  shows "(rtds_step env)\<^sup>*\<^sup>* w (w\<lparr>pushes := (pushes w)(k \<mapsto> p\<lparr>push_to := []\<rparr>),
    delivered := delivered w @ map (\<lambda>st. (send_to st, resp)) (filter (\<lambda>st. \<not> ctx_closed env (send_to st) \<and>
      send_error env (send_to st) resp = None) sts)\<rparr>)"
  using assms
proof (induction sts arbitrary: w p)
  case Nil
  have "p\<lparr>push_to := []\<rparr> = p" using Nil.prems(3) by simp
  then show ?case using Nil.prems(1) by (simp add: fun_upd_idem)
next
  case (Cons st sts)
  let ?got = "\<lambda>sts. map (\<lambda>st. (send_to st, resp)) (filter (\<lambda>st. \<not> ctx_closed env (send_to st) \<and>
    send_error env (send_to st) resp = None) sts)"
  let ?ok = "\<not> ctx_closed env (send_to st) \<and> send_error env (send_to st) resp = None"
  let ?p = "p\<lparr>push_to := map send_to sts\<rparr>"
  let ?w = "w\<lparr>pushes := (pushes w)(k \<mapsto> ?p), delivered := delivered w @ (if ?ok then [(send_to st, resp)] else [])\<rparr>"
  have step: "rtds_step env w ?w"
    using push_send [OF Cons.prems(1,2), of "send_to st" env] push_drop [OF Cons.prems(1,2), of "send_to st" env]
      Cons.prems(3) by simp
  have "pushes ?w k = Some ?p" "push_response ?p = Some resp" "push_to ?p = map send_to sts"
    using Cons.prems(2) by simp_all
  note run = converse_rtranclp_into_rtranclp [of "rtds_step env", OF step Cons.IH [OF this]]
  have "?w\<lparr>pushes := (pushes ?w)(k \<mapsto> ?p\<lparr>push_to := []\<rparr>),
      delivered := delivered ?w @ ?got sts\<rparr> =
      w\<lparr>pushes := (pushes w)(k \<mapsto> p\<lparr>push_to := []\<rparr>), delivered := delivered w @ ?got (st # sts)\<rparr>"
    by (rule world.equality) simp_all
  with run show ?case by (simp only:)
qed

text \<open>C30. Cutting the handlers into steps loses nothing: from any state of the interleaved runtime server, a whole
  call of \<open>StreamRuntime\<close> on a new stream (registration, replay of the snapshot as far as it can be sent, the
  wait for the end of the stream, the removal) and a whole call of \<open>PushLayer\<close> are runs of the system that end in
  the server state and with the deliveries the call computes.\<close>

theorem handlers_are_runs:
  assumes "conns w i = None" "StreamRuntime env i (Inr node) now recvs (server w) = (res, sent, s')"
    and "pushes w k = None" "PushLayer env l vals (server w) = (err, got, s'')"
  shows "(rtds_step env)\<^sup>*\<^sup>* w (w\<lparr>server := s', conns := (conns w)(i \<mapsto> \<lparr>conn_node = stream_node node now,
        conn_phase = (if res = StreamEnded then Closed else Live)\<rparr>),
      delivered := delivered w @ map (Pair i) sent\<rparr>) \<and>
    (\<exists>p. (rtds_step env)\<^sup>*\<^sup>* w (w\<lparr>server := s'', pushes := (pushes w)(k \<mapsto> p), delivered := delivered w @ got\<rparr>))"
proof
  let ?n = "stream_node node now" and ?cur = "current (server w)"
  let ?s1 = "(server w)\<lparr>streams := AList.update ?n \<lparr>nodeID = ?n, send_to = i\<rparr> (streams (server w))\<rparr>"
  define w1 where "w1 = w\<lparr>server := ?s1, conns := (conns w)(i \<mapsto> \<lparr>conn_node = ?n,
    conn_phase = Replaying (initial_replay env ?cur)\<rparr>)\<rparr>"
  define w2 where "w2 = w\<lparr>server := ?s1, conns := (conns w)(i \<mapsto> \<lparr>conn_node = ?n, conn_phase = Live\<rparr>),
    delivered := delivered w @ map (Pair i) sent\<rparr>"
  have c: "rtds_step env w w1" using connect [OF assms(1) refl, of env node now] by (simp add: w1_def currentSnapshot_def)
  have "(rtds_step env)\<^sup>*\<^sup>* w1 w2"
  proof -
    have "sent = fst (pushToStream env ?s1 i (initial_replay env ?cur))"
      using assms(2) by (auto simp: StreamRuntime_def register_stream_def currentSnapshot_def Let_def split: if_splits)
    then show ?thesis using replay_run [of w1 i ?n "initial_replay env ?cur" env] by (simp add: w1_def w2_def)
  qed
  with c have run: "(rtds_step env)\<^sup>*\<^sup>* w w2" by (rule converse_rtranclp_into_rtranclp)
  show "(rtds_step env)\<^sup>*\<^sup>* w (w\<lparr>server := s', conns := (conns w)(i \<mapsto> \<lparr>conn_node = ?n,
        conn_phase = (if res = StreamEnded then Closed else Live)\<rparr>), delivered := delivered w @ map (Pair i) sent\<rparr>)"
  proof (cases "wait_acks recvs")
    case True
    then have r: "res = StreamEnded" "s' = deregister_stream ?n ?s1"
      using assms(2) by (auto simp: StreamRuntime_def register_stream_def Let_def)
    have "conns w2 i = Some \<lparr>conn_node = ?n, conn_phase = Live\<rparr>" by (simp add: w2_def)
    from rtranclp.rtrancl_into_rtrancl [OF run disconnect [OF this]]
    have "(rtds_step env)\<^sup>*\<^sup>* w (w2\<lparr>server := (server w2)\<lparr>streams := AList.delete ?n (streams (server w2))\<rparr>,
      conns := (conns w2)(i \<mapsto> \<lparr>conn_node = ?n, conn_phase = Closed\<rparr>)\<rparr>)" .
    moreover have "w2\<lparr>server := (server w2)\<lparr>streams := AList.delete ?n (streams (server w2))\<rparr>,
        conns := (conns w2)(i \<mapsto> \<lparr>conn_node = ?n, conn_phase = Closed\<rparr>)\<rparr> =
      w\<lparr>server := s', conns := (conns w)(i \<mapsto> \<lparr>conn_node = ?n, conn_phase = Closed\<rparr>),
        delivered := delivered w @ map (Pair i) sent\<rparr>"
      by (rule world.equality) (simp_all add: w2_def r(2) deregister_stream_def)
    ultimately show ?thesis by (simp only: r(1) simp_thms if_True)
  next
    case False
    then show ?thesis using run assms(2) by (auto simp: StreamRuntime_def register_stream_def Let_def w2_def)
  qed
next
  let ?s = "update_layer l vals (server w)"
  let ?sts = "push_targets env ?s"
  let ?p = "\<lparr>push_layer = l, push_values = vals, push_response = None, push_to = map send_to ?sts\<rparr>"
  define w1 where "w1 = w\<lparr>server := ?s, pushes := (pushes w)(k \<mapsto> ?p)\<rparr>"
  have b: "rtds_step env w w1" using push_begin [OF assms(3), of env l vals] by (simp add: w1_def)
  have s: "s'' = ?s" using assms(4) by (auto simp: PushLayer_def Let_def split: if_splits sum.splits)
  show "\<exists>p. (rtds_step env)\<^sup>*\<^sup>* w (w\<lparr>server := s'', pushes := (pushes w)(k \<mapsto> p), delivered := delivered w @ got\<rparr>)"
  proof (cases "got = []")
    case True
    then show ?thesis using b s by (intro exI [of _ ?p]) (simp add: w1_def r_into_rtranclp)
  next
    case False
    then obtain resp where resp: "buildResponse env ?s l vals = Inr resp"
      and got: "got = map (\<lambda>st. (send_to st, resp)) (filter (\<lambda>st. \<not> ctx_closed env (send_to st) \<and>
        send_error env (send_to st) resp = None) ?sts)"
      and sts: "?sts \<noteq> []"
      using assms(4) by (auto simp: PushLayer_def Let_def split: if_splits sum.splits)
    let ?q = "?p\<lparr>push_response := Some resp\<rparr>"
    define w2 where "w2 = w1\<lparr>pushes := (pushes w1)(k \<mapsto> ?q)\<rparr>"
    have "rtds_step env w1 w2" using push_build [of w1 k ?p env resp] resp sts by (simp add: w1_def w2_def)
    with b have run: "(rtds_step env)\<^sup>*\<^sup>* w w2" by (meson converse_rtranclp_into_rtranclp r_into_rtranclp)
    have "pushes w2 k = Some ?q" "push_response ?q = Some resp" "push_to ?q = map send_to ?sts" by (simp_all add: w2_def)
    from rtranclp_trans [OF run send_run [OF this, of env]] show ?thesis
      by (intro exI [of _ "?q\<lparr>push_to := []\<rparr>"]) (simp add: s got w1_def w2_def)
  qed
qed

definition replayed :: DiscoveryResponse where
  "replayed = \<lparr>VersionInfo = ''1'', TypeUrl = rtdsTypeURL, RuntimeName = ''l'', RuntimeFields = sample_values,
     Nonce = ''shedpilot-l-1''\<rparr>"

lemma sample_stream:
  "StreamRuntime open_env 5 (Inr (Some ''n'')) 0 [None, None, Some ''Canceled''] (server (pushed_world [sample_values])) =
    (StreamEnded, [replayed], server (pushed_world [sample_values]))"
proof -
  have "fmt_d 1 = ''1''" by code_simp
  then show ?thesis
    by (simp add: StreamRuntime_def register_stream_def deregister_stream_def currentSnapshot_def pushed_world_one
        open_env_def buildResponse_def replayed_def initial_replay_def Let_def)
qed

theorem handlers_are_runs_witness:
  "\<exists>w. (rtds_step open_env)\<^sup>*\<^sup>* (pushed_world [sample_values]) w \<and> delivered w = [(5, replayed)] \<and>
    conns w 5 = Some \<lparr>conn_node = ''n'', conn_phase = Closed\<rparr>"
proof -
  let ?w = "pushed_world [sample_values]"
  have i: "conns ?w 5 = None" "pushes ?w 7 = None" by (simp_all add: pushed_world_one)
  obtain err got s'' where p: "PushLayer open_env ''l'' [] (server ?w) = (err, got, s'')" by (metis prod_cases3)
  from handlers_are_runs [OF i(1) sample_stream i(2) p] show ?thesis
    by (auto simp: pushed_world_one intro!: exI)
qed

end
