(* ===== verification/Policy_Memory.thy ===== *)
theory Policy_Memory
  imports Policy_Types "HOL-Library.Monad_Syntax" "HOL-Library.Sublist"
begin

section \<open>Policies in memory\<close>

text \<open>
  Everywhere else a policy is a value. Here it is what the Go program holds: structs whose pointers,
  slices and maps refer to cells of a heap, so that two policies can share them. A cell is an
  array of one Go type (a variable is an array of one element) or a map; the heap is the list
  of the cells allocated so far, and an address its index. The \<open>val_\<close> functions read the
  value a struct denotes, and are undefined on a dangling or ill-typed reference.
\<close>

subsection \<open>Structs with references\<close>

type_synonym addr = nat

text \<open>A slice: its array, where it starts, and its length; the capacity reaches to the end of the array.\<close>

record slice_header =
  s_base :: addr
  s_off :: nat
  s_len :: nat

type_synonym slice = "slice_header option"
type_synonym ptr = "addr option"

record AdmissionControlConfig_mem =
  acm_Enabled :: bool
  acm_SuccessRateWindow :: string
  acm_SuccessRateThreshold :: string
  acm_SheddingSpeed :: string
  acm_MinRequestsPerSecond :: int32
  acm_MaxRejectionPercent :: string
  acm_SuccessCodes :: slice
  acm_SkipPaths :: slice

record ProfileConfig_mem =
  pfm_AdmissionControl :: ptr
  pfm_AdaptiveConcurrency :: ptr

record TriggerCondition_mem =
  cdm_SuccessRate :: ptr
  cdm_ServiceLatencyMs :: ptr
  cdm_RPSAbove :: ptr

record TriggerConfig_mem =
  trm_Name :: string
  trm_When :: TriggerCondition_mem
  trm_SwitchTo :: string
  trm_FromProfiles :: slice
  trm_CooldownSeconds :: int32

record ScheduleConfig_mem =
  scm_Name :: string
  scm_Cron :: string
  scm_SwitchTo :: string
  scm_FromProfiles :: slice

record AdaptivePolicySpec_mem =
  spm_Selector :: ptr
  spm_MeshBackend :: MeshBackend
  spm_MeshMode :: MeshMode
  spm_DryRun :: bool
  spm_AdaptiveConcurrency :: ptr
  spm_AdmissionControl :: ptr
  spm_StreamingProtection :: ptr
  spm_Profiles :: ptr
  spm_ActiveProfile :: string
  spm_Triggers :: slice
  spm_Schedules :: slice
  spm_SignalConfig :: ptr
  spm_Detection :: ptr

record AdaptivePolicyStatus_mem =
  stm_Conditions :: slice
  stm_ObservedGeneration :: int
  stm_DetectedBackend :: string
  stm_ActiveProfile :: string
  stm_ProfileActiveSince :: ptr
  stm_ActiveFilters :: slice
  stm_ManagedResources :: slice
  stm_ShedRateNow :: string
  stm_WouldHaveShedRate :: string
  stm_LastDecision :: ptr
  stm_DecisionHistory :: slice
  stm_NextTriggerEvaluation :: ptr
  stm_ConsecutiveBadSamples :: int32
  stm_ScalabilityWarning :: bool
  stm_ScalabilityWarningDetail :: string
  stm_LastReconcileTime :: ptr
  stm_RTDSConnected :: bool

text \<open>The type and object metadata are structs of the Kubernetes libraries; of the object metadata the
  model keeps the fields the program reads, as in \<open>AdaptivePolicy\<close>.\<close>

record TypeMeta =
  tm_Kind :: string
  tm_APIVersion :: string

record ObjectMeta_mem =
  om_Name :: string
  om_Namespace :: string
  om_UID :: string
  om_Generation :: int
  om_Annotations :: ptr

record ListMeta =
  lm_ResourceVersion :: string
  lm_Continue :: string

record AdaptivePolicy_mem =
  pm_TypeMeta :: TypeMeta
  pm_ObjectMeta :: ObjectMeta_mem
  pm_Spec :: AdaptivePolicySpec_mem
  pm_Status :: AdaptivePolicyStatus_mem

record AdaptivePolicyList_mem =
  plm_TypeMeta :: TypeMeta
  plm_ListMeta :: ListMeta
  plm_Items :: slice

subsection \<open>Cells\<close>

datatype cell =
    Strings "string list"
  | Int32s "int32 list"
  | Times "gotime list"
  | StatusRanges "HTTPStatusRange list"
  | Concurrencies "AdaptiveConcurrencyConfig list"
  | Admissions "AdmissionControlConfig_mem list"
  | Streamings "StreamingProtectionConfig list"
  | AdmissionOverrides "AdmissionControlOverride list"
  | ConcurrencyOverrides "AdaptiveConcurrencyOverride list"
  | ProfileConfigs "ProfileConfig_mem list"
  | RateConditions "RateCondition list"
  | ThresholdConditions "ThresholdCondition list"
  | TriggerConditions "TriggerCondition_mem list"
  | TriggerConfigs "TriggerConfig_mem list"
  | ScheduleConfigs "ScheduleConfig_mem list"
  | SignalConfigs "SignalConfig list"
  | DetectionConfigs "DetectionConfig list"
  | ConditionsArr "Condition list"
  | ResourcesArr "ManagedResource list"
  | DecisionRecords "DecisionRecord list"
  | Specs "AdaptivePolicySpec_mem list"
  | Statuses "AdaptivePolicyStatus_mem list"
  | PoliciesArr "AdaptivePolicy_mem list"
  | PolicyLists "AdaptivePolicyList_mem list"
  | StringMap "(string, string) gomap"
  | ProfileMap "(string, ProfileConfig_mem) gomap"

type_synonym heap = "cell list"

text \<open>A Go type is given by the cells that hold it.\<close>

record 'a gotype =
  into :: "'a list \<Rightarrow> cell"
  outof :: "cell \<Rightarrow> 'a list option"

definition type_ok :: "'a gotype \<Rightarrow> bool" where
  "type_ok t \<longleftrightarrow> (\<forall>xs. outof t (into t xs) = Some xs)"

definition tString :: "string gotype" where
  "tString = \<lparr>into = Strings, outof = (\<lambda>c. case c of Strings xs \<Rightarrow> Some xs | _ \<Rightarrow> None)\<rparr>"
definition tInt32 :: "int32 gotype" where
  "tInt32 = \<lparr>into = Int32s, outof = (\<lambda>c. case c of Int32s xs \<Rightarrow> Some xs | _ \<Rightarrow> None)\<rparr>"
definition tTime :: "gotime gotype" where
  "tTime = \<lparr>into = Times, outof = (\<lambda>c. case c of Times xs \<Rightarrow> Some xs | _ \<Rightarrow> None)\<rparr>"
definition tHTTPStatusRange :: "HTTPStatusRange gotype" where
  "tHTTPStatusRange = \<lparr>into = StatusRanges, outof = (\<lambda>c. case c of StatusRanges xs \<Rightarrow> Some xs | _ \<Rightarrow> None)\<rparr>"
definition tAdaptiveConcurrencyConfig :: "AdaptiveConcurrencyConfig gotype" where
  "tAdaptiveConcurrencyConfig = \<lparr>into = Concurrencies, outof = (\<lambda>c. case c of Concurrencies xs \<Rightarrow> Some xs | _ \<Rightarrow> None)\<rparr>"
definition tAdmissionControlConfig :: "AdmissionControlConfig_mem gotype" where
  "tAdmissionControlConfig = \<lparr>into = Admissions, outof = (\<lambda>c. case c of Admissions xs \<Rightarrow> Some xs | _ \<Rightarrow> None)\<rparr>"
definition tStreamingProtectionConfig :: "StreamingProtectionConfig gotype" where
  "tStreamingProtectionConfig = \<lparr>into = Streamings, outof = (\<lambda>c. case c of Streamings xs \<Rightarrow> Some xs | _ \<Rightarrow> None)\<rparr>"
definition tAdmissionControlOverride :: "AdmissionControlOverride gotype" where
  "tAdmissionControlOverride = \<lparr>into = AdmissionOverrides, outof = (\<lambda>c. case c of AdmissionOverrides xs \<Rightarrow> Some xs | _ \<Rightarrow> None)\<rparr>"
definition tAdaptiveConcurrencyOverride :: "AdaptiveConcurrencyOverride gotype" where
  "tAdaptiveConcurrencyOverride = \<lparr>into = ConcurrencyOverrides, outof = (\<lambda>c. case c of ConcurrencyOverrides xs \<Rightarrow> Some xs | _ \<Rightarrow> None)\<rparr>"
definition tProfileConfig :: "ProfileConfig_mem gotype" where
  "tProfileConfig = \<lparr>into = ProfileConfigs, outof = (\<lambda>c. case c of ProfileConfigs xs \<Rightarrow> Some xs | _ \<Rightarrow> None)\<rparr>"
definition tRateCondition :: "RateCondition gotype" where
  "tRateCondition = \<lparr>into = RateConditions, outof = (\<lambda>c. case c of RateConditions xs \<Rightarrow> Some xs | _ \<Rightarrow> None)\<rparr>"
definition tThresholdCondition :: "ThresholdCondition gotype" where
  "tThresholdCondition = \<lparr>into = ThresholdConditions, outof = (\<lambda>c. case c of ThresholdConditions xs \<Rightarrow> Some xs | _ \<Rightarrow> None)\<rparr>"
definition tTriggerCondition :: "TriggerCondition_mem gotype" where
  "tTriggerCondition = \<lparr>into = TriggerConditions, outof = (\<lambda>c. case c of TriggerConditions xs \<Rightarrow> Some xs | _ \<Rightarrow> None)\<rparr>"
definition tTriggerConfig :: "TriggerConfig_mem gotype" where
  "tTriggerConfig = \<lparr>into = TriggerConfigs, outof = (\<lambda>c. case c of TriggerConfigs xs \<Rightarrow> Some xs | _ \<Rightarrow> None)\<rparr>"
definition tScheduleConfig :: "ScheduleConfig_mem gotype" where
  "tScheduleConfig = \<lparr>into = ScheduleConfigs, outof = (\<lambda>c. case c of ScheduleConfigs xs \<Rightarrow> Some xs | _ \<Rightarrow> None)\<rparr>"
definition tSignalConfig :: "SignalConfig gotype" where
  "tSignalConfig = \<lparr>into = SignalConfigs, outof = (\<lambda>c. case c of SignalConfigs xs \<Rightarrow> Some xs | _ \<Rightarrow> None)\<rparr>"
definition tDetectionConfig :: "DetectionConfig gotype" where
  "tDetectionConfig = \<lparr>into = DetectionConfigs, outof = (\<lambda>c. case c of DetectionConfigs xs \<Rightarrow> Some xs | _ \<Rightarrow> None)\<rparr>"
definition tCondition :: "Condition gotype" where
  "tCondition = \<lparr>into = ConditionsArr, outof = (\<lambda>c. case c of ConditionsArr xs \<Rightarrow> Some xs | _ \<Rightarrow> None)\<rparr>"
definition tManagedResource :: "ManagedResource gotype" where
  "tManagedResource = \<lparr>into = ResourcesArr, outof = (\<lambda>c. case c of ResourcesArr xs \<Rightarrow> Some xs | _ \<Rightarrow> None)\<rparr>"
definition tDecisionRecord :: "DecisionRecord gotype" where
  "tDecisionRecord = \<lparr>into = DecisionRecords, outof = (\<lambda>c. case c of DecisionRecords xs \<Rightarrow> Some xs | _ \<Rightarrow> None)\<rparr>"
definition tAdaptivePolicySpec :: "AdaptivePolicySpec_mem gotype" where
  "tAdaptivePolicySpec = \<lparr>into = Specs, outof = (\<lambda>c. case c of Specs xs \<Rightarrow> Some xs | _ \<Rightarrow> None)\<rparr>"
definition tAdaptivePolicyStatus :: "AdaptivePolicyStatus_mem gotype" where
  "tAdaptivePolicyStatus = \<lparr>into = Statuses, outof = (\<lambda>c. case c of Statuses xs \<Rightarrow> Some xs | _ \<Rightarrow> None)\<rparr>"
definition tAdaptivePolicy :: "AdaptivePolicy_mem gotype" where
  "tAdaptivePolicy = \<lparr>into = PoliciesArr, outof = (\<lambda>c. case c of PoliciesArr xs \<Rightarrow> Some xs | _ \<Rightarrow> None)\<rparr>"
definition tAdaptivePolicyList :: "AdaptivePolicyList_mem gotype" where
  "tAdaptivePolicyList = \<lparr>into = PolicyLists, outof = (\<lambda>c. case c of PolicyLists xs \<Rightarrow> Some xs | _ \<Rightarrow> None)\<rparr>"
definition tStringMap :: "(string \<times> string) gotype" where
  "tStringMap = \<lparr>into = StringMap, outof = (\<lambda>c. case c of StringMap xs \<Rightarrow> Some xs | _ \<Rightarrow> None)\<rparr>"
definition tProfileMap :: "(string \<times> ProfileConfig_mem) gotype" where
  "tProfileMap = \<lparr>into = ProfileMap, outof = (\<lambda>c. case c of ProfileMap xs \<Rightarrow> Some xs | _ \<Rightarrow> None)\<rparr>"

lemmas gotype_defs =
  tString_def tInt32_def tTime_def tHTTPStatusRange_def
  tAdaptiveConcurrencyConfig_def tAdmissionControlConfig_def tStreamingProtectionConfig_def tAdmissionControlOverride_def
  tAdaptiveConcurrencyOverride_def tProfileConfig_def tRateCondition_def tThresholdCondition_def
  tTriggerCondition_def tTriggerConfig_def tScheduleConfig_def tSignalConfig_def
  tDetectionConfig_def tCondition_def tManagedResource_def tDecisionRecord_def
  tAdaptivePolicySpec_def tAdaptivePolicyStatus_def tAdaptivePolicy_def tAdaptivePolicyList_def
  tStringMap_def tProfileMap_def

lemma types_ok [simp]:
  "type_ok tString"
  "type_ok tInt32"
  "type_ok tTime"
  "type_ok tHTTPStatusRange"
  "type_ok tAdaptiveConcurrencyConfig"
  "type_ok tAdmissionControlConfig"
  "type_ok tStreamingProtectionConfig"
  "type_ok tAdmissionControlOverride"
  "type_ok tAdaptiveConcurrencyOverride"
  "type_ok tProfileConfig"
  "type_ok tRateCondition"
  "type_ok tThresholdCondition"
  "type_ok tTriggerCondition"
  "type_ok tTriggerConfig"
  "type_ok tScheduleConfig"
  "type_ok tSignalConfig"
  "type_ok tDetectionConfig"
  "type_ok tCondition"
  "type_ok tManagedResource"
  "type_ok tDecisionRecord"
  "type_ok tAdaptivePolicySpec"
  "type_ok tAdaptivePolicyStatus"
  "type_ok tAdaptivePolicy"
  "type_ok tAdaptivePolicyList"
  "type_ok tStringMap"
  "type_ok tProfileMap"
  by (simp_all add: type_ok_def gotype_defs)

subsection \<open>Reading and allocating\<close>

definition load :: "'a gotype \<Rightarrow> heap \<Rightarrow> addr \<Rightarrow> 'a list option" where
  "load t h a = (if a < length h then outof t (h ! a) else None)"

definition new_cell :: "'a gotype \<Rightarrow> 'a list \<Rightarrow> heap \<Rightarrow> addr \<times> heap" where
  "new_cell t xs h = (length h, h @ [into t xs])"

definition deref :: "'a gotype \<Rightarrow> heap \<Rightarrow> addr \<Rightarrow> 'a" where
  "deref t h a = hd (the (load t h a))"

definition elems :: "'a gotype \<Rightarrow> heap \<Rightarrow> slice_header \<Rightarrow> 'a list" where
  "elems t h s = take (s_len s) (drop (s_off s) (the (load t h (s_base s))))"

text \<open>The value behind a pointer, a slice and a map, given how an element denotes its value. A nil slice or map has
  the value of an empty one; \<open>Deep_Copy_Nils\<close> reads them apart.\<close>

definition val_list :: "(heap \<Rightarrow> 'a \<Rightarrow> 'v option) \<Rightarrow> heap \<Rightarrow> 'a list \<Rightarrow> 'v list option" where
  "val_list v h xs = those (map (v h) xs)"

definition val_ptr :: "'a gotype \<Rightarrow> (heap \<Rightarrow> 'a \<Rightarrow> 'v option) \<Rightarrow> heap \<Rightarrow> ptr \<Rightarrow> 'v option option" where
  "val_ptr t v h p = (case p of
     None \<Rightarrow> Some None
   | Some a \<Rightarrow> (case load t h a of Some [x] \<Rightarrow> map_option Some (v h x) | _ \<Rightarrow> None))"

definition val_slice :: "'a gotype \<Rightarrow> (heap \<Rightarrow> 'a \<Rightarrow> 'v option) \<Rightarrow> heap \<Rightarrow> slice \<Rightarrow> 'v list option" where
  "val_slice t v h s = (case s of
     None \<Rightarrow> Some []
   | Some sl \<Rightarrow> (case load t h (s_base sl) of
       Some xs \<Rightarrow> if s_off sl + s_len sl \<le> length xs then val_list v h (elems t h sl) else None
     | None \<Rightarrow> None))"

definition val_entry :: "(heap \<Rightarrow> 'a \<Rightarrow> 'v option) \<Rightarrow> heap \<Rightarrow> 'k \<times> 'a \<Rightarrow> ('k \<times> 'v) option" where
  "val_entry v h e = map_option (Pair (fst e)) (v h (snd e))"

definition val_map :: "('k \<times> 'a) gotype \<Rightarrow> (heap \<Rightarrow> 'a \<Rightarrow> 'v option) \<Rightarrow> heap \<Rightarrow> ptr \<Rightarrow> ('k, 'v) gomap option" where
  "val_map t v h m = (case m of
     None \<Rightarrow> Some []
   | Some a \<Rightarrow> (case load t h a of
       Some es \<Rightarrow> if distinct (map fst es) then val_list (val_entry v) h es else None
     | None \<Rightarrow> None))"

abbreviation plain :: "heap \<Rightarrow> 'a \<Rightarrow> 'a option" where
  \<comment> \<open>a struct without references is its own value\<close>
  "plain \<equiv> \<lambda>_. Some"

subsection \<open>The value of a struct\<close>

definition val_AdmissionControlConfig :: "heap \<Rightarrow> AdmissionControlConfig_mem \<Rightarrow> AdmissionControlConfig option" where
  "val_AdmissionControlConfig h x = do {
     codes \<leftarrow> val_slice tHTTPStatusRange plain h (acm_SuccessCodes x);
     paths \<leftarrow> val_slice tString plain h (acm_SkipPaths x);
     Some \<lparr>ac_Enabled = acm_Enabled x, ac_SuccessRateWindow = acm_SuccessRateWindow x,
       ac_SuccessRateThreshold = acm_SuccessRateThreshold x, ac_SheddingSpeed = acm_SheddingSpeed x,
       ac_MinRequestsPerSecond = acm_MinRequestsPerSecond x, ac_MaxRejectionPercent = acm_MaxRejectionPercent x,
       ac_SuccessCodes = codes, ac_SkipPaths = paths\<rparr> }"

definition val_ProfileConfig :: "heap \<Rightarrow> ProfileConfig_mem \<Rightarrow> ProfileConfig option" where
  "val_ProfileConfig h x = do {
     ac \<leftarrow> val_ptr tAdmissionControlOverride plain h (pfm_AdmissionControl x);
     cc \<leftarrow> val_ptr tAdaptiveConcurrencyOverride plain h (pfm_AdaptiveConcurrency x);
     Some \<lparr>pf_AdmissionControl = ac, pf_AdaptiveConcurrency = cc\<rparr> }"

definition val_TriggerCondition :: "heap \<Rightarrow> TriggerCondition_mem \<Rightarrow> TriggerCondition option" where
  "val_TriggerCondition h x = do {
     sr \<leftarrow> val_ptr tRateCondition plain h (cdm_SuccessRate x);
     lat \<leftarrow> val_ptr tThresholdCondition plain h (cdm_ServiceLatencyMs x);
     rps \<leftarrow> val_ptr tInt32 plain h (cdm_RPSAbove x);
     Some \<lparr>cond_SuccessRate = sr, cond_ServiceLatencyMs = lat, cond_RPSAbove = rps\<rparr> }"

definition val_TriggerConfig :: "heap \<Rightarrow> TriggerConfig_mem \<Rightarrow> TriggerConfig option" where
  "val_TriggerConfig h x = do {
     c \<leftarrow> val_TriggerCondition h (trm_When x);
     ps \<leftarrow> val_slice tString plain h (trm_FromProfiles x);
     Some \<lparr>tr_Name = trm_Name x, tr_When = c, tr_SwitchTo = trm_SwitchTo x, tr_FromProfiles = ps,
       tr_CooldownSeconds = trm_CooldownSeconds x\<rparr> }"

definition val_ScheduleConfig :: "heap \<Rightarrow> ScheduleConfig_mem \<Rightarrow> ScheduleConfig option" where
  "val_ScheduleConfig h x = do {
     ps \<leftarrow> val_slice tString plain h (scm_FromProfiles x);
     Some \<lparr>sch_Name = scm_Name x, sch_Cron = scm_Cron x, sch_SwitchTo = scm_SwitchTo x, sch_FromProfiles = ps\<rparr> }"

definition val_AdaptivePolicySpec :: "heap \<Rightarrow> AdaptivePolicySpec_mem \<Rightarrow> AdaptivePolicySpec option" where
  "val_AdaptivePolicySpec h x = do {
     sel \<leftarrow> val_map tStringMap plain h (spm_Selector x);
     cc \<leftarrow> val_ptr tAdaptiveConcurrencyConfig plain h (spm_AdaptiveConcurrency x);
     ac \<leftarrow> val_ptr tAdmissionControlConfig val_AdmissionControlConfig h (spm_AdmissionControl x);
     sp \<leftarrow> val_ptr tStreamingProtectionConfig plain h (spm_StreamingProtection x);
     ps \<leftarrow> val_map tProfileMap val_ProfileConfig h (spm_Profiles x);
     ts \<leftarrow> val_slice tTriggerConfig val_TriggerConfig h (spm_Triggers x);
     ss \<leftarrow> val_slice tScheduleConfig val_ScheduleConfig h (spm_Schedules x);
     sig \<leftarrow> val_ptr tSignalConfig plain h (spm_SignalConfig x);
     det \<leftarrow> val_ptr tDetectionConfig plain h (spm_Detection x);
     Some \<lparr>Selector = sel, MeshBackendField = spm_MeshBackend x, MeshModeField = spm_MeshMode x, DryRun = spm_DryRun x,
       AdaptiveConcurrency = cc, AdmissionControl = ac, StreamingProtection = sp, Profiles = ps,
       ActiveProfile = spm_ActiveProfile x, Triggers = ts, Schedules = ss, SignalConfigField = sig,
       Detection = det\<rparr> }"

definition val_AdaptivePolicyStatus :: "heap \<Rightarrow> AdaptivePolicyStatus_mem \<Rightarrow> AdaptivePolicyStatus option" where
  "val_AdaptivePolicyStatus h x = do {
     cs \<leftarrow> val_slice tCondition plain h (stm_Conditions x);
     since \<leftarrow> val_ptr tTime plain h (stm_ProfileActiveSince x);
     fs \<leftarrow> val_slice tString plain h (stm_ActiveFilters x);
     ms \<leftarrow> val_slice tManagedResource plain h (stm_ManagedResources x);
     l \<leftarrow> val_ptr tDecisionRecord plain h (stm_LastDecision x);
     hist \<leftarrow> val_slice tDecisionRecord plain h (stm_DecisionHistory x);
     next \<leftarrow> val_ptr tTime plain h (stm_NextTriggerEvaluation x);
     rec \<leftarrow> val_ptr tTime plain h (stm_LastReconcileTime x);
     Some \<lparr>Conditions = cs, ObservedGeneration = stm_ObservedGeneration x, DetectedBackend = stm_DetectedBackend x,
       st_ActiveProfile = stm_ActiveProfile x, ProfileActiveSince = since, ActiveFilters = fs,
       ManagedResources = ms, ShedRateNow = stm_ShedRateNow x, WouldHaveShedRate = stm_WouldHaveShedRate x,
       LastDecision = l, DecisionHistory = hist, NextTriggerEvaluation = next,
       st_ConsecutiveBadSamples = stm_ConsecutiveBadSamples x, ScalabilityWarning = stm_ScalabilityWarning x,
       ScalabilityWarningDetail = stm_ScalabilityWarningDetail x, LastReconcileTime = rec,
       RTDSConnected = stm_RTDSConnected x\<rparr> }"

definition val_ObjectMeta :: "heap \<Rightarrow> ObjectMeta_mem \<Rightarrow> (string \<times> string \<times> string \<times> int \<times> (string, string) gomap) option" where
  "val_ObjectMeta h x = do {
     an \<leftarrow> val_map tStringMap plain h (om_Annotations x);
     Some (om_Name x, om_Namespace x, om_UID x, om_Generation x, an) }"

definition val_AdaptivePolicy :: "heap \<Rightarrow> AdaptivePolicy_mem \<Rightarrow> (TypeMeta \<times> AdaptivePolicy) option" where
  "val_AdaptivePolicy h x = do {
     (n, ns, u, gen, an) \<leftarrow> val_ObjectMeta h (pm_ObjectMeta x);
     sp \<leftarrow> val_AdaptivePolicySpec h (pm_Spec x);
     st \<leftarrow> val_AdaptivePolicyStatus h (pm_Status x);
     Some (pm_TypeMeta x, \<lparr>Name = n, Namespace = ns, UID = u, Generation = gen, Annotations = an,
       Spec = sp, Status = st\<rparr>) }"

definition val_AdaptivePolicyList :: "heap \<Rightarrow> AdaptivePolicyList_mem \<Rightarrow>
    (TypeMeta \<times> ListMeta \<times> (TypeMeta \<times> AdaptivePolicy) list) option" where
  "val_AdaptivePolicyList h x = do {
     items \<leftarrow> val_slice tAdaptivePolicy val_AdaptivePolicy h (plm_Items x);
     Some (plm_TypeMeta x, plm_ListMeta x, items) }"

end
