(* ===== verification/Deep_Copy.thy ===== *)
theory Deep_Copy
  imports Policy_Memory
begin

section \<open>Generated deep copies (api/v1alpha1/zz_generated.deepcopy.go)\<close>

text \<open>
  One definition per generated function. \<open>DeepCopyInto\<close> of a struct returns the struct written to its
  destination, and the heap with the cells it allocated; an allocation is placed after the copy of its
  contents, so that only the numbers of the new addresses differ from the order of the code. The
  elements of a slice are read before the loop that copies them: no copy writes to a cell
  it has not allocated. A map loop visits the entries in the order of the list. The copies of the Kubernetes
  structs are parameters.
\<close>

subsection \<open>Pointers, slices and maps\<close>

type_synonym 'a copier = "heap \<Rightarrow> 'a \<Rightarrow> 'a \<times> heap"

record apimachinery =
  x_ObjectMeta :: "ObjectMeta_mem copier"
  x_ListMeta :: "ListMeta copier"
  x_Condition :: "Condition copier"
  x_Time :: "gotime copier"
  x_Time_ptr :: "ptr copier"  \<comment> \<open>\<open>(*Time).DeepCopy\<close>\<close>

definition assign :: "'a copier" where
  \<comment> \<open>\<open>*out = *in\<close>\<close>
  "assign h x = (x, h)"

definition copy_ptr :: "'a gotype \<Rightarrow> 'a copier \<Rightarrow> ptr copier" where
  \<comment> \<open>\<open>if in != nil { out = new(T); in.DeepCopyInto(out) }\<close>\<close>
  "copy_ptr t cp h p = (case p of
     None \<Rightarrow> (None, h)
   | Some a \<Rightarrow> (let (x, h1) = cp h (deref t h a); (b, h2) = new_cell t [x] h1 in (Some b, h2)))"

fun copy_list :: "'a copier \<Rightarrow> 'a list copier" where
  "copy_list cp h [] = ([], h)"
| "copy_list cp h (x # xs) =
     (let (y, h1) = cp h x; (ys, h2) = copy_list cp h1 xs in (y # ys, h2))"

definition copy_slice :: "'a gotype \<Rightarrow> 'a copier \<Rightarrow> slice copier" where
  \<comment> \<open>\<open>if in != nil { out = make([]T, len(in)); for i := range in { in[i].DeepCopyInto(&out[i]) } }\<close>\<close>
  "copy_slice t cp h s = (case s of
     None \<Rightarrow> (None, h)
   | Some sl \<Rightarrow>
       (let (xs, h1) = copy_list cp h (elems t h sl); (b, h2) = new_cell t xs h1
        in (Some \<lparr>s_base = b, s_off = 0, s_len = length xs\<rparr>, h2)))"

definition copy_entry :: "'a copier \<Rightarrow> ('k \<times> 'a) copier" where
  "copy_entry cp h e = (let (y, h1) = cp h (snd e) in ((fst e, y), h1))"

definition insert_all :: "('k \<times> 'a) list \<Rightarrow> ('k, 'a) gomap" where
  "insert_all es = fold (\<lambda>(k, v) m. AList.update k v m) es []"

definition copy_map :: "('k \<times> 'a) gotype \<Rightarrow> 'a copier \<Rightarrow> ptr copier" where
  \<comment> \<open>\<open>if in != nil { out = make(map, len(in)); for key, val := range in { out[key] = copy(val) } }\<close>\<close>
  "copy_map t cp h m = (case m of
     None \<Rightarrow> (None, h)
   | Some a \<Rightarrow>
       (let (es, h1) = copy_list (copy_entry cp) h (the (load t h a));
            (b, h2) = new_cell t (insert_all es) h1
        in (Some b, h2)))"

subsection \<open>Configuration structs\<close>

definition AdaptiveConcurrencyConfig_DeepCopyInto :: "AdaptiveConcurrencyConfig copier" where
  "AdaptiveConcurrencyConfig_DeepCopyInto = assign"

definition AdaptiveConcurrencyConfig_DeepCopy :: "ptr copier" where
  "AdaptiveConcurrencyConfig_DeepCopy = copy_ptr tAdaptiveConcurrencyConfig AdaptiveConcurrencyConfig_DeepCopyInto"

definition AdaptiveConcurrencyOverride_DeepCopyInto :: "AdaptiveConcurrencyOverride copier" where
  "AdaptiveConcurrencyOverride_DeepCopyInto = assign"

definition AdaptiveConcurrencyOverride_DeepCopy :: "ptr copier" where
  "AdaptiveConcurrencyOverride_DeepCopy = copy_ptr tAdaptiveConcurrencyOverride AdaptiveConcurrencyOverride_DeepCopyInto"

definition AdmissionControlOverride_DeepCopyInto :: "AdmissionControlOverride copier" where
  "AdmissionControlOverride_DeepCopyInto = assign"

definition AdmissionControlOverride_DeepCopy :: "ptr copier" where
  "AdmissionControlOverride_DeepCopy = copy_ptr tAdmissionControlOverride AdmissionControlOverride_DeepCopyInto"

definition DetectionConfig_DeepCopyInto :: "DetectionConfig copier" where
  "DetectionConfig_DeepCopyInto = assign"

definition DetectionConfig_DeepCopy :: "ptr copier" where
  "DetectionConfig_DeepCopy = copy_ptr tDetectionConfig DetectionConfig_DeepCopyInto"

definition HTTPStatusRange_DeepCopyInto :: "HTTPStatusRange copier" where
  "HTTPStatusRange_DeepCopyInto = assign"

definition HTTPStatusRange_DeepCopy :: "ptr copier" where
  "HTTPStatusRange_DeepCopy = copy_ptr tHTTPStatusRange HTTPStatusRange_DeepCopyInto"

definition RateCondition_DeepCopyInto :: "RateCondition copier" where
  "RateCondition_DeepCopyInto = assign"

definition RateCondition_DeepCopy :: "ptr copier" where
  "RateCondition_DeepCopy = copy_ptr tRateCondition RateCondition_DeepCopyInto"

definition SignalConfig_DeepCopyInto :: "SignalConfig copier" where
  "SignalConfig_DeepCopyInto = assign"

definition SignalConfig_DeepCopy :: "ptr copier" where
  "SignalConfig_DeepCopy = copy_ptr tSignalConfig SignalConfig_DeepCopyInto"

definition StreamingProtectionConfig_DeepCopyInto :: "StreamingProtectionConfig copier" where
  "StreamingProtectionConfig_DeepCopyInto = assign"

definition StreamingProtectionConfig_DeepCopy :: "ptr copier" where
  "StreamingProtectionConfig_DeepCopy = copy_ptr tStreamingProtectionConfig StreamingProtectionConfig_DeepCopyInto"

definition ThresholdCondition_DeepCopyInto :: "ThresholdCondition copier" where
  "ThresholdCondition_DeepCopyInto = assign"

definition ThresholdCondition_DeepCopy :: "ptr copier" where
  "ThresholdCondition_DeepCopy = copy_ptr tThresholdCondition ThresholdCondition_DeepCopyInto"

definition ManagedResource_DeepCopyInto :: "ManagedResource copier" where
  "ManagedResource_DeepCopyInto = assign"

definition ManagedResource_DeepCopy :: "ptr copier" where
  "ManagedResource_DeepCopy = copy_ptr tManagedResource ManagedResource_DeepCopyInto"

definition AdmissionControlConfig_DeepCopyInto :: "AdmissionControlConfig_mem copier" where
  "AdmissionControlConfig_DeepCopyInto h x =
     (let (f1, h1) = copy_slice tHTTPStatusRange assign h (acm_SuccessCodes x);
          (f2, h2) = copy_slice tString assign h1 (acm_SkipPaths x)
      in (x\<lparr>acm_SuccessCodes := f1, acm_SkipPaths := f2\<rparr>, h2))"

definition AdmissionControlConfig_DeepCopy :: "ptr copier" where
  "AdmissionControlConfig_DeepCopy = copy_ptr tAdmissionControlConfig AdmissionControlConfig_DeepCopyInto"

definition ProfileConfig_DeepCopyInto :: "ProfileConfig_mem copier" where
  "ProfileConfig_DeepCopyInto h x =
     (let (f1, h1) = copy_ptr tAdmissionControlOverride assign h (pfm_AdmissionControl x);
          (f2, h2) = copy_ptr tAdaptiveConcurrencyOverride assign h1 (pfm_AdaptiveConcurrency x)
      in (x\<lparr>pfm_AdmissionControl := f1, pfm_AdaptiveConcurrency := f2\<rparr>, h2))"

definition ProfileConfig_DeepCopy :: "ptr copier" where
  "ProfileConfig_DeepCopy = copy_ptr tProfileConfig ProfileConfig_DeepCopyInto"

definition TriggerCondition_DeepCopyInto :: "TriggerCondition_mem copier" where
  "TriggerCondition_DeepCopyInto h x =
     (let (f1, h1) = copy_ptr tRateCondition assign h (cdm_SuccessRate x);
          (f2, h2) = copy_ptr tThresholdCondition assign h1 (cdm_ServiceLatencyMs x);
          (f3, h3) = copy_ptr tInt32 assign h2 (cdm_RPSAbove x)
      in (x\<lparr>cdm_SuccessRate := f1, cdm_ServiceLatencyMs := f2, cdm_RPSAbove := f3\<rparr>, h3))"

definition TriggerCondition_DeepCopy :: "ptr copier" where
  "TriggerCondition_DeepCopy = copy_ptr tTriggerCondition TriggerCondition_DeepCopyInto"

definition TriggerConfig_DeepCopyInto :: "TriggerConfig_mem copier" where
  "TriggerConfig_DeepCopyInto h x =
     (let (f1, h1) = TriggerCondition_DeepCopyInto h (trm_When x);
          (f2, h2) = copy_slice tString assign h1 (trm_FromProfiles x)
      in (x\<lparr>trm_When := f1, trm_FromProfiles := f2\<rparr>, h2))"

definition TriggerConfig_DeepCopy :: "ptr copier" where
  "TriggerConfig_DeepCopy = copy_ptr tTriggerConfig TriggerConfig_DeepCopyInto"

definition ScheduleConfig_DeepCopyInto :: "ScheduleConfig_mem copier" where
  "ScheduleConfig_DeepCopyInto h x =
     (let (f1, h1) = copy_slice tString assign h (scm_FromProfiles x)
      in (x\<lparr>scm_FromProfiles := f1\<rparr>, h1))"

definition ScheduleConfig_DeepCopy :: "ptr copier" where
  "ScheduleConfig_DeepCopy = copy_ptr tScheduleConfig ScheduleConfig_DeepCopyInto"

subsection \<open>Spec\<close>

definition profile_value :: "ProfileConfig_mem copier" where
  \<comment> \<open>\<open>*val.DeepCopy()\<close> of the loop variable \<open>val\<close>\<close>
  "profile_value h v =
     (let (a, h1) = new_cell tProfileConfig [v] h; (p, h2) = ProfileConfig_DeepCopy h1 (Some a)
      in (deref tProfileConfig h2 (the p), h2))"

definition AdaptivePolicySpec_DeepCopyInto :: "AdaptivePolicySpec_mem copier" where
  "AdaptivePolicySpec_DeepCopyInto h x =
     (let (f1, h1) = copy_map tStringMap assign h (spm_Selector x);
          (f2, h2) = copy_ptr tAdaptiveConcurrencyConfig assign h1 (spm_AdaptiveConcurrency x);
          (f3, h3) = copy_ptr tAdmissionControlConfig AdmissionControlConfig_DeepCopyInto h2 (spm_AdmissionControl x);
          (f4, h4) = copy_ptr tStreamingProtectionConfig assign h3 (spm_StreamingProtection x);
          (f5, h5) = copy_map tProfileMap profile_value h4 (spm_Profiles x);
          (f6, h6) = copy_slice tTriggerConfig TriggerConfig_DeepCopyInto h5 (spm_Triggers x);
          (f7, h7) = copy_slice tScheduleConfig ScheduleConfig_DeepCopyInto h6 (spm_Schedules x);
          (f8, h8) = copy_ptr tSignalConfig assign h7 (spm_SignalConfig x);
          (f9, h9) = copy_ptr tDetectionConfig assign h8 (spm_Detection x)
      in (x\<lparr>spm_Selector := f1, spm_AdaptiveConcurrency := f2, spm_AdmissionControl := f3,
            spm_StreamingProtection := f4, spm_Profiles := f5, spm_Triggers := f6,
            spm_Schedules := f7, spm_SignalConfig := f8, spm_Detection := f9\<rparr>, h9))"

definition AdaptivePolicySpec_DeepCopy :: "ptr copier" where
  "AdaptivePolicySpec_DeepCopy = copy_ptr tAdaptivePolicySpec AdaptivePolicySpec_DeepCopyInto"

subsection \<open>Status\<close>

definition DecisionRecord_DeepCopyInto :: "apimachinery \<Rightarrow> DecisionRecord copier" where
  "DecisionRecord_DeepCopyInto ext h x =
     (let (t, h1) = x_Time ext h (dr_Timestamp x) in (x\<lparr>dr_Timestamp := t\<rparr>, h1))"

definition DecisionRecord_DeepCopy :: "apimachinery \<Rightarrow> ptr copier" where
  "DecisionRecord_DeepCopy ext = copy_ptr tDecisionRecord (DecisionRecord_DeepCopyInto ext)"

definition AdaptivePolicyStatus_DeepCopyInto :: "apimachinery \<Rightarrow> AdaptivePolicyStatus_mem copier" where
  "AdaptivePolicyStatus_DeepCopyInto ext h x =
     (let (f1, h1) = copy_slice tCondition (x_Condition ext) h (stm_Conditions x);
          (f2, h2) = x_Time_ptr ext h1 (stm_ProfileActiveSince x);
          (f3, h3) = copy_slice tString assign h2 (stm_ActiveFilters x);
          (f4, h4) = copy_slice tManagedResource assign h3 (stm_ManagedResources x);
          (f5, h5) = copy_ptr tDecisionRecord (DecisionRecord_DeepCopyInto ext) h4 (stm_LastDecision x);
          (f6, h6) = copy_slice tDecisionRecord (DecisionRecord_DeepCopyInto ext) h5 (stm_DecisionHistory x);
          (f7, h7) = x_Time_ptr ext h6 (stm_NextTriggerEvaluation x);
          (f8, h8) = x_Time_ptr ext h7 (stm_LastReconcileTime x)
      in (x\<lparr>stm_Conditions := f1, stm_ProfileActiveSince := f2, stm_ActiveFilters := f3,
            stm_ManagedResources := f4, stm_LastDecision := f5, stm_DecisionHistory := f6,
            stm_NextTriggerEvaluation := f7, stm_LastReconcileTime := f8\<rparr>, h8))"

definition AdaptivePolicyStatus_DeepCopy :: "apimachinery \<Rightarrow> ptr copier" where
  "AdaptivePolicyStatus_DeepCopy ext = copy_ptr tAdaptivePolicyStatus (AdaptivePolicyStatus_DeepCopyInto ext)"

subsection \<open>Policies and lists of policies\<close>

definition AdaptivePolicy_DeepCopyInto :: "apimachinery \<Rightarrow> AdaptivePolicy_mem copier" where
  "AdaptivePolicy_DeepCopyInto ext h x =
     (let (f1, h1) = x_ObjectMeta ext h (pm_ObjectMeta x);
          (f2, h2) = AdaptivePolicySpec_DeepCopyInto h1 (pm_Spec x);
          (f3, h3) = AdaptivePolicyStatus_DeepCopyInto ext h2 (pm_Status x)
      in (x\<lparr>pm_ObjectMeta := f1, pm_Spec := f2, pm_Status := f3\<rparr>, h3))"

definition AdaptivePolicy_DeepCopy :: "apimachinery \<Rightarrow> ptr copier" where
  "AdaptivePolicy_DeepCopy ext = copy_ptr tAdaptivePolicy (AdaptivePolicy_DeepCopyInto ext)"

definition AdaptivePolicyList_DeepCopyInto :: "apimachinery \<Rightarrow> AdaptivePolicyList_mem copier" where
  "AdaptivePolicyList_DeepCopyInto ext h x =
     (let (f1, h1) = x_ListMeta ext h (plm_ListMeta x);
          (f2, h2) = copy_slice tAdaptivePolicy (AdaptivePolicy_DeepCopyInto ext) h1 (plm_Items x)
      in (x\<lparr>plm_ListMeta := f1, plm_Items := f2\<rparr>, h2))"

definition AdaptivePolicyList_DeepCopy :: "apimachinery \<Rightarrow> ptr copier" where
  "AdaptivePolicyList_DeepCopy ext = copy_ptr tAdaptivePolicyList (AdaptivePolicyList_DeepCopyInto ext)"

datatype runtime_object = NilObject | PolicyObject addr | PolicyListObject addr

definition AdaptivePolicy_DeepCopyObject :: "apimachinery \<Rightarrow> heap \<Rightarrow> ptr \<Rightarrow> runtime_object \<times> heap" where
  "AdaptivePolicy_DeepCopyObject ext h p =
     (case AdaptivePolicy_DeepCopy ext h p of (Some c, h') \<Rightarrow> (PolicyObject c, h') | (None, h') \<Rightarrow> (NilObject, h'))"

definition AdaptivePolicyList_DeepCopyObject :: "apimachinery \<Rightarrow> heap \<Rightarrow> ptr \<Rightarrow> runtime_object \<times> heap" where
  "AdaptivePolicyList_DeepCopyObject ext h p =
     (case AdaptivePolicyList_DeepCopy ext h p of (Some c, h') \<Rightarrow> (PolicyListObject c, h') | (None, h') \<Rightarrow> (NilObject, h'))"

end
