(* ===== verification/Deep_Copy_Facts.thy ===== *)
theory Deep_Copy_Facts
  imports Deep_Copy
begin

section \<open>The contract of a deep copy\<close>

text \<open>
  The locale \<open>deep_copier\<close> is what a caller of \<open>DeepCopyInto\<close> relies on: the copy only allocates, and it
  denotes the value of the original from its own cells alone, whatever becomes of the others. The
  combinators keep the contract, so every generated function is an interpretation of it.
\<close>

subsection \<open>Regions of the heap\<close>

definition rests_on :: "heap \<Rightarrow> heap \<Rightarrow> (heap \<Rightarrow> bool) \<Rightarrow> bool" where
  \<comment> \<open>\<open>P\<close> holds as long as the cells allocated between \<open>h\<close> and \<open>h'\<close> are as in \<open>h'\<close>\<close>
  "rests_on h h' P \<longleftrightarrow> prefix h h' \<and>
     (\<forall>g. length h' \<le> length g \<longrightarrow> (\<forall>a. length h \<le> a \<and> a < length h' \<longrightarrow> g ! a = h' ! a) \<longrightarrow> P g)"

lemma rests_onI:
  assumes "prefix h h'"
    and "\<And>g. length h' \<le> length g \<Longrightarrow> (\<And>a. length h \<le> a \<Longrightarrow> a < length h' \<Longrightarrow> g ! a = h' ! a) \<Longrightarrow> P g"
  shows "rests_on h h' P"
  using assms by (auto simp: rests_on_def)

lemma rests_onD:
  "rests_on h h' P \<Longrightarrow> length h' \<le> length g \<Longrightarrow> (\<And>a. length h \<le> a \<Longrightarrow> a < length h' \<Longrightarrow> g ! a = h' ! a) \<Longrightarrow> P g"
  by (auto simp: rests_on_def)

lemma prefix_same: "prefix h h' \<Longrightarrow> a < length h \<Longrightarrow> h' ! a = h ! a"
  by (auto simp: prefix_def nth_append)

lemma rests_on_extends: "rests_on h h' P \<Longrightarrow> prefix h h'"
  by (simp add: rests_on_def)

lemma rests_on_widen:
  assumes "rests_on h h' P" "prefix h0 h" "prefix h' h1"
  shows "rests_on h0 h1 P"
proof (rule rests_onI)
  show "prefix h0 h1" using assms by (meson prefix_order.trans rests_on_extends)
  fix g assume g: "length h1 \<le> length g" "\<And>a. length h0 \<le> a \<Longrightarrow> a < length h1 \<Longrightarrow> g ! a = h1 ! a"
  have l: "length h0 \<le> length h" "length h' \<le> length h1" using assms(2,3) by (auto simp: prefix_length_le)
  show "P g"
  proof (rule rests_onD [OF assms(1)])
    show "length h' \<le> length g" using l g(1) by simp
    fix a assume "length h \<le> a" "a < length h'"
    then show "g ! a = h' ! a" using g(2) [of a] l prefix_same [OF assms(3)] by simp
  qed
qed

lemma rests_on_conj: "rests_on h h' P \<Longrightarrow> rests_on h h' Q \<Longrightarrow> rests_on h h' (\<lambda>g. P g \<and> Q g)"
  by (auto simp: rests_on_def)

lemma rests_on_mono: "rests_on h h' P \<Longrightarrow> (\<And>g. P g \<Longrightarrow> Q g) \<Longrightarrow> rests_on h h' Q"
  by (auto simp: rests_on_def)

lemma rests_on_now: "rests_on h h' P \<Longrightarrow> P h'"
  by (auto simp: rests_on_def)

lemma rests_on_const: "prefix h h' \<Longrightarrow> P \<Longrightarrow> rests_on h h' (\<lambda>_. P)"
  by (simp add: rests_on_def)

lemma load_extend: "load t h a = Some xs \<Longrightarrow> prefix h h' \<Longrightarrow> load t h' a = Some xs"
  using prefix_length_le [of h h'] by (auto simp: load_def prefix_same split: if_splits)

lemma new_cell_rests:
  assumes "type_ok t" "new_cell t xs h = (a, h')"
  shows "rests_on h h' (\<lambda>g. load t g a = Some xs)"
  using assms by (auto simp: new_cell_def type_ok_def load_def nth_append intro!: rests_onI)

lemma new_cell_prefix: "new_cell t xs h = (a, h') \<Longrightarrow> prefix h h'"
  by (auto simp: new_cell_def)

definition writes :: "(addr \<times> cell) list \<Rightarrow> heap \<Rightarrow> heap" where
  "writes ws h = fold (\<lambda>(a, c) h. h[a := c]) ws h"

lemma writes_length [simp]: "length (writes ws h) = length h"
  unfolding writes_def by (induction ws arbitrary: h) auto

lemma writes_elsewhere: "\<forall>(a, c) \<in> set ws. Q a \<Longrightarrow> \<not> Q b \<Longrightarrow> writes ws h ! b = h ! b"
  unfolding writes_def by (induction ws arbitrary: h) (auto, metis nth_list_update_neq)

subsection \<open>The contract\<close>

locale deep_copier =
  fixes copy :: "'a copier" and denotes :: "heap \<Rightarrow> 'a \<Rightarrow> 'v option"
  assumes denotes_extend: "denotes h x = Some v \<Longrightarrow> prefix h h' \<Longrightarrow> denotes h' x = Some v"
    and copy_rests: "denotes h x = Some v \<Longrightarrow> copy h x = (y, h') \<Longrightarrow> rests_on h h' (\<lambda>g. denotes g y = Some v)"
begin

lemma copy_allocates_only: "denotes h x = Some v \<Longrightarrow> copy h x = (y, h') \<Longrightarrow> prefix h h'"
  using copy_rests rests_on_extends by blast

lemma copy_denotes: "denotes h x = Some v \<Longrightarrow> copy h x = (y, h') \<Longrightarrow> denotes h' y = Some v"
  using copy_rests rests_on_now by fastforce

lemma copy_keeps_heap: "denotes h x = Some v \<Longrightarrow> copy h x = (y, h') \<Longrightarrow> take (length h) h' = h"
  using copy_allocates_only by (metis append_eq_conv_conj prefix_def)

lemma copy_survives_writes:
  \<comment> \<open>no write to the cells that existed before the copy reaches it\<close>
  assumes "denotes h x = Some v" "copy h x = (y, h')"
  shows "\<forall>ws. (\<forall>(a, c) \<in> set ws. a < length h) \<longrightarrow> denotes (writes ws h') y = Some v"
  using rests_onD [OF copy_rests [OF assms]] writes_elsewhere [of _ "\<lambda>a. a < length h"]
  by (metis leD order_refl writes_length)

lemma original_survives_writes:
  \<comment> \<open>no write to the cells of the copy reaches the original\<close>
  assumes "denotes h x = Some v" "copy h x = (y, h')"
  shows "\<forall>ws. (\<forall>(a, c) \<in> set ws. length h \<le> a) \<longrightarrow> denotes (writes ws h') x = Some v"
proof (intro allI impI)
  fix ws :: "(addr \<times> cell) list" assume w: "\<forall>(a, c) \<in> set ws. length h \<le> a"
  have p: "prefix h h'" using copy_allocates_only [OF assms] .
  have "take (length h) (writes ws h') = h"
  proof (rule nth_equalityI)
    show "length (take (length h) (writes ws h')) = length h" using prefix_length_le [OF p] by simp
    fix i assume "i < length (take (length h) (writes ws h'))"
    then have "i < length h" by simp
    then show "take (length h) (writes ws h') ! i = h ! i"
      using writes_elsewhere [of ws "\<lambda>a. length h \<le> a" i h'] w prefix_same [OF p] by simp
  qed
  then have "prefix h (writes ws h')" by (metis take_is_prefix)
  then show "denotes (writes ws h') x = Some v" by (rule denotes_extend [OF assms(1)])
qed

lemma copy_chain:
  assumes "denotes h0 x = Some v" "prefix h0 h" "copy h x = (y, h')"
  shows "prefix h h'" "rests_on h h' (\<lambda>g. denotes g y = Some v)"
  using copy_rests [OF denotes_extend [OF assms(1,2)] assms(3)] rests_on_extends by blast+

end

subsection \<open>Combinators keep it\<close>

lemma deep_copier_assign: "deep_copier assign plain"
  by unfold_locales (auto simp: assign_def rests_on_def)

lemma val_list_Nil [simp]: "val_list v h [] = Some []"
  by (simp add: val_list_def)

lemma val_list_Cons: "val_list v h (x # xs) = Some vs \<longleftrightarrow> (\<exists>w ws. vs = w # ws \<and> v h x = Some w \<and> val_list v h xs = Some ws)"
  by (auto simp: val_list_def split: option.splits)

text \<open>One more copy: what rests on the cells allocated so far still does, and so does the new copy.\<close>

lemma rests_start: "rests_on h h (\<lambda>_. True)"
  by (simp add: rests_on_def)

lemma rests_step:
  assumes "rests_on h0 h P" "deep_copier cp v" "v h0 x = Some w" "cp h x = (y, h')"
  shows "rests_on h0 h' (\<lambda>g. P g \<and> v g y = Some w)"
proof (rule rests_on_conj)
  note p = rests_on_extends [OF assms(1)]
  note c = deep_copier.copy_chain [OF assms(2,3) p assms(4)]
  show "rests_on h0 h' P" by (rule rests_on_widen [OF assms(1) prefix_order.refl c(1)])
  show "rests_on h0 h' (\<lambda>g. v g y = Some w)" by (rule rests_on_widen [OF c(2) p prefix_order.refl])
qed

lemma rests_new:
  assumes "rests_on h0 h P" "type_ok t" "new_cell t xs h = (a, h')"
  shows "rests_on h0 h' (\<lambda>g. P g \<and> load t g a = Some xs)"
proof (rule rests_on_conj)
  note p = new_cell_prefix [OF assms(3)]
  show "rests_on h0 h' P" by (rule rests_on_widen [OF assms(1) prefix_order.refl p])
  show "rests_on h0 h' (\<lambda>g. load t g a = Some xs)"
    by (rule rests_on_widen [OF new_cell_rests [OF assms(2,3)] rests_on_extends [OF assms(1)] prefix_order.refl])
qed

lemma val_list_extend:
  assumes "deep_copier cp v" "prefix h h'"
  shows "val_list v h xs = Some vs \<Longrightarrow> val_list v h' xs = Some vs"
proof (induction xs arbitrary: vs)
  case (Cons x xs)
  then show ?case using deep_copier.denotes_extend [OF assms(1) _ assms(2)] by (auto simp: val_list_Cons)
qed simp

lemma copy_list_rests:
  assumes "deep_copier cp v"
  shows "rests_on h0 h P \<Longrightarrow> val_list v h0 xs = Some vs \<Longrightarrow> copy_list cp h xs = (ys, h') \<Longrightarrow>
    rests_on h0 h' (\<lambda>g. P g \<and> val_list v g ys = Some vs)"
proof (induction xs arbitrary: h P vs ys)
  case Nil
  then show ?case by simp
next
  case (Cons x xs)
  from Cons.prems(2) obtain w ws where w: "vs = w # ws" "v h0 x = Some w" "val_list v h0 xs = Some ws"
    by (auto simp: val_list_Cons)
  from Cons.prems(3) obtain y h1 zs where c: "cp h x = (y, h1)" "copy_list cp h1 xs = (zs, h')" "ys = y # zs"
    by (auto split: prod.splits)
  show ?case
    by (rule rests_on_mono [OF Cons.IH [OF rests_step [OF Cons.prems(1) assms w(2) c(1)] w(3) c(2)]])
      (auto simp: w(1) c(3) val_list_Cons)
qed

lemma copy_list_length: "copy_list cp h xs = (ys, h') \<Longrightarrow> length ys = length xs"
  by (induction xs arbitrary: h ys) (auto split: prod.splits)

lemma deep_copier_ptr:
  assumes "deep_copier cp v" "type_ok t"
  shows "deep_copier (copy_ptr t cp) (val_ptr t v)"
proof
  fix h p w h' assume "val_ptr t v h p = Some w" "prefix h h'"
  then show "val_ptr t v h' p = Some w"
    using load_extend [of t h _ _ h'] deep_copier.denotes_extend [OF assms(1), of h _ _ h']
    by (fastforce simp: val_ptr_def split: option.splits list.splits)
next
  fix h p w q h' assume a: "val_ptr t v h p = Some w" "copy_ptr t cp h p = (q, h')"
  show "rests_on h h' (\<lambda>g. val_ptr t v g q = Some w)"
  proof (cases p)
    case None
    with a show ?thesis by (auto simp: val_ptr_def copy_ptr_def rests_on_def)
  next
    case (Some b)
    with a(1) obtain x u where x: "load t h b = Some [x]" "v h x = Some u" "w = Some u"
      by (auto simp: val_ptr_def split: option.splits list.splits)
    with a(2) Some obtain y h1 c where c: "cp h x = (y, h1)" "new_cell t [y] h1 = (c, h')" "q = Some c"
      by (auto simp: copy_ptr_def deref_def split: prod.splits)
    show ?thesis
      by (rule rests_on_mono [OF rests_new [OF rests_step [OF rests_start assms(1) x(2) c(1)] assms(2) c(2)]])
        (simp add: c(3) x(3) val_ptr_def)
  qed
qed

lemma deep_copier_slice:
  assumes "deep_copier cp v" "type_ok t"
  shows "deep_copier (copy_slice t cp) (val_slice t v)"
proof
  fix h s w h' assume "val_slice t v h s = Some w" "prefix h h'"
  then show "val_slice t v h' s = Some w"
    using load_extend [of t h _ _ h'] val_list_extend [OF assms(1), of h h']
    by (auto simp: val_slice_def elems_def split: option.splits if_splits)
next
  fix h s w q h' assume a: "val_slice t v h s = Some w" "copy_slice t cp h s = (q, h')"
  show "rests_on h h' (\<lambda>g. val_slice t v g q = Some w)"
  proof (cases s)
    case None
    with a show ?thesis by (auto simp: val_slice_def copy_slice_def rests_on_def)
  next
    case (Some sl)
    with a(1) have x: "val_list v h (elems t h sl) = Some w"
      by (auto simp: val_slice_def split: option.splits if_splits)
    from a(2) Some obtain ys h1 c where c: "copy_list cp h (elems t h sl) = (ys, h1)" "new_cell t ys h1 = (c, h')"
      "q = Some \<lparr>s_base = c, s_off = 0, s_len = length ys\<rparr>"
      by (auto simp: copy_slice_def split: prod.splits)
    show ?thesis
      by (rule rests_on_mono [OF rests_new [OF copy_list_rests [OF assms(1) rests_start x c(1)] assms(2) c(2)]])
        (simp add: c(3) val_slice_def elems_def)
  qed
qed

lemma deep_copier_entry:
  assumes "deep_copier cp v"
  shows "deep_copier (copy_entry cp) (val_entry v)"
proof
  fix h e w h' assume a: "val_entry v h e = Some w" "prefix h h'"
  show "val_entry v h' e = Some w"
    using a(1) deep_copier.denotes_extend [OF assms _ a(2), of "snd e"] by (auto simp: val_entry_def)
next
  fix h e w q h' assume a: "val_entry v h e = Some w" "copy_entry cp h e = (q, h')"
  then obtain u y where x: "v h (snd e) = Some u" "w = (fst e, u)" and c: "cp h (snd e) = (y, h')" "q = (fst e, y)"
    by (auto simp: val_entry_def copy_entry_def split: prod.splits)
  show "rests_on h h' (\<lambda>g. val_entry v g q = Some w)"
    by (rule rests_on_mono [OF rests_step [OF rests_start assms x(1) c(1)]]) (simp add: c(2) x(2) val_entry_def)
qed

lemma fold_update_fresh:
  "distinct (map fst m @ map fst es) \<Longrightarrow> fold (\<lambda>(k, v) m. AList.update k v m) es m = m @ es"
proof (induction es arbitrary: m)
  case (Cons e es)
  have "fst e \<notin> set (map fst m) \<Longrightarrow> AList.update (fst e) (snd e) m = m @ [e]" by (induction m) auto
  moreover have "fst e \<notin> set (map fst m)" using Cons.prems by simp
  ultimately have "AList.update (fst e) (snd e) m = m @ [e]" by blast
  then show ?case using Cons.IH [of "m @ [e]"] Cons.prems by (simp add: split_beta)
qed simp

lemma insert_all_distinct: "distinct (map fst es) \<Longrightarrow> insert_all es = es"
  using fold_update_fresh [of "[]" es] by (simp add: insert_all_def)

lemma copy_entries_keys: "copy_list (copy_entry cp) h es = (ys, h') \<Longrightarrow> map fst ys = map fst es"
  by (induction es arbitrary: h ys) (auto simp: copy_entry_def split: prod.splits)

lemma deep_copier_map:
  assumes "deep_copier cp v" "type_ok t"
  shows "deep_copier (copy_map t cp) (val_map t v)"
proof
  note D = deep_copier_entry [OF assms(1)]
  fix h s w h' assume "val_map t v h s = Some w" "prefix h h'"
  then show "val_map t v h' s = Some w"
    using load_extend [of t h _ _ h'] val_list_extend [OF D, of h h']
    by (auto simp: val_map_def split: option.splits if_splits)
next
  note D = deep_copier_entry [OF assms(1)]
  fix h s w q h' assume a: "val_map t v h s = Some w" "copy_map t cp h s = (q, h')"
  show "rests_on h h' (\<lambda>g. val_map t v g q = Some w)"
  proof (cases s)
    case None
    with a show ?thesis by (auto simp: val_map_def copy_map_def rests_on_def)
  next
    case (Some b)
    with a(1) obtain es where x: "load t h b = Some es" "distinct (map fst es)" "val_list (val_entry v) h es = Some w"
      by (auto simp: val_map_def split: option.splits if_splits)
    with a(2) Some obtain ys h1 c where c: "copy_list (copy_entry cp) h es = (ys, h1)"
      "new_cell t (insert_all ys) h1 = (c, h')" "q = Some c"
      by (auto simp: copy_map_def split: prod.splits)
    have d: "distinct (map fst ys)" using x(2) by (simp add: copy_entries_keys [OF c(1)])
    show ?thesis
      by (rule rests_on_mono [OF rests_new [OF copy_list_rests [OF D rests_start x(3) c(1)] assms(2) c(2)]])
        (simp add: c(3) val_map_def insert_all_distinct d)
  qed
qed

lemma copy_ptr_nil: "copy_ptr t cp h p = (q, h') \<Longrightarrow> q = None \<longleftrightarrow> p = None"
  by (auto simp: copy_ptr_def split: option.splits prod.splits)

lemma copy_ptr_fresh:
  assumes "deep_copier cp v" "val_ptr t v h p = Some w" "copy_ptr t cp h p = (q, h')"
  shows "q = Some b \<Longrightarrow> length h \<le> b"
proof (cases p)
  case (Some a)
  assume b: "q = Some b"
  from assms(2) Some obtain x u where x: "load t h a = Some [x]" "v h x = Some u"
    by (auto simp: val_ptr_def split: option.splits list.splits)
  from assms(3) Some b x(1) obtain y h1 where "cp h x = (y, h1)" "b = length h1"
    by (auto simp: copy_ptr_def deref_def new_cell_def split: prod.splits)
  then show "length h \<le> b" using deep_copier.copy_allocates_only [OF assms(1) x(2)] prefix_length_le by blast
qed (use assms(3) in \<open>simp add: copy_ptr_def\<close>)

subsection \<open>Structs\<close>

text \<open>The fields of a struct that hold references, as nested pairs, and the struct built on them.\<close>

definition copy_pair :: "'a copier \<Rightarrow> 'b copier \<Rightarrow> ('a \<times> 'b) copier" where
  "copy_pair cp1 cp2 h p = (let (a, h1) = cp1 h (fst p); (b, h2) = cp2 h1 (snd p) in ((a, b), h2))"

definition val_pair :: "(heap \<Rightarrow> 'a \<Rightarrow> 'v option) \<Rightarrow> (heap \<Rightarrow> 'b \<Rightarrow> 'w option) \<Rightarrow> heap \<Rightarrow> 'a \<times> 'b \<Rightarrow> ('v \<times> 'w) option" where
  "val_pair v1 v2 h p = (case (v1 h (fst p), v2 h (snd p)) of (Some a, Some b) \<Rightarrow> Some (a, b) | _ \<Rightarrow> None)"

lemma val_pair_Some: "val_pair v1 v2 h (x, y) = Some w \<longleftrightarrow> v1 h x = Some (fst w) \<and> v2 h y = Some (snd w)"
  by (cases w) (auto simp: val_pair_def split: option.splits)

lemma deep_copier_pair:
  assumes "deep_copier cp1 v1" "deep_copier cp2 v2"
  shows "deep_copier (copy_pair cp1 cp2) (val_pair v1 v2)"
proof
  fix h p w h' assume a: "val_pair v1 v2 h p = Some w" "prefix h h'"
  show "val_pair v1 v2 h' p = Some w"
    using a(1) assms [THEN deep_copier.denotes_extend, OF _ a(2)] by (cases p) (simp add: val_pair_Some)
next
  fix h p w q h' assume a: "val_pair v1 v2 h p = Some w" "copy_pair cp1 cp2 h p = (q, h')"
  then obtain x1 x2 y1 y2 h1 where v: "v1 h x1 = Some (fst w)" "v2 h x2 = Some (snd w)"
    and c: "cp1 h x1 = (y1, h1)" "cp2 h1 x2 = (y2, h')" "q = (y1, y2)"
    by (cases p) (auto simp: val_pair_Some copy_pair_def split: prod.splits)
  show "rests_on h h' (\<lambda>g. val_pair v1 v2 g q = Some w)"
    by (rule rests_on_mono [OF rests_step [OF rests_step [OF rests_start assms(1) v(1) c(1)] assms(2) v(2) c(2)]])
      (simp add: c(3) val_pair_Some)
qed

lemma deep_copier_struct:
  assumes "deep_copier cp v"
    and cp: "\<And>h x. struct_into h x = (let (y, h') = cp h (get x) in (put y x, h'))"
    and pg: "\<And>x. put (get x) x = x"
    and parts: "\<And>h x w. val h x = Some w \<Longrightarrow> \<exists>u. v h (get x) = Some u"
    and whole: "\<And>h g x y u. v h (get x) = Some u \<Longrightarrow> v g y = Some u \<Longrightarrow> val g (put y x) = val h x"
  shows "deep_copier struct_into val"
proof
  fix h x w h' assume a: "val h x = Some w" "prefix h h'"
  from parts [OF a(1)] obtain u where u: "v h (get x) = Some u" ..
  have "val h' (put (get x) x) = val h x"
    using whole [OF u deep_copier.denotes_extend [OF assms(1) u a(2)]] .
  then show "val h' x = Some w" using a(1) by (simp add: pg)
next
  fix h x w y h' assume a: "val h x = Some w" "struct_into h x = (y, h')"
  from parts [OF a(1)] obtain u where u: "v h (get x) = Some u" ..
  from a(2) obtain z where z: "cp h (get x) = (z, h')" "y = put z x" by (auto simp: cp split: prod.splits)
  show "rests_on h h' (\<lambda>g. val g y = Some w)"
    by (rule rests_on_mono [OF rests_step [OF rests_start assms(1) u z(1)]]) (use a(1) whole [OF u] z(2) in simp)
qed

end
