(* ===== verification/Deep_Copy_Structs.thy ===== *)
theory Deep_Copy_Structs
  imports Deep_Copy_Facts
begin

section \<open>Every generated copy is a deep copy\<close>

text \<open>
  The contract of each \<open>DeepCopyInto\<close>, from those of its fields, and its interpretations. Those that copy a
  Kubernetes struct assume that the library's own copies keep the contract.
\<close>

lemmas struct_rules = copy_pair_def val_pair_Some bind_eq_Some_conv

definition copies_ok :: "apimachinery \<Rightarrow> bool" where
  "copies_ok ext \<longleftrightarrow> deep_copier (x_ObjectMeta ext) val_ObjectMeta \<and> deep_copier (x_ListMeta ext) plain \<and>
     deep_copier (x_Condition ext) plain \<and> deep_copier (x_Time ext) plain \<and>
     deep_copier (x_Time_ptr ext) (val_ptr tTime plain)"

lemma copies_okD:
  assumes "copies_ok ext"
  shows "deep_copier (x_ObjectMeta ext) val_ObjectMeta" "deep_copier (x_ListMeta ext) plain"
    "deep_copier (x_Condition ext) plain" "deep_copier (x_Time ext) plain"
    "deep_copier (x_Time_ptr ext) (val_ptr tTime plain)"
  using assms by (simp_all add: copies_ok_def)

lemma deep_copier_AdmissionControlConfig:
  "deep_copier AdmissionControlConfig_DeepCopyInto val_AdmissionControlConfig"
proof -
  note f1 = deep_copier_slice [OF deep_copier_assign, of tHTTPStatusRange]
  note f2 = deep_copier_slice [OF deep_copier_assign, of tString]
  show ?thesis
    by (rule deep_copier_struct [OF deep_copier_pair [OF f1 f2],
        where get = "\<lambda>x. (acm_SuccessCodes x, acm_SkipPaths x)"
          and put = "\<lambda>(a1, a2) x. x\<lparr>acm_SuccessCodes := a1, acm_SkipPaths := a2\<rparr>"])
      (auto simp: AdmissionControlConfig_DeepCopyInto_def val_AdmissionControlConfig_def struct_rules split: prod.splits)
qed

lemma deep_copier_ProfileConfig:
  "deep_copier ProfileConfig_DeepCopyInto val_ProfileConfig"
proof -
  note f1 = deep_copier_ptr [OF deep_copier_assign, of tAdmissionControlOverride]
  note f2 = deep_copier_ptr [OF deep_copier_assign, of tAdaptiveConcurrencyOverride]
  show ?thesis
    by (rule deep_copier_struct [OF deep_copier_pair [OF f1 f2],
        where get = "\<lambda>x. (pfm_AdmissionControl x, pfm_AdaptiveConcurrency x)"
          and put = "\<lambda>(a1, a2) x. x\<lparr>pfm_AdmissionControl := a1, pfm_AdaptiveConcurrency := a2\<rparr>"])
      (auto simp: ProfileConfig_DeepCopyInto_def val_ProfileConfig_def struct_rules split: prod.splits)
qed

lemma deep_copier_TriggerCondition:
  "deep_copier TriggerCondition_DeepCopyInto val_TriggerCondition"
proof -
  note f1 = deep_copier_ptr [OF deep_copier_assign, of tRateCondition]
  note f2 = deep_copier_ptr [OF deep_copier_assign, of tThresholdCondition]
  note f3 = deep_copier_ptr [OF deep_copier_assign, of tInt32]
  show ?thesis
    by (rule deep_copier_struct [OF deep_copier_pair [OF f1 deep_copier_pair [OF f2 f3]],
        where get = "\<lambda>x. (cdm_SuccessRate x, cdm_ServiceLatencyMs x, cdm_RPSAbove x)"
          and put = "\<lambda>(a1, a2, a3) x. x\<lparr>cdm_SuccessRate := a1, cdm_ServiceLatencyMs := a2, cdm_RPSAbove := a3\<rparr>"])
      (auto simp: TriggerCondition_DeepCopyInto_def val_TriggerCondition_def struct_rules split: prod.splits)
qed

lemma deep_copier_TriggerConfig:
  "deep_copier TriggerConfig_DeepCopyInto val_TriggerConfig"
proof -
  note f1 = deep_copier_TriggerCondition
  note f2 = deep_copier_slice [OF deep_copier_assign, of tString]
  show ?thesis
    by (rule deep_copier_struct [OF deep_copier_pair [OF f1 f2],
        where get = "\<lambda>x. (trm_When x, trm_FromProfiles x)"
          and put = "\<lambda>(a1, a2) x. x\<lparr>trm_When := a1, trm_FromProfiles := a2\<rparr>"])
      (auto simp: TriggerConfig_DeepCopyInto_def val_TriggerConfig_def struct_rules split: prod.splits)
qed

lemma deep_copier_ScheduleConfig:
  "deep_copier ScheduleConfig_DeepCopyInto val_ScheduleConfig"
proof -
  note f1 = deep_copier_slice [OF deep_copier_assign, of tString]
  show ?thesis
    by (rule deep_copier_struct [OF f1,
        where get = "\<lambda>x. scm_FromProfiles x"
          and put = "\<lambda>a1 x. x\<lparr>scm_FromProfiles := a1\<rparr>"])
      (auto simp: ScheduleConfig_DeepCopyInto_def val_ScheduleConfig_def struct_rules split: prod.splits)
qed

lemma deep_copier_profile_value: "deep_copier profile_value val_ProfileConfig"
proof
  note D = deep_copier.denotes_extend [OF deep_copier_ProfileConfig]
  fix h v w h' assume "val_ProfileConfig h v = Some w" "prefix h h'"
  then show "val_ProfileConfig h' v = Some w" by (rule D)
next
  fix h v w y h' assume a: "val_ProfileConfig h v = Some w" "profile_value h v = (y, h')"
  obtain l h0 where n: "new_cell tProfileConfig [v] h = (l, h0)" by fastforce
  then have l: "load tProfileConfig h0 l = Some [v]"
    by (rule rests_on_now [OF new_cell_rests [OF types_ok(10)]])
  have v: "val_ProfileConfig h0 v = Some w"
    by (rule deep_copier.denotes_extend [OF deep_copier_ProfileConfig a(1) new_cell_prefix [OF n]])
  obtain z h1 where z: "ProfileConfig_DeepCopyInto h0 v = (z, h1)" by fastforce
  obtain b h2 where b: "new_cell tProfileConfig [z] h1 = (b, h2)" by fastforce
  note r = rests_new [OF rests_step [OF rests_start deep_copier_ProfileConfig v z] types_ok(10) b]
  have "y = z" "h2 = h'"
    using a(2) n z b rests_on_now [OF r]
    by (auto simp: profile_value_def ProfileConfig_DeepCopy_def copy_ptr_def l deref_def)
  then show "rests_on h h' (\<lambda>g. val_ProfileConfig g y = Some w)"
    using rests_on_mono [OF rests_on_widen [OF r new_cell_prefix [OF n] prefix_order.refl]] by simp
qed

lemma deep_copier_AdaptivePolicySpec:
  "deep_copier AdaptivePolicySpec_DeepCopyInto val_AdaptivePolicySpec"
proof -
  note f1 = deep_copier_map [OF deep_copier_assign, of tStringMap]
  note f2 = deep_copier_ptr [OF deep_copier_assign, of tAdaptiveConcurrencyConfig]
  note f3 = deep_copier_ptr [OF deep_copier_AdmissionControlConfig, of tAdmissionControlConfig]
  note f4 = deep_copier_ptr [OF deep_copier_assign, of tStreamingProtectionConfig]
  note f5 = deep_copier_map [OF deep_copier_profile_value, of tProfileMap]
  note f6 = deep_copier_slice [OF deep_copier_TriggerConfig, of tTriggerConfig]
  note f7 = deep_copier_slice [OF deep_copier_ScheduleConfig, of tScheduleConfig]
  note f8 = deep_copier_ptr [OF deep_copier_assign, of tSignalConfig]
  note f9 = deep_copier_ptr [OF deep_copier_assign, of tDetectionConfig]
  show ?thesis
    by (rule deep_copier_struct [OF deep_copier_pair [OF f1 deep_copier_pair [OF f2 deep_copier_pair [OF f3 deep_copier_pair [OF f4 deep_copier_pair [OF f5 deep_copier_pair [OF f6 deep_copier_pair [OF f7 deep_copier_pair [OF f8 f9]]]]]]]],
        where get = "\<lambda>x. (spm_Selector x, spm_AdaptiveConcurrency x, spm_AdmissionControl x,
              spm_StreamingProtection x, spm_Profiles x, spm_Triggers x, spm_Schedules x,
              spm_SignalConfig x, spm_Detection x)"
          and put = "\<lambda>(a1, a2, a3, a4, a5, a6, a7, a8, a9) x. x\<lparr>spm_Selector := a1, spm_AdaptiveConcurrency := a2, spm_AdmissionControl := a3,
              spm_StreamingProtection := a4, spm_Profiles := a5, spm_Triggers := a6,
              spm_Schedules := a7, spm_SignalConfig := a8, spm_Detection := a9\<rparr>"])
      (auto simp: AdaptivePolicySpec_DeepCopyInto_def val_AdaptivePolicySpec_def struct_rules split: prod.splits)
qed

lemma deep_copier_DecisionRecord:
  assumes "copies_ok ext"
  shows "deep_copier (DecisionRecord_DeepCopyInto ext) plain"
proof -
  note ext = copies_okD [OF assms]
  note f1 = ext(4)
  show ?thesis
    by (rule deep_copier_struct [OF f1,
        where get = "\<lambda>x. dr_Timestamp x"
          and put = "\<lambda>a1 x. x\<lparr>dr_Timestamp := a1\<rparr>"])
      (auto simp: DecisionRecord_DeepCopyInto_def struct_rules split: prod.splits)
qed

lemma deep_copier_AdaptivePolicyStatus:
  assumes "copies_ok ext"
  shows "deep_copier (AdaptivePolicyStatus_DeepCopyInto ext) val_AdaptivePolicyStatus"
proof -
  note ext = copies_okD [OF assms]
  note f1 = deep_copier_slice [OF ext(3), of tCondition]
  note f2 = ext(5)
  note f3 = deep_copier_slice [OF deep_copier_assign, of tString]
  note f4 = deep_copier_slice [OF deep_copier_assign, of tManagedResource]
  note f5 = deep_copier_ptr [OF deep_copier_DecisionRecord [OF assms], of tDecisionRecord]
  note f6 = deep_copier_slice [OF deep_copier_DecisionRecord [OF assms], of tDecisionRecord]
  note f7 = ext(5)
  note f8 = ext(5)
  show ?thesis
    by (rule deep_copier_struct [OF deep_copier_pair [OF f1 deep_copier_pair [OF f2 deep_copier_pair [OF f3 deep_copier_pair [OF f4 deep_copier_pair [OF f5 deep_copier_pair [OF f6 deep_copier_pair [OF f7 f8]]]]]]],
        where get = "\<lambda>x. (stm_Conditions x, stm_ProfileActiveSince x, stm_ActiveFilters x, stm_ManagedResources x,
              stm_LastDecision x, stm_DecisionHistory x, stm_NextTriggerEvaluation x,
              stm_LastReconcileTime x)"
          and put = "\<lambda>(a1, a2, a3, a4, a5, a6, a7, a8) x. x\<lparr>stm_Conditions := a1, stm_ProfileActiveSince := a2, stm_ActiveFilters := a3,
              stm_ManagedResources := a4, stm_LastDecision := a5, stm_DecisionHistory := a6,
              stm_NextTriggerEvaluation := a7, stm_LastReconcileTime := a8\<rparr>"])
      (auto simp: AdaptivePolicyStatus_DeepCopyInto_def val_AdaptivePolicyStatus_def struct_rules split: prod.splits)
qed

lemma deep_copier_AdaptivePolicy:
  assumes "copies_ok ext"
  shows "deep_copier (AdaptivePolicy_DeepCopyInto ext) val_AdaptivePolicy"
proof -
  note ext = copies_okD [OF assms]
  note f1 = ext(1)
  note f2 = deep_copier_AdaptivePolicySpec
  note f3 = deep_copier_AdaptivePolicyStatus [OF assms]
  show ?thesis
    by (rule deep_copier_struct [OF deep_copier_pair [OF f1 deep_copier_pair [OF f2 f3]],
        where get = "\<lambda>x. (pm_ObjectMeta x, pm_Spec x, pm_Status x)"
          and put = "\<lambda>(a1, a2, a3) x. x\<lparr>pm_ObjectMeta := a1, pm_Spec := a2, pm_Status := a3\<rparr>"])
      (auto simp: AdaptivePolicy_DeepCopyInto_def val_AdaptivePolicy_def struct_rules split: prod.splits)
qed

lemma deep_copier_AdaptivePolicyList:
  assumes "copies_ok ext"
  shows "deep_copier (AdaptivePolicyList_DeepCopyInto ext) val_AdaptivePolicyList"
proof -
  note ext = copies_okD [OF assms]
  note f1 = ext(2)
  note f2 = deep_copier_slice [OF deep_copier_AdaptivePolicy [OF assms], of tAdaptivePolicy]
  show ?thesis
    by (rule deep_copier_struct [OF deep_copier_pair [OF f1 f2],
        where get = "\<lambda>x. (plm_ListMeta x, plm_Items x)"
          and put = "\<lambda>(a1, a2) x. x\<lparr>plm_ListMeta := a1, plm_Items := a2\<rparr>"])
      (auto simp: AdaptivePolicyList_DeepCopyInto_def val_AdaptivePolicyList_def struct_rules split: prod.splits)
qed

end
