(* ===== verification/Deep_Copy_Nils.thy ===== *)
theory Deep_Copy_Nils
  imports Deep_Copy_Structs
begin

section \<open>Nil and empty\<close>

text \<open>
  Go tells a nil slice or map from an empty one, which the values of \<open>Policy_Memory\<close> do not. The readings of
  this theory do, for every slice and map of a policy but those of its Kubernetes metadata, and the generated
  copies keep them too.
\<close>

subsection \<open>Readings that tell nil from empty\<close>

definition nil_slice :: "'a gotype \<Rightarrow> (heap \<Rightarrow> 'a \<Rightarrow> 'v option) \<Rightarrow> heap \<Rightarrow> slice \<Rightarrow> (bool \<times> 'v list) option" where
  "nil_slice t v h s = map_option (Pair (s = None)) (val_slice t v h s)"

definition nil_map :: "('k \<times> 'a) gotype \<Rightarrow> (heap \<Rightarrow> 'a \<Rightarrow> 'v option) \<Rightarrow> heap \<Rightarrow> ptr \<Rightarrow>
    (bool \<times> ('k, 'v) gomap) option" where
  "nil_map t v h m = map_option (Pair (m = None)) (val_map t v h m)"

definition admission_nils where
  "admission_nils h x = val_pair (nil_slice tHTTPStatusRange plain) (nil_slice tString plain) h
     (acm_SuccessCodes x, acm_SkipPaths x)"

definition trigger_nils where
  "trigger_nils h x = val_pair val_TriggerCondition (nil_slice tString plain) h (trm_When x, trm_FromProfiles x)"

definition schedule_nils where
  "schedule_nils h x = nil_slice tString plain h (scm_FromProfiles x)"

definition spec_nils where
  "spec_nils h x =
     val_pair (nil_map tStringMap plain) (val_pair (val_ptr tAdaptiveConcurrencyConfig plain)
       (val_pair (val_ptr tAdmissionControlConfig admission_nils) (val_pair (val_ptr tStreamingProtectionConfig plain)
         (val_pair (nil_map tProfileMap val_ProfileConfig) (val_pair (nil_slice tTriggerConfig trigger_nils)
           (val_pair (nil_slice tScheduleConfig schedule_nils) (val_pair (val_ptr tSignalConfig plain)
             (val_ptr tDetectionConfig plain)))))))) h
     (spm_Selector x, spm_AdaptiveConcurrency x, spm_AdmissionControl x, spm_StreamingProtection x, spm_Profiles x,
      spm_Triggers x, spm_Schedules x, spm_SignalConfig x, spm_Detection x)"

definition status_nils where
  "status_nils h x =
     val_pair (nil_slice tCondition plain) (val_pair (val_ptr tTime plain) (val_pair (nil_slice tString plain)
       (val_pair (nil_slice tManagedResource plain) (val_pair (val_ptr tDecisionRecord plain)
         (val_pair (nil_slice tDecisionRecord plain) (val_pair (val_ptr tTime plain) (val_ptr tTime plain))))))) h
     (stm_Conditions x, stm_ProfileActiveSince x, stm_ActiveFilters x, stm_ManagedResources x, stm_LastDecision x,
      stm_DecisionHistory x, stm_NextTriggerEvaluation x, stm_LastReconcileTime x)"

definition policy_nils where
  "policy_nils h x = val_pair val_ObjectMeta (val_pair spec_nils status_nils) h (pm_ObjectMeta x, pm_Spec x, pm_Status x)"

subsection \<open>The copies keep them\<close>

lemma deep_copier_marked:
  assumes "deep_copier cp v" and nil: "\<And>h x y h'. cp h x = (y, h') \<Longrightarrow> (y = None) = (x = None)"
  shows "deep_copier cp (\<lambda>h x. map_option (Pair (x = None)) (v h x))"
proof
  fix h x w h' assume a: "map_option (Pair (x = None)) (v h x) = Some w" "prefix h h'"
  then obtain u where "v h x = Some u" "w = (x = None, u)" by auto
  then show "map_option (Pair (x = None)) (v h' x) = Some w"
    using deep_copier.denotes_extend [OF assms(1) _ a(2)] by simp
next
  fix h x w y h' assume a: "map_option (Pair (x = None)) (v h x) = Some w" "cp h x = (y, h')"
  then obtain u where "v h x = Some u" "w = (x = None, u)" by auto
  then show "rests_on h h' (\<lambda>g. map_option (Pair (y = None)) (v g y) = Some w)"
    using rests_on_mono [OF deep_copier.copy_rests [OF assms(1) _ a(2)]] nil [OF a(2)] by simp
qed

lemma deep_copier_nil_slice:
  assumes "deep_copier cp v" "type_ok t"
  shows "deep_copier (copy_slice t cp) (nil_slice t v)"
  unfolding nil_slice_def [abs_def]
  by (rule deep_copier_marked [OF deep_copier_slice [OF assms]]) (auto simp: copy_slice_def split: option.splits prod.splits)

lemma deep_copier_nil_map:
  assumes "deep_copier cp v" "type_ok t"
  shows "deep_copier (copy_map t cp) (nil_map t v)"
  unfolding nil_map_def [abs_def]
  by (rule deep_copier_marked [OF deep_copier_map [OF assms]]) (auto simp: copy_map_def split: option.splits prod.splits)

lemma deep_copier_fields:
  assumes "deep_copier cp v"
    and "\<And>h x. struct_into h x = (let (y, h') = cp h (get x) in (put y x, h'))"
    and "\<And>x. put (get x) x = x" "\<And>x y. get (put y x) = y"
  shows "deep_copier struct_into (\<lambda>h x. v h (get x))"
  by (rule deep_copier_struct [OF assms(1,2,3)]) (simp_all add: assms(4))

lemma deep_copier_admission_nils: "deep_copier AdmissionControlConfig_DeepCopyInto admission_nils"
  unfolding admission_nils_def [abs_def]
  by (rule deep_copier_fields [OF deep_copier_pair [OF deep_copier_nil_slice [OF deep_copier_assign]
        deep_copier_nil_slice [OF deep_copier_assign]],
      where put = "\<lambda>(a1, a2) x. x\<lparr>acm_SuccessCodes := a1, acm_SkipPaths := a2\<rparr>"])
    (auto simp: AdmissionControlConfig_DeepCopyInto_def copy_pair_def split: prod.splits)

lemma deep_copier_trigger_nils: "deep_copier TriggerConfig_DeepCopyInto trigger_nils"
  unfolding trigger_nils_def [abs_def]
  by (rule deep_copier_fields [OF deep_copier_pair [OF deep_copier_TriggerCondition deep_copier_nil_slice [OF deep_copier_assign]],
      where put = "\<lambda>(a1, a2) x. x\<lparr>trm_When := a1, trm_FromProfiles := a2\<rparr>"])
    (auto simp: TriggerConfig_DeepCopyInto_def copy_pair_def split: prod.splits)

lemma deep_copier_schedule_nils: "deep_copier ScheduleConfig_DeepCopyInto schedule_nils"
  unfolding schedule_nils_def [abs_def]
  by (rule deep_copier_fields [OF deep_copier_nil_slice [OF deep_copier_assign],
      where put = "\<lambda>a x. x\<lparr>scm_FromProfiles := a\<rparr>"])
    (auto simp: ScheduleConfig_DeepCopyInto_def split: prod.splits)

lemma deep_copier_spec_nils: "deep_copier AdaptivePolicySpec_DeepCopyInto spec_nils"
proof -
  note f1 = deep_copier_nil_map [OF deep_copier_assign, of tStringMap]
  note f2 = deep_copier_ptr [OF deep_copier_assign, of tAdaptiveConcurrencyConfig]
  note f3 = deep_copier_ptr [OF deep_copier_admission_nils, of tAdmissionControlConfig]
  note f4 = deep_copier_ptr [OF deep_copier_assign, of tStreamingProtectionConfig]
  note f5 = deep_copier_nil_map [OF deep_copier_profile_value, of tProfileMap]
  note f6 = deep_copier_nil_slice [OF deep_copier_trigger_nils, of tTriggerConfig]
  note f7 = deep_copier_nil_slice [OF deep_copier_schedule_nils, of tScheduleConfig]
  note f8 = deep_copier_ptr [OF deep_copier_assign, of tSignalConfig]
  note f9 = deep_copier_ptr [OF deep_copier_assign, of tDetectionConfig]
  show ?thesis
    unfolding spec_nils_def [abs_def]
    by (rule deep_copier_fields [OF deep_copier_pair [OF f1 deep_copier_pair [OF f2 deep_copier_pair [OF f3 deep_copier_pair [OF f4 deep_copier_pair [OF f5 deep_copier_pair [OF f6 deep_copier_pair [OF f7 deep_copier_pair [OF f8 f9]]]]]]]],
        where put = "\<lambda>(a1, a2, a3, a4, a5, a6, a7, a8, a9) x. x\<lparr>spm_Selector := a1, spm_AdaptiveConcurrency := a2, spm_AdmissionControl := a3,
              spm_StreamingProtection := a4, spm_Profiles := a5, spm_Triggers := a6,
              spm_Schedules := a7, spm_SignalConfig := a8, spm_Detection := a9\<rparr>"])
      (auto simp: AdaptivePolicySpec_DeepCopyInto_def copy_pair_def split: prod.splits)
qed

lemma deep_copier_status_nils:
  assumes "copies_ok ext"
  shows "deep_copier (AdaptivePolicyStatus_DeepCopyInto ext) status_nils"
proof -
  note ext = copies_okD [OF assms]
  note f1 = deep_copier_nil_slice [OF ext(3), of tCondition]
  note f3 = deep_copier_nil_slice [OF deep_copier_assign, of tString]
  note f4 = deep_copier_nil_slice [OF deep_copier_assign, of tManagedResource]
  note f5 = deep_copier_ptr [OF deep_copier_DecisionRecord [OF assms], of tDecisionRecord]
  note f6 = deep_copier_nil_slice [OF deep_copier_DecisionRecord [OF assms], of tDecisionRecord]
  show ?thesis
    unfolding status_nils_def [abs_def]
    by (rule deep_copier_fields [OF deep_copier_pair [OF f1 deep_copier_pair [OF ext(5) deep_copier_pair [OF f3 deep_copier_pair [OF f4 deep_copier_pair [OF f5 deep_copier_pair [OF f6 deep_copier_pair [OF ext(5) ext(5)]]]]]]],
        where put = "\<lambda>(a1, a2, a3, a4, a5, a6, a7, a8) x. x\<lparr>stm_Conditions := a1, stm_ProfileActiveSince := a2, stm_ActiveFilters := a3,
              stm_ManagedResources := a4, stm_LastDecision := a5, stm_DecisionHistory := a6,
              stm_NextTriggerEvaluation := a7, stm_LastReconcileTime := a8\<rparr>"])
      (auto simp: AdaptivePolicyStatus_DeepCopyInto_def copy_pair_def split: prod.splits)
qed

lemma deep_copier_policy_nils:
  assumes "copies_ok ext"
  shows "deep_copier (AdaptivePolicy_DeepCopyInto ext) policy_nils"
  unfolding policy_nils_def [abs_def]
  by (rule deep_copier_fields [OF deep_copier_pair [OF copies_okD(1) [OF assms]
        deep_copier_pair [OF deep_copier_spec_nils deep_copier_status_nils [OF assms]]],
      where put = "\<lambda>(a1, a2, a3) x. x\<lparr>pm_ObjectMeta := a1, pm_Spec := a2, pm_Status := a3\<rparr>"])
    (auto simp: AdaptivePolicy_DeepCopyInto_def copy_pair_def split: prod.splits)

subsection \<open>What has a value has such a reading\<close>

definition reads :: "(heap \<Rightarrow> 'a \<Rightarrow> 'v option) \<Rightarrow> (heap \<Rightarrow> 'a \<Rightarrow> 'w option) \<Rightarrow> bool" where
  "reads v r \<longleftrightarrow> (\<forall>h x. v h x \<noteq> None \<longrightarrow> r h x \<noteq> None)"

lemma reads_list: "reads v r \<Longrightarrow> val_list v h xs = Some vs \<Longrightarrow> \<exists>ws. val_list r h xs = Some ws"
proof (induction xs arbitrary: vs)
  case (Cons x xs)
  then show ?case by (fastforce simp: val_list_Cons reads_def)
qed simp

lemma reads_slice: "reads v r \<Longrightarrow> reads (val_slice t v) (nil_slice t r)"
  using reads_list [of v r] by (fastforce simp: reads_def nil_slice_def val_slice_def split: option.splits)

lemma reads_ptr: "reads v r \<Longrightarrow> reads (val_ptr t v) (val_ptr t r)"
  by (fastforce simp: reads_def val_ptr_def split: option.splits list.splits)

lemma reads_plain: "reads v v"
  by (simp add: reads_def)

lemma reads_map: "reads (val_map t v) (nil_map t v)"
  by (simp add: reads_def nil_map_def)

lemma readsD: "reads v r \<Longrightarrow> v h x = Some w \<Longrightarrow> \<exists>n. r h x = Some n"
  by (auto simp: reads_def)

lemma reads_pair: "reads v1 r1 \<Longrightarrow> reads v2 r2 \<Longrightarrow> reads (val_pair v1 v2) (val_pair r1 r2)"
  by (fastforce simp: reads_def val_pair_def split: option.splits)

lemma reads_fields:
  assumes "reads v r" "\<And>h x w. val h x = Some w \<Longrightarrow> \<exists>u. v h (get x) = Some u"
  shows "reads val (\<lambda>h x. r h (get x))"
  using assms by (fastforce simp: reads_def)

lemma reads_admission: "reads val_AdmissionControlConfig admission_nils"
  unfolding admission_nils_def [abs_def]
  by (rule reads_fields [OF reads_pair [OF reads_slice [OF reads_plain] reads_slice [OF reads_plain]]])
    (auto simp: val_AdmissionControlConfig_def struct_rules)

lemma reads_trigger: "reads val_TriggerConfig trigger_nils"
  unfolding trigger_nils_def [abs_def]
  by (rule reads_fields [OF reads_pair [OF reads_plain reads_slice [OF reads_plain]]])
    (auto simp: val_TriggerConfig_def struct_rules)

lemma reads_schedule: "reads val_ScheduleConfig schedule_nils"
  unfolding schedule_nils_def [abs_def]
  by (rule reads_fields [OF reads_slice [OF reads_plain]]) (auto simp: val_ScheduleConfig_def struct_rules)

lemma reads_spec: "reads val_AdaptivePolicySpec spec_nils"
  unfolding spec_nils_def [abs_def]
  by (rule reads_fields [OF reads_pair [OF reads_map reads_pair [OF reads_plain reads_pair [OF reads_ptr [OF reads_admission]
      reads_pair [OF reads_plain reads_pair [OF reads_map reads_pair [OF reads_slice [OF reads_trigger]
      reads_pair [OF reads_slice [OF reads_schedule] reads_pair [OF reads_plain reads_plain]]]]]]]]])
    (auto simp: val_AdaptivePolicySpec_def struct_rules)

lemma reads_status: "reads val_AdaptivePolicyStatus status_nils"
  unfolding status_nils_def [abs_def]
  by (rule reads_fields [OF reads_pair [OF reads_slice [OF reads_plain] reads_pair [OF reads_plain
      reads_pair [OF reads_slice [OF reads_plain] reads_pair [OF reads_slice [OF reads_plain] reads_pair [OF reads_plain
      reads_pair [OF reads_slice [OF reads_plain] reads_pair [OF reads_plain reads_plain]]]]]]]])
    (auto simp: val_AdaptivePolicyStatus_def struct_rules)

lemma reads_policy: "reads val_AdaptivePolicy policy_nils"
  unfolding policy_nils_def [abs_def]
  by (rule reads_fields [OF reads_pair [OF reads_plain reads_pair [OF reads_spec reads_status]]])
    (auto simp: val_AdaptivePolicy_def struct_rules)

end
