(* ===== verification/Deep_Copy_Props.thy ===== *)
theory Deep_Copy_Props
  imports Deep_Copy_Nils Sample_Policy
begin

section \<open>What deep copies guarantee\<close>

text \<open>
  The contract read off for policies and lists of policies, and a library that keeps it.
\<close>

subsection \<open>The generated copies as interpretations\<close>

interpretation profile_copy: deep_copier ProfileConfig_DeepCopyInto val_ProfileConfig
  by (rule deep_copier_ProfileConfig)

interpretation trigger_copy: deep_copier TriggerConfig_DeepCopyInto val_TriggerConfig
  by (rule deep_copier_TriggerConfig)

interpretation spec_copy: deep_copier AdaptivePolicySpec_DeepCopyInto val_AdaptivePolicySpec
  by (rule deep_copier_AdaptivePolicySpec)

text \<open>The Kubernetes structs copied as their documentation says.\<close>

definition ObjectMeta_copy :: "ObjectMeta_mem copier" where
  "ObjectMeta_copy h x =
     (let (an, h') = copy_map tStringMap assign h (om_Annotations x) in (x\<lparr>om_Annotations := an\<rparr>, h'))"

definition sample_machinery :: apimachinery where
  "sample_machinery = \<lparr>x_ObjectMeta = ObjectMeta_copy, x_ListMeta = assign, x_Condition = assign, x_Time = assign,
     x_Time_ptr = copy_ptr tTime assign\<rparr>"

lemma deep_copier_ObjectMeta: "deep_copier ObjectMeta_copy val_ObjectMeta"
proof -
  note f1 = deep_copier_map [OF deep_copier_assign, of tStringMap]
  show ?thesis
    by (rule deep_copier_struct [OF f1, where get = "\<lambda>x. om_Annotations x" and put = "\<lambda>a x. x\<lparr>om_Annotations := a\<rparr>"])
      (auto simp: ObjectMeta_copy_def val_ObjectMeta_def struct_rules split: prod.splits)
qed

lemma sample_machinery_ok: "copies_ok sample_machinery"
  by (simp add: copies_ok_def sample_machinery_def deep_copier_ObjectMeta deep_copier_assign
      deep_copier_ptr [OF deep_copier_assign])

interpretation policy_copy: deep_copier "AdaptivePolicy_DeepCopyInto sample_machinery" val_AdaptivePolicy
  by (rule deep_copier_AdaptivePolicy [OF sample_machinery_ok])

lemma deep_copier_policy_ptr:
  "copies_ok ext \<Longrightarrow> deep_copier (AdaptivePolicy_DeepCopy ext) (val_ptr tAdaptivePolicy val_AdaptivePolicy)"
  by (simp add: AdaptivePolicy_DeepCopy_def deep_copier_ptr deep_copier_AdaptivePolicy)

lemma deep_copier_list_ptr:
  "copies_ok ext \<Longrightarrow> deep_copier (AdaptivePolicyList_DeepCopy ext) (val_ptr tAdaptivePolicyList val_AdaptivePolicyList)"
  by (simp add: AdaptivePolicyList_DeepCopy_def deep_copier_ptr deep_copier_AdaptivePolicyList)

subsection \<open>A policy in memory\<close>

definition sample_heap :: heap where
  \<comment> \<open>the two triggers' source profiles are slices of one array\<close>
  "sample_heap =
    [StringMap [(''app'', ''checkout'')],
     ProfileMap [(''open'', \<lparr>pfm_AdmissionControl = None, pfm_AdaptiveConcurrency = None\<rparr>),
       (''strict'', \<lparr>pfm_AdmissionControl = None, pfm_AdaptiveConcurrency = None\<rparr>)],
     RateConditions [\<lparr>rc_Below = ''0.95'', rc_Above = [], rc_ConsecutiveSamples = 2\<rparr>],
     RateConditions [\<lparr>rc_Below = [], rc_Above = ''0.99'', rc_ConsecutiveSamples = 1\<rparr>],
     Strings [''open'', ''strict''],
     TriggerConfigs
      [\<lparr>trm_Name = ''degrade'', trm_When = \<lparr>cdm_SuccessRate = Some 2, cdm_ServiceLatencyMs = None, cdm_RPSAbove = None\<rparr>,
        trm_SwitchTo = ''strict'', trm_FromProfiles = Some \<lparr>s_base = 4, s_off = 0, s_len = 1\<rparr>, trm_CooldownSeconds = 60\<rparr>,
       \<lparr>trm_Name = ''recover'', trm_When = \<lparr>cdm_SuccessRate = Some 3, cdm_ServiceLatencyMs = None, cdm_RPSAbove = None\<rparr>,
        trm_SwitchTo = ''open'', trm_FromProfiles = Some \<lparr>s_base = 4, s_off = 1, s_len = 1\<rparr>, trm_CooldownSeconds = 60\<rparr>],
     ConditionsArr [\<lparr>c_Type = ''Ready'', c_Status = ''True'', c_ObservedGeneration = 1, c_LastTransitionTime = 5,
       c_Reason = ''Reconciled'', c_Message = []\<rparr>]]"

definition sample_mem :: AdaptivePolicy_mem where
  "sample_mem = \<lparr>pm_TypeMeta = \<lparr>tm_Kind = ''AdaptivePolicy'', tm_APIVersion = ''resilience.shedpilot.io/v1alpha1''\<rparr>,
     pm_ObjectMeta = \<lparr>om_Name = ''checkout'', om_Namespace = ''shop'', om_UID = ''u1'', om_Generation = 1, om_Annotations = None\<rparr>,
     pm_Spec = \<lparr>spm_Selector = Some 0, spm_MeshBackend = [], spm_MeshMode = [], spm_DryRun = False,
       spm_AdaptiveConcurrency = None, spm_AdmissionControl = None, spm_StreamingProtection = None,
       spm_Profiles = Some 1, spm_ActiveProfile = ''open'', spm_Triggers = Some \<lparr>s_base = 5, s_off = 0, s_len = 2\<rparr>,
       spm_Schedules = None, spm_SignalConfig = None, spm_Detection = None\<rparr>,
     pm_Status = \<lparr>stm_Conditions = Some \<lparr>s_base = 6, s_off = 0, s_len = 1\<rparr>, stm_ObservedGeneration = 1,
       stm_DetectedBackend = [], stm_ActiveProfile = [], stm_ProfileActiveSince = None, stm_ActiveFilters = None,
       stm_ManagedResources = None, stm_ShedRateNow = [], stm_WouldHaveShedRate = [], stm_LastDecision = None,
       stm_DecisionHistory = None, stm_NextTriggerEvaluation = None, stm_ConsecutiveBadSamples = 0,
       stm_ScalabilityWarning = False, stm_ScalabilityWarningDetail = [], stm_LastReconcileTime = None,
       stm_RTDSConnected = False\<rparr>\<rparr>"

definition sample_value :: AdaptivePolicy where
  "sample_value = (sample_policy ''open'')\<lparr>Status := sample_status\<lparr>ObservedGeneration := 1, Conditions :=
     [\<lparr>c_Type = ''Ready'', c_Status = ''True'', c_ObservedGeneration = 1, c_LastTransitionTime = 5,
       c_Reason = ''Reconciled'', c_Message = []\<rparr>]\<rparr>\<rparr>"

lemma sample_mem_denotes: "val_AdaptivePolicy sample_heap sample_mem = Some (pm_TypeMeta sample_mem, sample_value)"
  by code_simp

subsection \<open>Isolation\<close>

definition policy_ptr :: "heap \<Rightarrow> ptr \<Rightarrow> (TypeMeta \<times> AdaptivePolicy) option option" where
  \<comment> \<open>the policy behind a \<open>*AdaptivePolicy\<close>\<close>
  "policy_ptr = val_ptr tAdaptivePolicy val_AdaptivePolicy"

definition policy_ptr_nils where
  \<comment> \<open>the same, with nil told from empty\<close>
  "policy_ptr_nils = val_ptr tAdaptivePolicy policy_nils"

lemma deep_copier_policy_ptr_nils:
  "copies_ok ext \<Longrightarrow> deep_copier (AdaptivePolicy_DeepCopy ext) policy_ptr_nils"
  by (simp add: AdaptivePolicy_DeepCopy_def policy_ptr_nils_def deep_copier_ptr deep_copier_policy_nils)

lemma sample_policy_ptr:
  "policy_ptr (sample_heap @ [PoliciesArr [sample_mem]]) (Some 7) = Some (Some (pm_TypeMeta sample_mem, sample_value))"
proof -
  let ?h = "sample_heap @ [PoliciesArr [sample_mem]]"
  have "load tAdaptivePolicy ?h 7 = Some [sample_mem]" by (simp add: load_def sample_heap_def gotype_defs)
  moreover have "val_AdaptivePolicy ?h sample_mem = Some (pm_TypeMeta sample_mem, sample_value)"
    by (rule policy_copy.denotes_extend [OF sample_mem_denotes]) simp
  ultimately show ?thesis by (simp add: policy_ptr_def val_ptr_def)
qed

text \<open>C14. \<open>AdaptivePolicy.DeepCopy\<close> of a pointer only allocates; the copy denotes the same policy, whatever is written
  afterwards to the cells that existed before, and the original is the same, whatever is written to the
  cells of the copy; a nil pointer gives nil, and in the copy a slice or map of the specification or the status is
  nil exactly where it is in the original, empty ones staying empty.\<close>

theorem AdaptivePolicy_DeepCopy_isolates:
  assumes "copies_ok ext" "policy_ptr h p = Some w" "AdaptivePolicy_DeepCopy ext h p = (q, h')"
  shows "take (length h) h' = h \<and> (q = None \<longleftrightarrow> p = None) \<and>
    (\<forall>ws. (\<forall>(a, c) \<in> set ws. a < length h) \<longrightarrow> policy_ptr (writes ws h') q = Some w) \<and>
    (\<forall>ws. (\<forall>(a, c) \<in> set ws. length h \<le> a) \<longrightarrow> policy_ptr (writes ws h') p = Some w) \<and>
    (\<exists>n. policy_ptr_nils h p = Some n \<and>
      (\<forall>ws. (\<forall>(a, c) \<in> set ws. a < length h) \<longrightarrow> policy_ptr_nils (writes ws h') q = Some n))"
proof -
  note D = deep_copier_policy_ptr [OF assms(1)]
  obtain n where n: "policy_ptr_nils h p = Some n"
    using readsD [OF reads_ptr [OF reads_policy]] assms(2) unfolding policy_ptr_def policy_ptr_nils_def by blast
  note N = deep_copier.copy_survives_writes [OF deep_copier_policy_ptr_nils [OF assms(1)] n assms(3)]
  note w = assms(2) [unfolded policy_ptr_def]
  show ?thesis
    using deep_copier.copy_keeps_heap [OF D w assms(3)] deep_copier.copy_survives_writes [OF D w assms(3)]
      deep_copier.original_survives_writes [OF D w assms(3)] copy_ptr_nil [OF assms(3) [unfolded AdaptivePolicy_DeepCopy_def]] n N
    by (simp add: policy_ptr_def)
qed

theorem AdaptivePolicy_DeepCopy_isolates_witness:
  "let h = sample_heap @ [PoliciesArr [sample_mem]]; (q, h') = AdaptivePolicy_DeepCopy sample_machinery h (Some 7)
   in policy_ptr (writes [(1, ProfileMap []), (6, ConditionsArr [])] h') q =
     Some (Some (pm_TypeMeta sample_mem, sample_value))"
proof -
  let ?h = "sample_heap @ [PoliciesArr [sample_mem]]"
  obtain q h' where c: "AdaptivePolicy_DeepCopy sample_machinery ?h (Some 7) = (q, h')" by fastforce
  have "\<forall>(a, c) \<in> set [(1, ProfileMap []), (6, ConditionsArr [])]. a < length ?h" by (simp add: sample_heap_def)
  then show ?thesis
    using AdaptivePolicy_DeepCopy_isolates [OF sample_machinery_ok sample_policy_ptr c] by (simp add: c)
qed

text \<open>Likewise for a list of policies, through the interface \<open>runtime.Object\<close>.\<close>

theorem AdaptivePolicyList_DeepCopyObject_isolates:
  assumes "copies_ok ext" "val_ptr tAdaptivePolicyList val_AdaptivePolicyList h (Some a) = Some w"
    and "AdaptivePolicyList_DeepCopyObject ext h (Some a) = (ob, h')"
  shows "\<exists>b. ob = PolicyListObject b \<and> length h \<le> b \<and>
    (\<forall>ws. (\<forall>(a, c) \<in> set ws. a < length h) \<longrightarrow>
       val_ptr tAdaptivePolicyList val_AdaptivePolicyList (writes ws h') (Some b) = Some w)"
proof -
  note D = deep_copier_list_ptr [OF assms(1)]
  obtain q h1 where c: "AdaptivePolicyList_DeepCopy ext h (Some a) = (q, h1)" by fastforce
  obtain b where q: "q = Some b"
    using copy_ptr_nil [OF c [unfolded AdaptivePolicyList_DeepCopy_def]] by auto
  with assms(3) c have o: "ob = PolicyListObject b" "h1 = h'" by (auto simp: AdaptivePolicyList_DeepCopyObject_def)
  have "length h \<le> b"
    using copy_ptr_fresh [OF deep_copier_AdaptivePolicyList [OF assms(1)] assms(2) c [unfolded AdaptivePolicyList_DeepCopy_def]] q by simp
  then show ?thesis
    using o deep_copier.copy_survives_writes [OF D assms(2) c] q by auto
qed

end
