(* ===== verification/Controller_Core.thy ===== *)
theory Controller_Core
  imports Signal_Poller Render_Cilium Rtds_Server
begin

section \<open>The reconciler's state and helpers (internal/controller)\<close>

text \<open>
  The state of \<open>AdaptivePolicyReconciler\<close>, the calls it makes to the Kubernetes API, and the functions
  \<open>Reconcile\<close> is composed of: conditions, validation, poller bookkeeping, the profile switch, apply and
  prune. A poller goroutine is its \<open>Poller\<close> with the two facts about its context; goroutines are
  numbered in the order they start, and the maps hold these numbers. The answers of the API server
  are functions of the calls made so far in the reconcile, so that nothing is assumed of them.
\<close>

subsection \<open>State\<close>

record goroutine =
  g_poller :: Poller
  g_cancelled :: bool
  g_returned :: bool

record Reconciler =
  rec_scraper :: Scraper
  rtdsClient :: "Client option"
  triggerState :: "(string, State) gomap"
  pollers :: "(string, nat) gomap"
  pollerCancels :: "(string, nat) gomap"
  pollerGenerations :: "(string, int) gomap"
  pollerScraper :: Scraper
  goroutines :: "goroutine list"
  rtds_server :: Server  \<comment> \<open>the server behind \<open>rtdsClient\<close>\<close>

definition NewAdaptivePolicyReconciler :: "Client option \<Rightarrow> Reconciler" where
  "NewAdaptivePolicyReconciler c = \<lparr>rec_scraper = [], rtdsClient = c, triggerState = [], pollers = [],
     pollerCancels = [], pollerGenerations = [], pollerScraper = [], goroutines = [], rtds_server = NewServer\<rparr>"

subsection \<open>The API server and the other surroundings\<close>

datatype api_call =
    GetPolicy
  | SwitchPatch string  \<comment> \<open>the merge patch\<close>
  | ApplyObject Object
  | DeleteObject ManagedResource
  | StatusPatch AdaptivePolicyStatus AdaptivePolicyStatus  \<comment> \<open>the base and the new status\<close>

text \<open>The list calls of mesh detection and of pod discovery go through the same client. They only read, so they
  are kept apart, in \<open>list_call\<close>; their answers are those of \<open>cluster\<close> and \<open>scrape\<close>.\<close>

datatype list_call =
    ListPods string "(string, string) gomap"        \<comment> \<open>namespace and labels\<close>
  | ListDaemonSets string "(string, string) gomap"

datatype get_result = Got AdaptivePolicy | NotFound | GetFailed string

text \<open>Each answer may depend on the calls made before it. A successful patch of the policy stores the
  server's response in it.\<close>

record kube_env =
  k_get :: "api_call list \<Rightarrow> get_result"
  k_switch :: "api_call list \<Rightarrow> AdaptivePolicy \<Rightarrow> string \<Rightarrow> string + AdaptivePolicy"
  k_apply :: "api_call list \<Rightarrow> Object \<Rightarrow> string option"
  k_status :: "api_call list \<Rightarrow> AdaptivePolicy \<Rightarrow> string + AdaptivePolicy"

record rec_env =
  kube :: kube_env
  scrape :: scrape_env                \<comment> \<open>what the direct scrape meets\<close>
  late_ticks :: "scrape_env list"     \<comment> \<open>the poller's ticks before its channel is read\<close>
  cluster :: cluster_view
  rtds :: rtds_env
  eval_clock :: "nat \<Rightarrow> gotime"
  signal_now :: gotime                \<comment> \<open>\<open>time.Now\<close> of the fallback signals\<close>
  status_now :: gotime                \<comment> \<open>\<open>metav1.Now\<close> of the status update\<close>
  cond_now :: "nat \<Rightarrow> gotime"         \<comment> \<open>\<open>metav1.Now\<close> of the n-th \<open>setCondition\<close>\<close>
  selector_order :: "(string \<times> string) list \<Rightarrow> (string \<times> string) list"
  layers_order :: "(string \<times> jobject) list \<Rightarrow> (string \<times> jobject) list"
  names_order :: "(string \<times> ProfileConfig) list \<Rightarrow> (string \<times> ProfileConfig) list"
  isprint :: "int \<Rightarrow> bool"

subsection \<open>Conditions\<close>

fun upsert_condition :: "Condition \<Rightarrow> Condition list \<Rightarrow> Condition list" where
  "upsert_condition c [] = [c]"
| "upsert_condition c (d # ds) =
     (if c_Type d = c_Type c then
        (if c_Status d \<noteq> c_Status c then c # ds
         else d\<lparr>c_Message := c_Message c, c_Reason := c_Reason c,
                c_ObservedGeneration := c_ObservedGeneration c\<rparr> # ds)
      else d # upsert_condition c ds)"

definition setCondition :: "gotime \<Rightarrow> Condition \<Rightarrow> Condition list \<Rightarrow> Condition list" where
  "setCondition now c conditions = upsert_condition (c\<lparr>c_LastTransitionTime := now\<rparr>) conditions"

definition condition_of :: "string \<Rightarrow> bool \<Rightarrow> string \<Rightarrow> string \<Rightarrow> int \<Rightarrow> Condition" where
  "condition_of ty status reason message gen =
     \<lparr>c_Type = ty, c_Status = (if status then ''True'' else ''False''), c_ObservedGeneration = gen,
      c_LastTransitionTime = 0, c_Reason = reason, c_Message = message\<rparr>"

definition update_status :: "(AdaptivePolicyStatus \<Rightarrow> AdaptivePolicyStatus) \<Rightarrow> AdaptivePolicy \<Rightarrow> AdaptivePolicy" where
  "update_status f policy = policy\<lparr>Status := f (Status policy)\<rparr>"

definition markDegraded :: "rec_env \<Rightarrow> AdaptivePolicy \<Rightarrow> string \<Rightarrow> string \<Rightarrow> api_call list \<Rightarrow>
    string option \<times> AdaptivePolicy \<times> api_call list" where
  "markDegraded env policy reason message calls =
     (let degraded = condition_of ConditionDegraded True reason message (Generation policy);
          ready = condition_of ConditionReady False reason message (Generation policy);
          policy' = update_status (\<lambda>st. st\<lparr>Conditions := setCondition (cond_now env 1) ready
            (setCondition (cond_now env 0) degraded (Conditions st))\<rparr>) policy;
          calls' = calls @ [StatusPatch (Status policy) (Status policy')]
      in case k_status (kube env) calls policy' of
           Inl e \<Rightarrow> (Some e, policy', calls') | Inr p \<Rightarrow> (None, p, calls'))"

subsection \<open>Validation\<close>

definition profileNames :: "((string \<times> ProfileConfig) list \<Rightarrow> (string \<times> ProfileConfig) list) \<Rightarrow>
    (string, ProfileConfig) gomap \<Rightarrow> string" where
  "profileNames ord profiles =
     (if length profiles = 0 then [] else str_join '', '' (sort (map fst (ord profiles))))"

fun invalid_trigger :: "(string, ProfileConfig) gomap \<Rightarrow> TriggerConfig list \<Rightarrow> TriggerConfig option" where
  "invalid_trigger profiles [] = None"
| "invalid_trigger profiles (t # ts) =
     (if map_of profiles (tr_SwitchTo t) = None then Some t else invalid_trigger profiles ts)"

fun invalid_schedule :: "(string, ProfileConfig) gomap \<Rightarrow> ScheduleConfig list \<Rightarrow> ScheduleConfig option" where
  "invalid_schedule profiles [] = None"
| "invalid_schedule profiles (s # ss) =
     (if map_of profiles (sch_SwitchTo s) = None then Some s else invalid_schedule profiles ss)"

definition switch_to_message :: "rec_env \<Rightarrow> string \<Rightarrow> string \<Rightarrow> string \<Rightarrow> (string, ProfileConfig) gomap \<Rightarrow> string" where
  "switch_to_message env kind name target profiles =
     kind @ '' '' @ fmt_q (isprint env) name @ '' switchTo '' @ fmt_q (isprint env) target @
     '' not found in spec.profiles '' @ em_dash @ '' define the profile or correct the name. Defined profiles: '' @
     profileNames (names_order env) profiles"

definition profile_message :: "rec_env \<Rightarrow> string \<Rightarrow> (string, ProfileConfig) gomap \<Rightarrow> string" where
  "profile_message env active profiles =
     (let names = profileNames (names_order env) profiles in
      ''activeProfile '' @ fmt_q (isprint env) active @ '' not found in spec.profiles'' @
      (if names \<noteq> [] then '' '' @ em_dash @ '' defined profiles: '' @ names
       else '' '' @ em_dash @ '' spec.profiles is empty''))"

definition no_filters_message :: string where
  "no_filters_message = ''no filters are configured '' @ em_dash @ '' this policy has no effect. '' @
     ''Set admissionControl.enabled, adaptiveConcurrency.enabled, or streamingProtection.enabled to true.''"

definition violation :: "rec_env \<Rightarrow> AdaptivePolicy \<Rightarrow> (string \<times> string) option" where
  \<comment> \<open>the reason and message of the first check of \<open>validatePolicy\<close> that fails\<close>
  "violation env policy =
     (let sp = Spec policy in
      if \<not> HasAdmissionControl policy \<and> \<not> HasAdaptiveConcurrency policy \<and> \<not> HasStreamingProtection policy
      then Some (''NoActiveFilters'', no_filters_message)
      else if ActiveProfile sp \<noteq> [] \<and> map_of (Profiles sp) (ActiveProfile sp) = None
      then Some (''InvalidActiveProfile'', profile_message env (ActiveProfile sp) (Profiles sp))
      else case invalid_trigger (Profiles sp) (Triggers sp) of
        Some t \<Rightarrow> Some (''InvalidTrigger'',
          switch_to_message env ''trigger'' (tr_Name t) (tr_SwitchTo t) (Profiles sp))
      | None \<Rightarrow> (case invalid_schedule (Profiles sp) (Schedules sp) of
          Some s \<Rightarrow> Some (''InvalidSchedule'',
            switch_to_message env ''schedule'' (sch_Name s) (sch_SwitchTo s) (Profiles sp))
        | None \<Rightarrow> None))"

definition validatePolicy :: "rec_env \<Rightarrow> AdaptivePolicy \<Rightarrow> api_call list \<Rightarrow> bool \<times> api_call list" where
  "validatePolicy env policy calls = (case violation env policy of
     None \<Rightarrow> (True, calls)
   | Some (reason, message) \<Rightarrow>
       (case markDegraded env policy reason message calls of (err, p, calls') \<Rightarrow> (False, calls')))"

subsection \<open>Pollers\<close>

definition pollerConfig :: "DetectionConfig option \<Rightarrow> PollerConfig" where
  "pollerConfig d = (case d of
     None \<Rightarrow> \<lparr>PollInterval = 0, ConsecutiveBreaches = 0, ConsecutiveRecoveries = 0\<rparr>
   | Some c \<Rightarrow>
       \<lparr>PollInterval = (if 0 < sint (det_PollIntervalMs c) then sint (det_PollIntervalMs c) * millisecond
                        else DefaultPollInterval),
        ConsecutiveBreaches = (if 0 < sint (det_ConsecutiveBreaches c) then sint (det_ConsecutiveBreaches c)
                        else DefaultConsecutiveBreaches),
        ConsecutiveRecoveries = (if 0 < sint (det_ConsecutiveRecoveries c) then sint (det_ConsecutiveRecoveries c)
                        else DefaultConsecutiveRecoveries)\<rparr>)"

definition cancel_poller :: "string \<Rightarrow> Reconciler \<Rightarrow> Reconciler" where
  \<comment> \<open>\<open>if cancel, ok := r.pollerCancels[key]; ok { cancel() }\<close>\<close>
  "cancel_poller key r = (case map_of (pollerCancels r) key of
     None \<Rightarrow> r
   | Some i \<Rightarrow> r\<lparr>goroutines := (goroutines r)[i := (goroutines r ! i)\<lparr>g_cancelled := True\<rparr>]\<rparr>)"

definition start_poller :: "string \<Rightarrow> AdaptivePolicy \<Rightarrow> Reconciler \<Rightarrow> nat \<times> Reconciler" where
  "start_poller key policy r =
     (let i = length (goroutines r);
          p = NewPoller policy (pollerConfig (Detection (Spec policy)))
      in (i, r\<lparr>pollers := AList.update key i (pollers r),
               pollerCancels := AList.update key i (pollerCancels r),
               pollerGenerations := AList.update key (Generation policy) (pollerGenerations r),
               goroutines := goroutines r @ [\<lparr>g_poller = p, g_cancelled = False, g_returned = False\<rparr>]\<rparr>))"

definition ensurePoller :: "string \<Rightarrow> AdaptivePolicy \<Rightarrow> Reconciler \<Rightarrow> nat \<times> Reconciler" where
  "ensurePoller key policy r = (case map_of (pollers r) key of
     Some i \<Rightarrow> if map_of (pollerGenerations r) key = Some (Generation policy) then (i, r)
               else start_poller key policy (cancel_poller key r)
   | None \<Rightarrow> start_poller key policy r)"

definition policy_deleted :: "string \<Rightarrow> Reconciler \<Rightarrow> Reconciler" where
  \<comment> \<open>the cleanup when the policy is not found\<close>
  "policy_deleted key r =
     (let r1 = r\<lparr>triggerState := AList.delete key (triggerState r)\<rparr> in
      if map_of (pollerCancels r1) key \<noteq> None
      then (cancel_poller key r1)\<lparr>pollerCancels := AList.delete key (pollerCancels r1),
                                  pollers := AList.delete key (pollers r1)\<rparr>
      else r1)"

definition ensure_state :: "string \<Rightarrow> Reconciler \<Rightarrow> State \<times> Reconciler" where
  "ensure_state key r = (case map_of (triggerState r) key of
     Some st \<Rightarrow> (st, r)
   | None \<Rightarrow> (NewState, r\<lparr>triggerState := AList.update key NewState (triggerState r)\<rparr>))"

subsection \<open>Signals\<close>

definition fallback_signals :: "gotime \<Rightarrow> Signals" where
  "fallback_signals now = \<lparr>SuccessRate = flit 99 100, ServiceLatencyMs = fzero, TotalLatencyMs = fzero,
     RPS = fzero, SampleCount = 0, CollectedAt = now, ShedRejectedRPS = fzero\<rparr>"

definition set_poller :: "nat \<Rightarrow> Poller \<Rightarrow> Reconciler \<Rightarrow> Reconciler" where
  "set_poller i p r = r\<lparr>goroutines := (goroutines r)[i := (goroutines r ! i)\<lparr>g_poller := p\<rparr>]\<rparr>"

definition run_ticks :: "scrape_env list \<Rightarrow> nat \<Rightarrow> Reconciler \<Rightarrow> Reconciler" where
  \<comment> \<open>what the poller's goroutine does meanwhile\<close>
  "run_ticks envs i r =
     (let (p, sc) = fold tick envs (g_poller (goroutines r ! i), pollerScraper r)
      in (set_poller i p r)\<lparr>pollerScraper := sc\<rparr>)"

definition read_signals :: "rec_env \<Rightarrow> AdaptivePolicy \<Rightarrow> nat \<Rightarrow> Reconciler \<Rightarrow> Signals \<times> bool \<times> Reconciler" where
  \<comment> \<open>the signals, whether they are real, and the new state\<close>
  "read_signals env policy i r =
     (let p = g_poller (goroutines r ! i) in
      case out p of
        Some sg \<Rightarrow> (sg, True, set_poller i (p\<lparr>out := None\<rparr>) r)
      | None \<Rightarrow> (case ReadSignals (scrape env) policy (rec_scraper r) of
          (sg, None, sc) \<Rightarrow> (sg, True, r\<lparr>rec_scraper := sc\<rparr>)
        | (sg, Some e, sc) \<Rightarrow> (fallback_signals (signal_now env), False, r\<lparr>rec_scraper := sc\<rparr>)))"

fun detect_lists :: "(Renderer \<times> list_call) list \<Rightarrow> cluster_view \<Rightarrow> list_call list" where
  \<comment> \<open>the calls of \<open>detect\<close>: each \<open>Detect\<close> makes one, until one finds its mesh\<close>
  "detect_lists [] c = []"
| "detect_lists ((r, l) # rs) c = l # (if r_Detect r c = Inr True then [] else detect_lists rs c)"

definition detection_lists :: "cluster_view \<Rightarrow> AdaptivePolicy \<Rightarrow> list_call list" where
  "detection_lists c policy =
     (if EffectiveMeshBackend policy = MeshBackendIstio \<or> EffectiveMeshBackend policy = MeshBackendCilium then []
      else detect_lists [(IstioRenderer, ListPods ''istio-system'' [(''app'', ''istiod'')]),
        (CiliumRenderer, ListDaemonSets ''kube-system'' [(''k8s-app'', ''cilium-envoy'')])] c)"

definition signal_lists :: "AdaptivePolicy \<Rightarrow> nat \<Rightarrow> Reconciler \<Rightarrow> list_call list" where
  \<comment> \<open>the pods are listed when the poller has nothing to read\<close>
  "signal_lists policy i r = (case out (g_poller (goroutines r ! i)) of
     Some sg \<Rightarrow> []
   | None \<Rightarrow> [ListPods (Namespace policy) (Selector (Spec policy))])"

subsection \<open>The profile switch\<close>

definition quoted :: "string \<Rightarrow> string" where
  "quoted s = CHR 0x22 # s @ [CHR 0x22]"

definition switch_patch :: "(int \<Rightarrow> bool) \<Rightarrow> string \<Rightarrow> string \<Rightarrow> string" where
  "switch_patch ip target prior =
     ''{'' @ quoted ''spec'' @ '':{'' @ quoted ''activeProfile'' @ '':'' @ fmt_q ip target @ ''},'' @
     quoted ''metadata'' @ '':{'' @ quoted ''annotations'' @ '':{'' @ fmt_q ip AnnotationPreviousProfile @
     '':'' @ fmt_q ip prior @ ''}}}''"

record switch_result =
  sw_decision :: Decision
  sw_switched :: bool
  sw_error :: "string option"
  sw_policy :: AdaptivePolicy
  sw_state :: State
  sw_log :: "api_call list"

definition evaluateAndSwitch :: "rec_env \<Rightarrow> AdaptivePolicy \<Rightarrow> Signals \<Rightarrow> State \<Rightarrow> api_call list \<Rightarrow> switch_result" where
  "evaluateAndSwitch env policy sg st calls =
     (let unchanged = (\<lambda>d st'. \<lparr>sw_decision = d, sw_switched = False, sw_error = None, sw_policy = policy,
            sw_state = st', sw_log = calls\<rparr>) in
      if IsHumanOverrideEnabled policy
      then unchanged (reason_decision (''human-override active '' @ em_dash @ '' automatic switching frozen'')) st
      else if \<not> HasTriggers policy then unchanged (reason_decision ''no triggers configured'') st
      else let (decision, st') = Evaluate policy sg (eval_clock env) st in
        if \<not> ShouldSwitch decision then unchanged decision st'
        else let patch = switch_patch (isprint env) (TargetProfile decision) (ActiveProfile (Spec policy));
                 calls' = calls @ [SwitchPatch patch]
             in case k_switch (kube env) calls policy patch of
                  Inl e \<Rightarrow> \<lparr>sw_decision = decision, sw_switched = False,
                    sw_error = Some (''patching activeProfile: '' @ e), sw_policy = policy,
                    sw_state = st', sw_log = calls'\<rparr>
                | Inr p \<Rightarrow> \<lparr>sw_decision = decision, sw_switched = True, sw_error = None, sw_policy = p,
                    sw_state = st', sw_log = calls'\<rparr>)"

subsection \<open>Apply, prune, push\<close>

fun apply_all :: "rec_env \<Rightarrow> Object list \<Rightarrow> api_call list \<Rightarrow> string option \<times> api_call list" where
  "apply_all env [] calls = (None, calls)"
| "apply_all env (ob # obs) calls = (case k_apply (kube env) calls ob of
     Some e \<Rightarrow> (Some e, calls @ [ApplyObject ob])
   | None \<Rightarrow> apply_all env obs (calls @ [ApplyObject ob]))"

definition ref_key :: "ManagedResource \<Rightarrow> string" where
  "ref_key mr = mr_Kind mr @ ''/'' @ mr_Name mr"

fun prune_loop :: "ManagedResource list \<Rightarrow> ManagedResource list \<Rightarrow> api_call list \<Rightarrow> api_call list" where
  \<comment> \<open>whatever \<open>Delete\<close> answers is only logged\<close>
  "prune_loop kept [] calls = calls"
| "prune_loop kept (prev # prevs) calls =
     (if ref_key prev \<in> ref_key ` set kept then prune_loop kept prevs calls
      else prune_loop kept prevs (calls @ [DeleteObject prev]))"

definition pruneOrphanedResources :: "AdaptivePolicy \<Rightarrow> ManagedResource list \<Rightarrow> api_call list \<Rightarrow> api_call list" where
  "pruneOrphanedResources policy kept calls = prune_loop kept (ManagedResources (Status policy)) calls"

fun push_loop :: "rec_env \<Rightarrow> Client \<Rightarrow> (string \<times> jobject) list \<Rightarrow> bool \<Rightarrow> Server \<Rightarrow>
    bool \<times> (nat \<times> DiscoveryResponse) list \<times> Server" where
  "push_loop env c [] ok s = (ok, [], s)"
| "push_loop env c ((layerName, vals) # ls) ok s =
     (let (err, sent, s') = Push (rtds env) c layerName vals s;
          (ok', sent', s'') = push_loop env c ls (if err = None then ok else False) s'
      in (ok', sent @ sent', s''))"

subsection \<open>Small helpers\<close>

definition scrapeInterval :: "AdaptivePolicy \<Rightarrow> duration" where
  "scrapeInterval policy = (case SignalConfigField (Spec policy) of
     Some c \<Rightarrow> if 0 < sint (sig_EvaluationIntervalSeconds c)
               then sint (sig_EvaluationIntervalSeconds c) * second else 30 * second
   | None \<Rightarrow> 30 * second)"

definition mustParsePercent :: "string \<Rightarrow> float64" where
  "mustParsePercent s = (case sscanf_f s of Some f \<Rightarrow> f | None \<Rightarrow> fzero)"

definition deliveryMethodStr :: "bool \<Rightarrow> bool \<Rightarrow> string" where
  "deliveryMethodStr rtdsConnected profileSwitched =
     (if profileSwitched \<and> rtdsConnected then ''rtds (<200ms)'' else ''envoyfilter'')"

definition actualShedRate :: "Signals \<Rightarrow> AdaptivePolicy \<Rightarrow> string" where
  "actualShedRate sg policy =
     (if \<not> HasAdmissionControl policy \<or> IsDryRun policy then ''0%''
      else if fle (ShedRejectedRPS sg) fzero \<or> fle (RPS sg) fzero then ''0%''
      else let rate = fmul (fdiv (ShedRejectedRPS sg) (RPS sg)) (fof_int 100);
               capped = (if flt (fof_int 100) rate then fof_int 100 else rate)
           in ''~'' @ fmt_f 0 capped @ ''%'')"

end
