(* ===== verification/Status_Memory.thy ===== *)
theory Status_Memory
  imports Deep_Copy_Props Controller_Core
begin

section \<open>The status update in memory (internal/controller)\<close>

text \<open>
  \<open>markDegraded\<close> takes a deep copy of the policy as the base of its patch and then lets \<open>setCondition\<close>
  overwrite the conditions of the policy in place. Here both run on a heap, and are shown to
  refine \<open>setCondition\<close> and \<open>markDegraded\<close> of \<open>Controller_Core\<close>, where a policy is a value.
\<close>

subsection \<open>In-place operations\<close>

definition put :: "'a gotype \<Rightarrow> addr \<Rightarrow> 'a list \<Rightarrow> heap \<Rightarrow> heap" where
  "put t a xs h = h[a := into t xs]"

definition set_index :: "'a gotype \<Rightarrow> slice_header \<Rightarrow> nat \<Rightarrow> 'a \<Rightarrow> heap \<Rightarrow> heap" where
  \<comment> \<open>\<open>s[i] = x\<close>\<close>
  "set_index t s i x h = put t (s_base s) ((the (load t h (s_base s)))[s_off s + i := x]) h"

definition go_append :: "'a gotype \<Rightarrow> 'a list \<Rightarrow> 'a \<Rightarrow> heap \<Rightarrow> slice \<Rightarrow> slice \<times> heap" where
  \<comment> \<open>\<open>append(s, x)\<close>: in the spare capacity of the array, or in a new array whose own spare elements are
    \<open>spare\<close>\<close>
  "go_append t spare x h s = (case s of
     None \<Rightarrow> (let (a, h') = new_cell t (x # spare) h in (Some \<lparr>s_base = a, s_off = 0, s_len = 1\<rparr>, h'))
   | Some sl \<Rightarrow>
       if s_off sl + s_len sl < length (the (load t h (s_base sl)))
       then (Some (sl\<lparr>s_len := s_len sl + 1\<rparr>), set_index t sl (s_len sl) x h)
       else (let (a, h') = new_cell t (elems t h sl @ x # spare) h
             in (Some \<lparr>s_base = a, s_off = 0, s_len = s_len sl + 1\<rparr>, h')))"

definition overwritten :: "Condition \<Rightarrow> Condition \<Rightarrow> Condition" where
  \<comment> \<open>what becomes of the condition \<open>d\<close> of the same type\<close>
  "overwritten c d =
     (if c_Status d \<noteq> c_Status c then c
      else d\<lparr>c_Message := c_Message c, c_Reason := c_Reason c, c_ObservedGeneration := c_ObservedGeneration c\<rparr>)"

fun set_existing :: "Condition \<Rightarrow> slice_header \<Rightarrow> nat list \<Rightarrow> heap \<Rightarrow> heap option" where
  \<comment> \<open>the loop of \<open>setCondition\<close>; \<open>None\<close> if it does not return\<close>
  "set_existing c sl [] h = None"
| "set_existing c sl (i # is) h =
     (let d = elems tCondition h sl ! i in
      if c_Type d = c_Type c then Some (set_index tCondition sl i (overwritten c d) h)
      else set_existing c sl is h)"

definition mem_setCondition :: "gotime \<Rightarrow> Condition list \<Rightarrow> Condition \<Rightarrow> heap \<Rightarrow> slice \<Rightarrow> slice \<times> heap" where
  "mem_setCondition now spare c h s =
     (let c' = c\<lparr>c_LastTransitionTime := now\<rparr>;
          found = (case s of None \<Rightarrow> None | Some sl \<Rightarrow> set_existing c' sl [0..<s_len sl] h)
      in case found of Some h' \<Rightarrow> (s, h') | None \<Rightarrow> go_append tCondition spare c' h s)"

definition set_policy_condition :: "gotime \<Rightarrow> Condition list \<Rightarrow> Condition \<Rightarrow> addr \<Rightarrow> heap \<Rightarrow> heap" where
  \<comment> \<open>\<open>setCondition(&policy.Status.Conditions, c)\<close> for the policy at an address\<close>
  "set_policy_condition now spare c p h =
     (let pol = deref tAdaptivePolicy h p;
          (s, h') = mem_setCondition now spare c h (stm_Conditions (pm_Status pol))
      in put tAdaptivePolicy p [pol\<lparr>pm_Status := (pm_Status pol)\<lparr>stm_Conditions := s\<rparr>\<rparr>] h')"

definition mem_markDegraded :: "apimachinery \<Rightarrow> (nat \<Rightarrow> gotime) \<Rightarrow> Condition list \<Rightarrow> string \<Rightarrow> string \<Rightarrow> addr \<Rightarrow> heap \<Rightarrow> ptr \<times> heap" where
  \<comment> \<open>the base of the merge patch, and the heap when the patch is sent\<close>
  "mem_markDegraded ext now spare reason message p h =
     (let (base, h1) = AdaptivePolicy_DeepCopy ext h (Some p);
          gen = om_Generation (pm_ObjectMeta (deref tAdaptivePolicy h p));
          h2 = set_policy_condition (now 0) spare (condition_of ConditionDegraded True reason message gen) p h1
      in (base, set_policy_condition (now 1) spare (condition_of ConditionReady False reason message gen) p h2))"

subsection \<open>Writing to conditions and policies leaves the rest\<close>

definition status_cell :: "cell \<Rightarrow> bool" where
  "status_cell c = (case c of ConditionsArr _ \<Rightarrow> True | PoliciesArr _ \<Rightarrow> True | _ \<Rightarrow> False)"

definition apart :: "'a gotype \<Rightarrow> bool" where
  "apart t \<longleftrightarrow> (\<forall>c. status_cell c \<longrightarrow> outof t c = None)"

definition status_only :: "heap \<Rightarrow> heap \<Rightarrow> bool" where
  \<comment> \<open>\<open>g\<close> extends \<open>h\<close> and differs from it only in arrays of conditions and of policies\<close>
  "status_only h g \<longleftrightarrow> length h \<le> length g \<and>
     (\<forall>a < length h. g ! a = h ! a \<or> status_cell (h ! a) \<and> status_cell (g ! a))"

definition kept :: "heap \<Rightarrow> heap \<Rightarrow> (heap \<Rightarrow> 'a \<Rightarrow> 'v option) \<Rightarrow> bool" where
  "kept h g v \<longleftrightarrow> (\<forall>x w. v h x = Some w \<longrightarrow> v g x = Some w)"

lemma keptD: "kept h g v \<Longrightarrow> v h x = Some w \<Longrightarrow> v g x = Some w"
  by (simp add: kept_def)

lemma apart_types [simp]:
  "apart tString" "apart tInt32" "apart tTime" "apart tHTTPStatusRange" "apart tAdaptiveConcurrencyConfig"
  "apart tAdmissionControlConfig" "apart tStreamingProtectionConfig" "apart tAdmissionControlOverride"
  "apart tAdaptiveConcurrencyOverride" "apart tRateCondition" "apart tThresholdCondition" "apart tTriggerConfig"
  "apart tScheduleConfig" "apart tSignalConfig" "apart tDetectionConfig" "apart tManagedResource"
  "apart tDecisionRecord" "apart tStringMap" "apart tProfileMap"
  by (auto simp: apart_def status_cell_def gotype_defs split: cell.splits)

lemma status_only_refl [simp]: "status_only h h"
  by (simp add: status_only_def)

lemma status_only_trans: "status_only h g \<Longrightarrow> status_only g k \<Longrightarrow> status_only h k"
  unfolding status_only_def by (metis le_trans order_less_le_trans)

lemma status_only_prefix: "prefix h g \<Longrightarrow> status_only h g"
  by (simp add: status_only_def prefix_same prefix_length_le)

lemma load_apart:
  assumes "apart t" "status_only h g" "load t h a = Some xs"
  shows "load t g a = Some xs"
  using assms unfolding apart_def status_only_def load_def by (metis option.distinct(1) order_less_le_trans)

lemma kept_plain [simp]: "kept h g plain"
  by (simp add: kept_def)

lemma kept_list: "kept h g v \<Longrightarrow> kept h g (val_list v)"
  unfolding kept_def
proof (intro allI impI)
  fix xs ws assume k: "\<forall>x w. v h x = Some w \<longrightarrow> v g x = Some w"
  show "val_list v h xs = Some ws \<Longrightarrow> val_list v g xs = Some ws"
    by (induction xs arbitrary: ws) (use k in \<open>auto simp: val_list_Cons\<close>)
qed

lemma kept_entry: "kept h g v \<Longrightarrow> kept h g (val_entry v)"
  by (auto simp: kept_def val_entry_def)

lemma kept_ptr:
  assumes "status_only h g" "apart t" "kept h g v"
  shows "kept h g (val_ptr t v)"
  using load_apart [OF assms(2,1)] assms(3) unfolding kept_def val_ptr_def
  by (fastforce split: option.splits list.splits)

lemma kept_slice:
  assumes "status_only h g" "apart t" "kept h g v"
  shows "kept h g (val_slice t v)"
  using load_apart [OF assms(2,1)] kept_list [OF assms(3)] unfolding kept_def val_slice_def
  by (auto simp: elems_def split: option.splits if_splits)

lemma kept_map:
  assumes "status_only h g" "apart t" "kept h g v"
  shows "kept h g (val_map t v)"
  using load_apart [OF assms(2,1)] kept_list [OF kept_entry [OF assms(3)]] unfolding kept_def val_map_def
  by (fastforce split: option.splits if_splits)

lemmas kept_rules = kept_ptr kept_slice kept_map kept_plain apart_types

lemma kept_AdmissionControlConfig: "status_only h g \<Longrightarrow> kept h g val_AdmissionControlConfig"
  unfolding kept_def [of _ _ val_AdmissionControlConfig] val_AdmissionControlConfig_def bind_eq_Some_conv
  by (fastforce dest: keptD [OF kept_slice] intro: kept_rules)

lemma kept_ProfileConfig: "status_only h g \<Longrightarrow> kept h g val_ProfileConfig"
  unfolding kept_def [of _ _ val_ProfileConfig] val_ProfileConfig_def bind_eq_Some_conv
  by (fastforce dest: keptD [OF kept_ptr] intro: kept_rules)

lemma kept_TriggerCondition: "status_only h g \<Longrightarrow> kept h g val_TriggerCondition"
  unfolding kept_def [of _ _ val_TriggerCondition] val_TriggerCondition_def bind_eq_Some_conv
  by (fastforce dest: keptD [OF kept_ptr] intro: kept_rules)

lemma kept_TriggerConfig: "status_only h g \<Longrightarrow> kept h g val_TriggerConfig"
  unfolding kept_def [of _ _ val_TriggerConfig] val_TriggerConfig_def bind_eq_Some_conv
  by (fastforce dest: keptD [OF kept_slice] keptD [OF kept_TriggerCondition] intro: kept_rules)

lemma kept_ScheduleConfig: "status_only h g \<Longrightarrow> kept h g val_ScheduleConfig"
  unfolding kept_def [of _ _ val_ScheduleConfig] val_ScheduleConfig_def bind_eq_Some_conv
  by (fastforce dest: keptD [OF kept_slice] intro: kept_rules)

lemma kept_ObjectMeta: "status_only h g \<Longrightarrow> kept h g val_ObjectMeta"
  unfolding kept_def [of _ _ val_ObjectMeta] val_ObjectMeta_def bind_eq_Some_conv
  by (fastforce dest: keptD [OF kept_map] intro: kept_rules)

lemma kept_AdaptivePolicySpec:
  assumes so: "status_only h g"
  shows "kept h g val_AdaptivePolicySpec"
proof -
  note plain_ptr = kept_ptr [OF so _ kept_plain, THEN keptD]
  note k = kept_map [OF so _ kept_plain, of tStringMap, THEN keptD] plain_ptr [of tAdaptiveConcurrencyConfig]
    kept_ptr [OF so _ kept_AdmissionControlConfig [OF so], of tAdmissionControlConfig, THEN keptD]
    plain_ptr [of tStreamingProtectionConfig]
    kept_map [OF so _ kept_ProfileConfig [OF so], of tProfileMap, THEN keptD]
    kept_slice [OF so _ kept_TriggerConfig [OF so], of tTriggerConfig, THEN keptD]
    kept_slice [OF so _ kept_ScheduleConfig [OF so], of tScheduleConfig, THEN keptD]
    plain_ptr [of tSignalConfig] plain_ptr [of tDetectionConfig]
  show ?thesis
    unfolding kept_def [of _ _ val_AdaptivePolicySpec] val_AdaptivePolicySpec_def bind_eq_Some_conv
    by (auto simp: k)
qed

definition status_rest :: "heap \<Rightarrow> AdaptivePolicyStatus_mem \<Rightarrow> Condition list \<Rightarrow> AdaptivePolicyStatus option" where
  \<comment> \<open>the value of a status with the given conditions\<close>
  "status_rest h x cs = map_option (\<lambda>st. st\<lparr>Conditions := cs\<rparr>)
     (val_AdaptivePolicyStatus h (x\<lparr>stm_Conditions := None\<rparr>))"

lemma val_status_split:
  "val_AdaptivePolicyStatus h x = Option.bind (val_slice tCondition plain h (stm_Conditions x)) (status_rest h x)"
  by (cases "val_slice tCondition plain h (stm_Conditions x)")
    (auto simp: val_AdaptivePolicyStatus_def status_rest_def val_slice_def split: Option.bind_split)

lemma status_rest_kept:
  assumes so: "status_only h g" and r: "status_rest h x cs = Some st"
  shows "status_rest g (x\<lparr>stm_Conditions := s\<rparr>) cs' = Some (st\<lparr>Conditions := cs'\<rparr>)"
proof -
  note time = kept_ptr [OF so _ kept_plain, of tTime, THEN keptD]
  note k = time kept_slice [OF so _ kept_plain, of tString, THEN keptD] kept_slice [OF so _ kept_plain, of tManagedResource, THEN keptD]
    kept_ptr [OF so _ kept_plain, of tDecisionRecord, THEN keptD] kept_slice [OF so _ kept_plain, of tDecisionRecord, THEN keptD]
  show ?thesis
    using r unfolding status_rest_def val_AdaptivePolicyStatus_def map_option_eq_Some bind_eq_Some_conv
    by (auto simp: k val_slice_def [of tCondition])
qed

subsection \<open>\<open>setCondition\<close> in memory\<close>

lemma load_conditions: "load tCondition h a = Some xs \<longleftrightarrow> a < length h \<and> h ! a = ConditionsArr xs"
  by (auto simp: load_def gotype_defs split: cell.splits)

lemma val_list_plain [simp]: "val_list plain h xs = Some xs"
  by (induction xs) (auto simp: val_list_Cons)

lemma set_existing_upsert:
  assumes cs: "cs = elems tCondition h sl" and k: "k \<le> length cs"
  shows "case set_existing c sl [k..<length cs] h of
      Some h' \<Rightarrow> \<exists>i < length cs. h' = set_index tCondition sl i (overwritten c (cs ! i)) h \<and>
        upsert_condition c (drop k cs) = drop k (cs[i := overwritten c (cs ! i)]) \<and> k \<le> i
    | None \<Rightarrow> upsert_condition c (drop k cs) = drop k cs @ [c]"
  using k
proof (induction "length cs - k" arbitrary: k)
  case 0
  then show ?case by simp
next
  case (Suc n)
  then have k: "k < length cs" by simp
  then have d: "drop k cs = cs ! k # drop (Suc k) cs" and u: "[k..<length cs] = k # [Suc k..<length cs]"
    by (simp_all add: Cons_nth_drop_Suc upt_conv_Cons)
  show ?case
  proof (cases "c_Type (cs ! k) = c_Type c")
    case True
    then have "upsert_condition c (drop k cs) = drop k (cs[k := overwritten c (cs ! k)])"
      by (simp add: d overwritten_def drop_update_swap k)
    then show ?thesis using True k by (auto simp: u cs [symmetric] Let_def)
  next
    case False
    have "n = length cs - Suc k" "Suc k \<le> length cs" using Suc.hyps(2) k by auto
    note IH = Suc.hyps(1) [OF this]
    show ?thesis
    proof (cases "set_existing c sl [Suc k..<length cs] h")
      case None
      then show ?thesis using IH False by (simp add: u cs [symmetric] d)
    next
      case (Some h')
      with IH obtain i where i: "i < length cs" "h' = set_index tCondition sl i (overwritten c (cs ! i)) h"
        "upsert_condition c (drop (Suc k) cs) = drop (Suc k) (cs[i := overwritten c (cs ! i)])" "Suc k \<le> i" by auto
      have "drop k (cs[i := overwritten c (cs ! i)]) = cs ! k # drop (Suc k) (cs[i := overwritten c (cs ! i)])"
        using k i(4) by (metis Cons_nth_drop_Suc length_list_update nth_list_update_neq not_less_eq_eq order_refl)
      then have "upsert_condition c (drop k cs) = drop k (cs[i := overwritten c (cs ! i)])"
        using False i(3) by (simp add: d)
      then show ?thesis using Some False i by (auto simp: u cs [symmetric] Let_def)
    qed
  qed
qed

lemma take_drop_update: "take n (drop k (xs[k + i := x])) = (take n (drop k xs))[i := x]"
  by (simp add: drop_update_swap take_update_swap)

lemma set_index_condition:
  assumes "load tCondition h (s_base sl) = Some xs" "h' = set_index tCondition sl i x h"
  shows "load tCondition h' (s_base sl) = Some (xs[s_off sl + i := x])"
    "status_only h h'" "length h' = length h" "\<And>a. a \<noteq> s_base sl \<Longrightarrow> h' ! a = h ! a"
proof -
  have h: "s_base sl < length h" "h ! s_base sl = ConditionsArr xs" using assms(1) by (simp_all add: load_conditions)
  have h': "h' = h[s_base sl := ConditionsArr (xs[s_off sl + i := x])]"
    by (simp add: assms set_index_def put_def) (simp add: gotype_defs)
  show "load tCondition h' (s_base sl) = Some (xs[s_off sl + i := x])" "length h' = length h"
    using h by (simp_all add: h' load_conditions)
  show "status_only h h'" using h by (auto simp: h' status_only_def status_cell_def nth_list_update)
  show "\<And>a. a \<noteq> s_base sl \<Longrightarrow> h' ! a = h ! a" by (simp add: h')
qed

definition base_of :: "slice \<Rightarrow> addr set" where
  "base_of s = (case s of None \<Rightarrow> {} | Some sl \<Rightarrow> {s_base sl})"

lemma go_append_condition:
  assumes v: "val_slice tCondition plain h s = Some cs" and a: "go_append tCondition spare c h s = (s', h')"
  shows "val_slice tCondition plain h' s' = Some (cs @ [c])" "status_only h h'"
    "\<And>a. a < length h \<Longrightarrow> a \<notin> base_of s \<Longrightarrow> h' ! a = h ! a"
    "base_of s' \<subseteq> base_of s \<union> {length h..}"
proof -
  have "val_slice tCondition plain h' s' = Some (cs @ [c]) \<and> status_only h h' \<and>
    (\<forall>a < length h. a \<notin> base_of s \<longrightarrow> h' ! a = h ! a) \<and> base_of s' \<subseteq> base_of s \<union> {length h..}"
  proof (cases s)
    case None
    then obtain b where n: "new_cell tCondition (c # spare) h = (b, h')" "s' = Some \<lparr>s_base = b, s_off = 0, s_len = 1\<rparr>"
      using a by (auto simp: go_append_def split: prod.splits)
    have "load tCondition h' b = Some (c # spare)" using rests_on_now [OF new_cell_rests [OF types_ok(18) n(1)]] .
    moreover have "b = length h" using n(1) by (simp add: new_cell_def)
    ultimately show ?thesis
      using v None n(2) new_cell_prefix [OF n(1)]
      by (auto simp: val_slice_def elems_def status_only_prefix prefix_same base_of_def)
  next
    case (Some sl)
    with v obtain xs where l: "load tCondition h (s_base sl) = Some xs" "s_off sl + s_len sl \<le> length xs"
      "cs = take (s_len sl) (drop (s_off sl) xs)"
      by (auto simp: val_slice_def elems_def split: option.splits if_splits)
    show ?thesis
    proof (cases "s_off sl + s_len sl < length xs")
      case True
      with a Some l have s': "s' = Some (sl\<lparr>s_len := s_len sl + 1\<rparr>)" and h': "h' = set_index tCondition sl (s_len sl) c h"
        by (auto simp: go_append_def)
      have "take (Suc (s_len sl)) (drop (s_off sl) (xs[s_off sl + s_len sl := c])) = cs @ [c]"
        using True by (simp add: take_drop_update take_Suc_conv_app_nth l(3) list_update_append)
      then show ?thesis
        using set_index_condition [OF l(1) h'] True s' Some
        by (simp add: val_slice_def elems_def base_of_def)
    next
      case False
      with a Some l obtain b where n: "new_cell tCondition (cs @ c # spare) h = (b, h')"
        "s' = Some \<lparr>s_base = b, s_off = 0, s_len = s_len sl + 1\<rparr>"
        by (auto simp: go_append_def elems_def split: prod.splits)
      have "load tCondition h' b = Some (cs @ c # spare)" using rests_on_now [OF new_cell_rests [OF types_ok(18) n(1)]] .
      moreover have "b = length h" using n(1) by (simp add: new_cell_def)
      moreover have "length cs = s_len sl" using l by simp
      ultimately show ?thesis
        using Some n(2) new_cell_prefix [OF n(1)]
        by (auto simp: val_slice_def elems_def status_only_prefix prefix_same base_of_def)
    qed
  qed
  then show "val_slice tCondition plain h' s' = Some (cs @ [c])" "status_only h h'"
    "\<And>a. a < length h \<Longrightarrow> a \<notin> base_of s \<Longrightarrow> h' ! a = h ! a"
    "base_of s' \<subseteq> base_of s \<union> {length h..}" by blast+
qed

lemma mem_setCondition_refines:
  assumes v: "val_slice tCondition plain h s = Some cs" and m: "mem_setCondition now spare c h s = (s', h')"
  shows "val_slice tCondition plain h' s' = Some (setCondition now c cs)" "status_only h h'"
    "\<And>a. a < length h \<Longrightarrow> a \<notin> base_of s \<Longrightarrow> h' ! a = h ! a"
    "base_of s' \<subseteq> base_of s \<union> {length h..}"
proof -
  let ?c = "c\<lparr>c_LastTransitionTime := now\<rparr>"
  have "val_slice tCondition plain h' s' = Some (upsert_condition ?c cs) \<and> status_only h h' \<and>
    (\<forall>a < length h. a \<notin> base_of s \<longrightarrow> h' ! a = h ! a) \<and> base_of s' \<subseteq> base_of s \<union> {length h..}"
  proof (cases s)
    case None
    with v have "cs = []" by (simp add: val_slice_def)
    then show ?thesis
      using None m go_append_condition [OF v, of spare ?c s' h'] by (simp add: mem_setCondition_def)
  next
    case (Some sl)
    with v obtain xs where l: "load tCondition h (s_base sl) = Some xs" "s_off sl + s_len sl \<le> length xs"
      "cs = take (s_len sl) (drop (s_off sl) xs)" "cs = elems tCondition h sl"
      by (auto simp: val_slice_def elems_def split: option.splits if_splits)
    have n: "s_len sl = length cs" using l by simp
    note up = set_existing_upsert [OF l(4), of 0 ?c]
    show ?thesis
    proof (cases "set_existing ?c sl [0..<length cs] h")
      case None
      then show ?thesis
        using up Some m n go_append_condition [OF v, of spare ?c s' h'] by (simp add: mem_setCondition_def)
    next
      case (Some h1)
      with up obtain i where i: "i < length cs" "h1 = set_index tCondition sl i (overwritten ?c (cs ! i)) h"
        "upsert_condition ?c cs = cs[i := overwritten ?c (cs ! i)]" by auto
      have r: "s' = s" "h' = h1" using m Some \<open>s = Some sl\<close> n by (simp_all add: mem_setCondition_def)
      note e = set_index_condition [OF l(1) i(2)]
      have "cs[i := overwritten ?c (cs ! i)] =
          take (s_len sl) (drop (s_off sl) (xs[s_off sl + i := overwritten ?c (cs ! i)]))"
        by (simp add: take_drop_update l(3) [symmetric])
      then show ?thesis using e l(2) i(3) r \<open>s = Some sl\<close> by (simp add: val_slice_def elems_def base_of_def)
    qed
  qed
  then show "val_slice tCondition plain h' s' = Some (setCondition now c cs)" "status_only h h'"
    "\<And>a. a < length h \<Longrightarrow> a \<notin> base_of s \<Longrightarrow> h' ! a = h ! a"
    "base_of s' \<subseteq> base_of s \<union> {length h..}" by (auto simp: setCondition_def)
qed

subsection \<open>The policy at an address\<close>

definition policy_at :: "heap \<Rightarrow> addr \<Rightarrow> TypeMeta \<times> AdaptivePolicy \<Rightarrow> bool" where
  "policy_at h p w \<longleftrightarrow> policy_ptr h (Some p) = Some (Some w)"

definition conditions_base :: "heap \<Rightarrow> addr \<Rightarrow> addr set" where
  "conditions_base h p = base_of (stm_Conditions (pm_Status (deref tAdaptivePolicy h p)))"

lemma policy_at_iff:
  "policy_at h p w \<longleftrightarrow> (\<exists>x. load tAdaptivePolicy h p = Some [x] \<and> val_AdaptivePolicy h x = Some w)"
  by (cases w) (auto simp: policy_at_def policy_ptr_def val_ptr_def split: option.splits list.splits)

lemma load_policies: "load tAdaptivePolicy h a = Some xs \<longleftrightarrow> a < length h \<and> h ! a = PoliciesArr xs"
  by (auto simp: load_def gotype_defs split: cell.splits)

lemma set_policy_condition_refines:
  assumes w: "policy_at h p (tm, pol)" and s: "set_policy_condition now spare c p h = h'"
  shows "policy_at h' p (tm, update_status (\<lambda>st. st\<lparr>Conditions := setCondition now c (Conditions st)\<rparr>) pol)"
    "length h \<le> length h'"
    "\<And>a. a < length h \<Longrightarrow> a \<noteq> p \<Longrightarrow> a \<notin> conditions_base h p \<Longrightarrow> h' ! a = h ! a"
    "conditions_base h' p \<subseteq> conditions_base h p \<union> {length h..}"
    "om_Generation (pm_ObjectMeta (deref tAdaptivePolicy h' p)) = om_Generation (pm_ObjectMeta (deref tAdaptivePolicy h p))"
proof -
  from w obtain x where x: "load tAdaptivePolicy h p = Some [x]" "val_AdaptivePolicy h x = Some (tm, pol)"
    by (auto simp: policy_at_iff)
  have p: "p < length h" "h ! p = PoliciesArr [x]" "deref tAdaptivePolicy h p = x"
    using x(1) by (simp add: load_policies, simp add: load_policies, simp add: deref_def)
  from x(2) obtain n ns u gen an sp st cs where v: "val_ObjectMeta h (pm_ObjectMeta x) = Some (n, ns, u, gen, an)"
    "val_AdaptivePolicySpec h (pm_Spec x) = Some sp" "val_slice tCondition plain h (stm_Conditions (pm_Status x)) = Some cs"
    "status_rest h (pm_Status x) cs = Some st"
    "tm = pm_TypeMeta x" "pol = \<lparr>Name = n, Namespace = ns, UID = u, Generation = gen, Annotations = an, Spec = sp, Status = st\<rparr>"
    by (auto simp: val_AdaptivePolicy_def bind_eq_Some_conv val_status_split)
  have cst: "Conditions st = cs" using v(4) by (auto simp: status_rest_def)
  obtain sl h1 where m: "mem_setCondition now spare c h (stm_Conditions (pm_Status x)) = (sl, h1)" by fastforce
  note r = mem_setCondition_refines [OF v(3) m]
  let ?x = "x\<lparr>pm_Status := (pm_Status x)\<lparr>stm_Conditions := sl\<rparr>\<rparr>"
  have h': "h' = h1[p := PoliciesArr [?x]]"
    using s by (simp add: set_policy_condition_def p(3) m put_def Let_def) (simp add: gotype_defs)
  have len: "length h \<le> length h1" using r(2) by (simp add: status_only_def)
  have nb: "p \<notin> base_of (stm_Conditions (pm_Status x))"
    using v(3) p(2) by (auto simp: base_of_def val_slice_def load_conditions split: option.splits)
  have p1: "h1 ! p = PoliciesArr [x]" using r(3) [OF p(1) nb] p(2) by simp
  have so: "status_only h1 h'"
    using p(1) len p1 by (auto simp: h' status_only_def status_cell_def nth_list_update)
  note so' = status_only_trans [OF r(2) so]
  have b: "base_of sl \<subseteq> base_of (stm_Conditions (pm_Status x)) \<union> {length h..}" by (rule r(4))
  have "p \<notin> base_of sl" using b nb p(1) by auto
  then have cond: "val_slice tCondition plain h' sl = Some (setCondition now c cs)"
    using r(1) by (auto simp: h' val_slice_def elems_def base_of_def load_def split: option.splits if_splits)
  have "val_AdaptivePolicyStatus h' (pm_Status ?x) = Some (st\<lparr>Conditions := setCondition now c cs\<rparr>)"
    using status_rest_kept [OF so' v(4), of sl] cond by (simp add: val_status_split)
  moreover have "val_ObjectMeta h' (pm_ObjectMeta ?x) = Some (n, ns, u, gen, an)"
    using keptD [OF kept_ObjectMeta [OF so'] v(1)] by simp
  moreover have "val_AdaptivePolicySpec h' (pm_Spec ?x) = Some sp"
    using keptD [OF kept_AdaptivePolicySpec [OF so'] v(2)] by simp
  moreover have l': "load tAdaptivePolicy h' p = Some [?x]" using p(1) len by (simp add: h' load_policies)
  ultimately show "policy_at h' p (tm, update_status (\<lambda>st. st\<lparr>Conditions := setCondition now c (Conditions st)\<rparr>) pol)"
    by (simp add: policy_at_iff val_AdaptivePolicy_def v(5,6) update_status_def cst)
  show "length h \<le> length h'" using len by (simp add: h')
  show "\<And>a. a < length h \<Longrightarrow> a \<noteq> p \<Longrightarrow> a \<notin> conditions_base h p \<Longrightarrow> h' ! a = h ! a"
    using r(3) by (simp add: h' conditions_base_def p(3))
  have d: "deref tAdaptivePolicy h' p = ?x" by (simp add: deref_def l')
  show "conditions_base h' p \<subseteq> conditions_base h p \<union> {length h..}" using b by (simp add: conditions_base_def d p(3))
  show "om_Generation (pm_ObjectMeta (deref tAdaptivePolicy h' p)) = om_Generation (pm_ObjectMeta (deref tAdaptivePolicy h p))"
    by (simp add: d p(3))
qed

lemma policy_at_fields:
  assumes "policy_at h p (tm, pol)"
  shows "p < length h" "om_Generation (pm_ObjectMeta (deref tAdaptivePolicy h p)) = Generation pol"
    "conditions_base h p \<subseteq> {..<length h}"
proof -
  from assms obtain x where x: "load tAdaptivePolicy h p = Some [x]" "val_AdaptivePolicy h x = Some (tm, pol)"
    by (auto simp: policy_at_iff)
  have d: "deref tAdaptivePolicy h p = x" by (simp add: deref_def x(1))
  show "p < length h" using x(1) by (simp add: load_policies)
  show "om_Generation (pm_ObjectMeta (deref tAdaptivePolicy h p)) = Generation pol"
    using x(2) by (auto simp: d val_AdaptivePolicy_def val_ObjectMeta_def bind_eq_Some_conv)
  show "conditions_base h p \<subseteq> {..<length h}"
    using x(2) by (auto simp: conditions_base_def d val_AdaptivePolicy_def bind_eq_Some_conv val_status_split
        base_of_def val_slice_def load_conditions split: option.splits)
qed

subsection \<open>The base of the merge patch\<close>

text \<open>C13. \<open>markDegraded\<close> in memory refines the one on values: when the patch is sent, the policy at the address has
  exactly the conditions that \<open>setCondition\<close> computes, and its base still denotes the policy before the call,
  although the conditions were overwritten in place; so the recorded call patches the old status into the
  new one.\<close>

theorem markDegraded_patches_from_old_status:
  assumes ext: "copies_ok ext" and w: "policy_at h p (tm, pol)"
    and m: "mem_markDegraded ext (cond_now env) spare reason message p h = (base, h')"
  shows "policy_ptr h' base = Some (Some (tm, pol)) \<and> (\<exists>new. policy_at h' p (tm, new) \<and>
    snd (snd (markDegraded env pol reason message calls)) = calls @ [StatusPatch (Status pol) (Status new)])"
proof -
  have "policy_ptr h (Some p) = Some (Some (tm, pol))" using w by (simp add: policy_at_def)
  note D = deep_copier_policy_ptr [OF ext] and v = this [unfolded policy_ptr_def]
  obtain h1 where c: "AdaptivePolicy_DeepCopy ext h (Some p) = (base, h1)"
    using m by (auto simp: mem_markDegraded_def Let_def split: prod.splits)
  have pre: "prefix h h1" by (rule deep_copier.copy_allocates_only [OF D v c])
  note lp = policy_at_fields(1) [OF w] and gen = policy_at_fields(2) [OF w] and old_base = policy_at_fields(3) [OF w]
  have w1: "policy_at h1 p (tm, pol)"
    using deep_copier.denotes_extend [OF D v pre] by (simp add: policy_at_def policy_ptr_def)
  have d1: "deref tAdaptivePolicy h1 p = deref tAdaptivePolicy h p"
    using lp prefix_same [OF pre] prefix_length_le [OF pre] by (simp add: deref_def load_def)
  let ?dg = "condition_of ConditionDegraded True reason message (Generation pol)"
  let ?rd = "condition_of ConditionReady False reason message (Generation pol)"
  define h2 where "h2 = set_policy_condition (cond_now env 0) spare ?dg p h1"
  have h': "h' = set_policy_condition (cond_now env 1) spare ?rd p h2"
    using m by (simp add: mem_markDegraded_def Let_def c gen h2_def)
  note r1 = set_policy_condition_refines [OF w1 h2_def [symmetric]]
  note r2 = set_policy_condition_refines [OF r1(1) h' [symmetric]]
  have same: "h' ! a = h1 ! a" if "length h \<le> a" "a < length h1" for a
  proof -
    have n: "a \<noteq> p" "a \<notin> conditions_base h1 p" "a \<notin> conditions_base h2 p"
      using that lp old_base r1(4) by (simp, force simp: conditions_base_def d1, force simp: conditions_base_def d1)
    then show ?thesis using r1(3) [OF that(2) n(1,2)] r2(3) [OF _ n(1,3)] that(2) r1(2) by simp
  qed
  have "policy_ptr h' base = Some (Some (tm, pol))"
    using rests_onD [OF deep_copier.copy_rests [OF D v c] _ same] r1(2) r2(2) by (simp add: policy_ptr_def)
  moreover have "snd (snd (markDegraded env pol reason message calls)) = calls @ [StatusPatch (Status pol)
      (Status (update_status (\<lambda>st. st\<lparr>Conditions := setCondition (cond_now env 1) ?rd (Conditions st)\<rparr>)
        (update_status (\<lambda>st. st\<lparr>Conditions := setCondition (cond_now env 0) ?dg (Conditions st)\<rparr>) pol)))]"
    by (auto simp: markDegraded_def Let_def update_status_def split: sum.splits)
  ultimately show ?thesis using r2(1) by blast
qed

theorem markDegraded_patches_from_old_status_witness:
  "\<forall>env. let (base, h') = mem_markDegraded sample_machinery (cond_now env) [] ''ApplyFailed'' ''no'' 7
       (sample_heap @ [PoliciesArr [sample_mem]])
   in policy_ptr h' base = Some (Some (pm_TypeMeta sample_mem, sample_value)) \<and>
      (\<exists>new. policy_at h' 7 (pm_TypeMeta sample_mem, new) \<and>
        snd (snd (markDegraded env sample_value ''ApplyFailed'' ''no'' [])) = [StatusPatch (Status sample_value) (Status new)])"
proof
  fix env :: rec_env
  let ?h = "sample_heap @ [PoliciesArr [sample_mem]]"
  obtain base h' where m: "mem_markDegraded sample_machinery (cond_now env) [] ''ApplyFailed'' ''no'' 7 ?h = (base, h')"
    by fastforce
  have w: "policy_at ?h 7 (pm_TypeMeta sample_mem, sample_value)" by (simp add: policy_at_def sample_policy_ptr)
  show "let (base, h') = mem_markDegraded sample_machinery (cond_now env) [] ''ApplyFailed'' ''no'' 7 ?h
    in policy_ptr h' base = Some (Some (pm_TypeMeta sample_mem, sample_value)) \<and>
      (\<exists>new. policy_at h' 7 (pm_TypeMeta sample_mem, new) \<and>
        snd (snd (markDegraded env sample_value ''ApplyFailed'' ''no'' [])) = [StatusPatch (Status sample_value) (Status new)])"
    using markDegraded_patches_from_old_status [OF sample_machinery_ok w m, of "[]"] by (simp add: m)
qed

end
