(* ===== verification/Controller_Reconcile.thy ===== *)
theory Controller_Reconcile
  imports Controller_Core
begin

section \<open>The reconcile loop (internal/controller)\<close>

text \<open>
  \<open>Reconcile\<close> in the order of its source sections: fetch, validate, detect, read signals, evaluate and
  switch, render, apply, prune, push, status. It returns the result for the work queue, the API calls
  it made (the list calls apart), what the streams received, and the new state. \<open>sys_step\<close> interleaves reconciles with the
  poller goroutines they start.
\<close>

subsection \<open>The status\<close>

record observation =
  \<comment> \<open>what the status is computed from\<close>
  ob_signals :: Signals
  ob_available :: bool
  ob_original :: string
  ob_decision :: Decision
  ob_switched :: bool
  ob_connected :: bool
  ob_backend :: string
  ob_render :: RenderResult

definition decision_record :: "gotime \<Rightarrow> observation \<Rightarrow> DecisionRecord" where
  "decision_record now ob =
     \<lparr>dr_Timestamp = now, dr_TriggerName = d_TriggerName (ob_decision ob), dr_ScheduleName = [],
      dr_ProfileBefore = ob_original ob, dr_ProfileAfter = TargetProfile (ob_decision ob),
      dr_SignalValues = Reason (ob_decision ob),
      dr_DeliveryMethod = (if ob_connected ob \<and> ob_switched ob then ''rtds'' else ''envoyfilter''),
      dr_DeliveryLatencyMs = 0, dr_Outcome = ''pending'', dr_OutcomeDetail = []\<rparr>"

definition record_decision :: "gotime \<Rightarrow> observation \<Rightarrow> AdaptivePolicyStatus \<Rightarrow> AdaptivePolicyStatus" where
  "record_decision now ob st =
     (if Reason (ob_decision ob) \<noteq> [] \<and> ShouldSwitch (ob_decision ob)
      then let history = decision_record now ob # DecisionHistory st
           in st\<lparr>LastDecision := Some (decision_record now ob),
                 DecisionHistory := (if 10 < length history then take 10 history else history)\<rparr>
      else st)"

definition status_fields :: "rec_env \<Rightarrow> AdaptivePolicy \<Rightarrow> observation \<Rightarrow> AdaptivePolicyStatus \<Rightarrow> AdaptivePolicyStatus" where
  "status_fields env policy ob st =
     st\<lparr>ObservedGeneration := Generation policy,
        DetectedBackend := ob_backend ob,
        st_ActiveProfile := ActiveProfile (Spec policy),
        ActiveFilters := ActiveFilterNames (ob_render ob),
        ManagedResources := ManagedResourceRefs (ob_render ob),
        LastReconcileTime := Some (status_now env),
        NextTriggerEvaluation := Some (status_now env + scrapeInterval policy),
        st_ConsecutiveBadSamples := d_ConsecutiveBadSamples (ob_decision ob),
        RTDSConnected := ob_connected ob,
        ShedRateNow := actualShedRate (ob_signals ob) policy\<rparr>"

definition ready_message :: "observation \<Rightarrow> string" where
  "ready_message ob = fmt_d (int (length (Resources (ob_render ob)))) @ '' resources applied via '' @
     deliveryMethodStr (ob_connected ob) (ob_switched ob) @ '', backend: '' @ ob_backend ob"

definition arrow :: string where "arrow = [CHR 0xE2, CHR 0x86, CHR 0x92]"

definition scraping_message :: "bool \<Rightarrow> string" where
  "scraping_message available =
     (if available then ''sidecar stats endpoints reachable on TCP 15090''
      else ''cannot reach pod sidecar stats endpoints on TCP 15090 '' @ em_dash @
        '' triggers will not fire. Ensure NetworkPolicy allows operator'' @ arrow @
        ''pod:15090. Check logs for the specific error.'')"

definition base_conditions :: "rec_env \<Rightarrow> AdaptivePolicy \<Rightarrow> observation \<Rightarrow> Condition list \<Rightarrow> Condition list" where
  "base_conditions env policy ob conds =
     (let ready = condition_of ConditionReady True ''Reconciled'' (ready_message ob) (Generation policy);
          scraping = condition_of ConditionSignalCollectionAvailable (ob_available ob)
            (if ob_available ob then ''ScrapingOK'' else ''ScrapingFailed'')
            (scraping_message (ob_available ob)) (Generation policy)
      in setCondition (cond_now env 1) scraping (setCondition (cond_now env 0) ready conds))"

subsection \<open>FilterEffective\<close>

definition min_rps :: "AdaptivePolicy \<Rightarrow> float64" where
  "min_rps policy = (case AdmissionControl (Spec policy) of
     Some c \<Rightarrow> if 0 < sint (ac_MinRequestsPerSecond c) then fof_int (sint (ac_MinRequestsPerSecond c)) else fof_int 5
   | None \<Rightarrow> fof_int 5)"

definition shed_threshold :: "AdaptivePolicy \<Rightarrow> float64" where
  "shed_threshold policy = fdiv (mustParsePercent (EffectiveSuccessRateThreshold policy)) (fof_int 100)"

definition filter_ejecting :: "Signals \<Rightarrow> bool" where
  "filter_ejecting sg \<longleftrightarrow> flt fzero (ShedRejectedRPS sg)"

definition should_be_shedding :: "AdaptivePolicy \<Rightarrow> Signals \<Rightarrow> bool" where
  "should_be_shedding policy sg \<longleftrightarrow>
     flt (min_rps policy) (RPS sg) \<and> flt (SuccessRate sg) (shed_threshold policy)"

definition zero_ejections_message :: "AdaptivePolicy \<Rightarrow> Signals \<Rightarrow> int32 \<Rightarrow> string" where
  "zero_ejections_message policy sg n =
     ''admission_control has rejected 0 requests over '' @ fmt_d (sint n) @ '' consecutive intervals '' @
     ''while successRate='' @ fmt_f 3 (SuccessRate sg) @ '' is below threshold='' @ fmt_f 3 (shed_threshold policy) @
     '' and RPS='' @ fmt_f 0 (RPS sg) @ '' exceeds minimum='' @ fmt_f 0 (min_rps policy) @ ''. '' @
     ''The filter may not be intercepting traffic. Verify with: '' @
     ''kubectl exec -n '' @ Namespace policy @
     '' <pod> -c istio-proxy -- curl -s localhost:15000/stats | grep admission_control''"

definition filter_effective :: "rec_env \<Rightarrow> AdaptivePolicy \<Rightarrow> observation \<Rightarrow> State \<Rightarrow> Condition list \<Rightarrow>
    State \<times> Condition list" where
  "filter_effective env policy ob st conds =
     (if HasAdmissionControl policy \<and> \<not> IsDryRun policy \<and> ob_available ob
      then let sg = ob_signals ob;
               n = (if should_be_shedding policy sg \<and> \<not> filter_ejecting sg
                    then ConsecutiveFilterInactive st + 1 else 0);
               st' = st\<lparr>ConsecutiveFilterInactive := n\<rparr>
           in if 3 \<le> sint n
              then (st', setCondition (cond_now env 2) (condition_of ConditionFilterEffective False
                     ''ZeroEjections'' (zero_ejections_message policy sg n) (Generation policy)) conds)
              else if filter_ejecting sg
              then (st', setCondition (cond_now env 2) (condition_of ConditionFilterEffective True
                     ''EjectionsObserved'' (''admission_control is actively rejecting requests ('' @
                       fmt_f 1 (ShedRejectedRPS sg) @ ''/s)'') (Generation policy)) conds)
              else (st', conds)
      else (st, conds))"

definition new_status :: "rec_env \<Rightarrow> AdaptivePolicy \<Rightarrow> observation \<Rightarrow> State \<Rightarrow> State \<times> AdaptivePolicyStatus" where
  "new_status env policy ob st =
     (let s1 = record_decision (status_now env) ob (status_fields env policy ob (Status policy));
          (st', conds) = filter_effective env policy ob st (base_conditions env policy ob (Conditions s1))
      in (st', s1\<lparr>Conditions := conds\<rparr>))"

subsection \<open>Reconcile\<close>

record rec_out =
  requeue_after :: duration
  rec_error :: "string option"
  api_calls :: "api_call list"
  list_calls :: "list_call list"
  received :: "(nat \<times> DiscoveryResponse) list"
  rec_policy :: "AdaptivePolicy option"  \<comment> \<open>the fetched object as the reconcile leaves it\<close>
  rec_after :: Reconciler

definition rec_done :: "AdaptivePolicy option \<Rightarrow> duration \<Rightarrow> string option \<Rightarrow> api_call list \<Rightarrow> Reconciler \<Rightarrow> rec_out" where
  \<comment> \<open>a return before anything was pushed; no policy is given before a poller may hold it\<close>
  "rec_done p d err calls r = \<lparr>requeue_after = d, rec_error = err, api_calls = calls, list_calls = [], received = [],
     rec_policy = p, rec_after = r\<rparr>"

definition store_state :: "string \<Rightarrow> State \<Rightarrow> Reconciler \<Rightarrow> Reconciler" where
  \<comment> \<open>the state is updated through the pointer the map holds\<close>
  "store_state key st r = r\<lparr>triggerState := AList.update key st (triggerState r)\<rparr>"

definition register_layers :: "rec_env \<Rightarrow> AdaptivePolicy \<Rightarrow> RenderResult \<Rightarrow> Reconciler \<Rightarrow> Reconciler" where
  "register_layers env policy res r = (case rtdsClient r of
     None \<Rightarrow> r
   | Some c \<Rightarrow> r\<lparr>rtdsClient := Some (fold (\<lambda>(layerName, _). RegisterLayer layerName (Namespace policy)
       (Selector (Spec policy))) (layers_order env (RTDSLayers res)) c)\<rparr>)"

definition push_layers :: "rec_env \<Rightarrow> Renderer \<Rightarrow> bool \<Rightarrow> RenderResult \<Rightarrow> Reconciler \<Rightarrow>
    bool \<times> (nat \<times> DiscoveryResponse) list \<times> Reconciler" where
  "push_layers env mesh switched res r = (case rtdsClient r of
     None \<Rightarrow> (False, [], r)
   | Some c \<Rightarrow>
       if switched \<and> Connected c \<and> r_RTDSSupported mesh
       then (case push_loop env c (layers_order env (RTDSLayers res)) True (rtds_server r) of
               (ok, sent, s') \<Rightarrow> (ok, sent, r\<lparr>rtds_server := s'\<rparr>))
       else (False, [], r))"

definition degraded_return :: "rec_env \<Rightarrow> AdaptivePolicy \<Rightarrow> string \<Rightarrow> string \<Rightarrow> duration \<Rightarrow> api_call list \<Rightarrow>
    Reconciler \<Rightarrow> rec_out" where
  "degraded_return env policy reason message d calls r =
     (case markDegraded env policy reason message calls of (_, p, calls') \<Rightarrow> rec_done (Some p) d None calls' r)"

definition finish :: "rec_env \<Rightarrow> string \<Rightarrow> AdaptivePolicy \<Rightarrow> observation \<Rightarrow> State \<Rightarrow> api_call list \<Rightarrow>
    (nat \<times> DiscoveryResponse) list \<Rightarrow> Reconciler \<Rightarrow> rec_out" where
  \<comment> \<open>section 8: the requeue interval is read from the policy the status patch returned\<close>
  "finish env key policy ob st calls sent r =
     (let (st', status) = new_status env policy ob st;
          policy' = policy\<lparr>Status := status\<rparr>;
          policy'' = (case k_status (kube env) calls policy' of Inl _ \<Rightarrow> policy' | Inr p \<Rightarrow> p)
      in \<lparr>requeue_after = scrapeInterval policy'', rec_error = None,
          api_calls = calls @ [StatusPatch (Status policy) status], list_calls = [], received = sent,
          rec_policy = Some policy'', rec_after = store_state key st' r\<rparr>)"

definition render_and_deliver :: "rec_env \<Rightarrow> string \<Rightarrow> Renderer \<Rightarrow> AdaptivePolicy \<Rightarrow> Signals \<Rightarrow> bool \<Rightarrow> string \<Rightarrow>
    switch_result \<Rightarrow> api_call list \<Rightarrow> Reconciler \<Rightarrow> rec_out" where
  \<comment> \<open>sections 5 to 8\<close>
  "render_and_deliver env key mesh policy sg available original sw calls r =
     (case r_Render mesh (selector_order env) policy of
        Inl e \<Rightarrow> degraded_return env policy ''RenderFailed'' e (15 * second) calls r
      | Inr res \<Rightarrow>
          (case (if sw_switched sw then (None, calls) else apply_all env (Resources res) calls) of
             (Some e, calls1) \<Rightarrow> degraded_return env policy ''ApplyFailed'' e (15 * second) calls1 r
           | (None, calls1) \<Rightarrow>
               (let calls2 = pruneOrphanedResources policy (ManagedResourceRefs res) calls1;
                    (ok, sent, r') = push_layers env mesh (sw_switched sw) res (register_layers env policy res r);
                    ob = \<lparr>ob_signals = sg, ob_available = available, ob_original = original,
                      ob_decision = sw_decision sw, ob_switched = sw_switched sw, ob_connected = ok,
                      ob_backend = r_Name mesh, ob_render = res\<rparr>
                in finish env key policy ob (sw_state sw) calls2 sent r')))"

definition switch_and_deliver :: "rec_env \<Rightarrow> string \<Rightarrow> Renderer \<Rightarrow> AdaptivePolicy \<Rightarrow> State \<Rightarrow> Signals \<Rightarrow> bool \<Rightarrow>
    api_call list \<Rightarrow> Reconciler \<Rightarrow> rec_out" where
  \<comment> \<open>sections 4 to 8\<close>
  "switch_and_deliver env key mesh policy st sg available calls r =
     (let sw = evaluateAndSwitch env policy sg st calls;
          r' = store_state key (sw_state sw) r;
          original = ActiveProfile (Spec policy)
      in if sw_switched sw
         then (case k_get (kube env) (sw_log sw) of
                 Got p \<Rightarrow> render_and_deliver env key mesh p sg available original sw (sw_log sw @ [GetPolicy]) r'
               | NotFound \<Rightarrow> rec_done (Some (sw_policy sw)) 0 None (sw_log sw @ [GetPolicy]) r'
               | GetFailed e \<Rightarrow> rec_done (Some (sw_policy sw)) 0 (Some e) (sw_log sw @ [GetPolicy]) r')
         else render_and_deliver env key mesh (sw_policy sw) sg available original sw (sw_log sw) r')"

text \<open>\<open>NewPoller\<close> keeps the pointer it is given, and it is the reconcile's own: the patch of the profile, the second
  read and the status update all write to the object a poller started by this reconcile reads. Its
  ticks up to the read of its channel see the policy as fetched, all later ones as the reconcile leaves it.\<close>

definition share_policy :: "bool \<Rightarrow> nat \<Rightarrow> rec_out \<Rightarrow> rec_out" where
  \<comment> \<open>whether goroutine \<open>i\<close> was started by this reconcile\<close>
  "share_policy started i res = (case rec_policy res of
     Some p \<Rightarrow> if started
       then res\<lparr>rec_after := set_poller i ((g_poller (goroutines (rec_after res) ! i))\<lparr>poller_policy := p\<rparr>) (rec_after res)\<rparr>
       else res
   | None \<Rightarrow> res)"

definition reconcile_policy :: "rec_env \<Rightarrow> string \<Rightarrow> AdaptivePolicy \<Rightarrow> Reconciler \<Rightarrow> rec_out" where
  \<comment> \<open>sections 1.5 to 8, for a policy that was found\<close>
  "reconcile_policy env key policy r =
     (case validatePolicy env policy [GetPolicy] of
        (False, calls) \<Rightarrow> rec_done None (30 * second) None calls r
      | (True, calls) \<Rightarrow>
          (case DetectAndBuild (cluster env) policy of
             Inl e \<Rightarrow> (degraded_return env policy ''MeshDetectionFailed'' e (30 * second) calls r)
                 \<lparr>list_calls := detection_lists (cluster env) policy\<rparr>
           | Inr mesh \<Rightarrow>
               (let (st, r1) = ensure_state key r;
                    (i, r2) = ensurePoller key policy r1;
                    r2' = run_ticks (late_ticks env) i r2;
                    (sg, available, r3) = read_signals env policy i r2'
                in (share_policy (length (goroutines r1) \<le> i) i
                     (switch_and_deliver env key mesh policy st sg available calls r3))
                   \<lparr>list_calls := detection_lists (cluster env) policy @ signal_lists policy i r2'\<rparr>)))"

definition Reconcile :: "rec_env \<Rightarrow> string \<Rightarrow> Reconciler \<Rightarrow> rec_out" where
  "Reconcile env key r = (case k_get (kube env) [] of
     NotFound \<Rightarrow> rec_done None 0 None [GetPolicy] (policy_deleted key r)
   | GetFailed e \<Rightarrow> rec_done None 0 (Some e) [GetPolicy] r
   | Got policy \<Rightarrow> reconcile_policy env key policy r)"

subsection \<open>Reconciles and pollers together\<close>

text \<open>Reconciles run one at a time (the controller's default); between them each poller goroutine may
  tick, and returns once its context is cancelled, and proxies connect to and leave the runtime server.\<close>

definition goroutine_ticks :: "scrape_env \<Rightarrow> nat \<Rightarrow> Reconciler \<Rightarrow> Reconciler" where
  "goroutine_ticks env i r = run_ticks [env] i r"

definition orders_ok :: "rec_env \<Rightarrow> bool" where
  \<comment> \<open>the ranges over maps visit every entry once, in any order\<close>
  "orders_ok env \<longleftrightarrow> is_order (selector_order env) \<and> is_order (layers_order env) \<and> is_order (names_order env) \<and>
     is_order (stream_order (rtds env)) \<and> is_order (layer_order (rtds env)) \<and> is_order (class_order (scrape env))"

inductive sys_step :: "Reconciler \<Rightarrow> Reconciler \<Rightarrow> bool" where
  sys_reconcile: "orders_ok env \<Longrightarrow> sys_step r (rec_after (Reconcile env key r))"
| sys_tick: "i < length (goroutines r) \<Longrightarrow> \<not> g_returned (goroutines r ! i) \<Longrightarrow>
    sys_step r (goroutine_ticks env i r)"
| sys_return: "i < length (goroutines r) \<Longrightarrow> g_cancelled (goroutines r ! i) \<Longrightarrow>
    sys_step r (r\<lparr>goroutines := (goroutines r)[i := (goroutines r ! i)\<lparr>g_returned := True\<rparr>]\<rparr>)"
| sys_streams: "sys_step r (r\<lparr>rtds_server := (rtds_server r)\<lparr>streams := ss\<rparr>\<rparr>)"
  \<comment> \<open>proxies connecting and disconnecting\<close>

inductive_cases sys_step_cases: "sys_step r r'"

definition running :: "Client option \<Rightarrow> Reconciler \<Rightarrow> bool" where
  \<comment> \<open>the states a controller can reach\<close>
  "running c r \<longleftrightarrow> sys_step\<^sup>*\<^sup>* (NewAdaptivePolicyReconciler c) r"

end
