(* ===== verification/Controller_Facts.thy ===== *)
theory Controller_Facts
  imports Controller_Reconcile Poller_Props Render_Facts
begin

section \<open>Lemmas on the reconciler\<close>

text \<open>
  Conditions as a map by type; what the stages of \<open>Reconcile\<close> do to the poller bookkeeping and
  which API calls they add; and, in the renderer's contract, that a reconcile is never stopped by
  rendering.
\<close>

subsection \<open>Conditions\<close>

definition condition_at :: "Condition list \<Rightarrow> string \<Rightarrow> Condition option" where
  "condition_at conds ty = find (\<lambda>c. c_Type c = ty) conds"

lemma condition_at_simps [simp]:
  "condition_at [] ty = None"
  "condition_at (c # cs) ty = (if c_Type c = ty then Some c else condition_at cs ty)"
  by (simp_all add: condition_at_def)

lemma upsert_types:
  "map c_Type (upsert_condition c ds) =
    (if c_Type c \<in> c_Type ` set ds then map c_Type ds else map c_Type ds @ [c_Type c])"
  by (induction ds) auto

lemma setCondition_types:
  "map c_Type (setCondition now c ds) =
    (if c_Type c \<in> c_Type ` set ds then map c_Type ds else map c_Type ds @ [c_Type c])"
  by (simp add: setCondition_def upsert_types)

lemma setCondition_distinct:
  "distinct (map c_Type ds) \<Longrightarrow> distinct (map c_Type (setCondition now c ds))"
  by (auto simp: setCondition_types)

lemma upsert_other [simp]: "ty \<noteq> c_Type c \<Longrightarrow> condition_at (upsert_condition c ds) ty = condition_at ds ty"
  by (induction ds) auto

lemma setCondition_other [simp]:
  "ty \<noteq> c_Type c \<Longrightarrow> condition_at (setCondition now c ds) ty = condition_at ds ty"
  by (simp add: setCondition_def)

lemma upsert_same:
  "condition_at (upsert_condition c ds) (c_Type c) = Some (case condition_at ds (c_Type c) of
     None \<Rightarrow> c
   | Some d \<Rightarrow> if c_Status d \<noteq> c_Status c then c
       else d\<lparr>c_Message := c_Message c, c_Reason := c_Reason c, c_ObservedGeneration := c_ObservedGeneration c\<rparr>)"
  by (induction ds) auto

lemma condition_of_simps [simp]:
  "c_Type (condition_of ty b r m g) = ty" "c_Reason (condition_of ty b r m g) = r"
  "c_Status (condition_of ty b r m g) = (if b then ''True'' else ''False'')"
  "c_Message (condition_of ty b r m g) = m"
  by (simp_all add: condition_of_def)

lemma condition_names_differ [simp]:
  "ConditionDegraded \<noteq> ConditionReady" "ConditionDegraded \<noteq> ConditionSignalCollectionAvailable"
  "ConditionDegraded \<noteq> ConditionFilterEffective" "ConditionReady \<noteq> ConditionDegraded"
  "ConditionReady \<noteq> ConditionSignalCollectionAvailable" "ConditionReady \<noteq> ConditionFilterEffective"
  by (simp_all add: ConditionDegraded_def ConditionReady_def ConditionSignalCollectionAvailable_def
      ConditionFilterEffective_def)

lemma setCondition_status:
  "map_option c_Status (condition_at (setCondition now c ds) (c_Type c)) = Some (c_Status c)"
  using upsert_same [of "c\<lparr>c_LastTransitionTime := now\<rparr>" ds]
  by (auto simp: setCondition_def split: option.splits)

lemma setCondition_entry:
  "map_option (\<lambda>d. (c_Status d, c_Reason d)) (condition_at (setCondition now c ds) (c_Type c)) =
    Some (c_Status c, c_Reason c)"
  using upsert_same [of "c\<lparr>c_LastTransitionTime := now\<rparr>" ds]
  by (auto simp: setCondition_def split: option.splits)

subsection \<open>Poller bookkeeping\<close>

definition g_view :: "goroutine \<Rightarrow> bool \<times> bool \<times> AdaptivePolicy \<times> PollerConfig" where
  "g_view g = (g_cancelled g, g_returned g, poller_policy (g_poller g), cfg (g_poller g))"

definition pollers_view :: "Reconciler \<Rightarrow> (string, nat) gomap \<times> (string, nat) gomap \<times> (string, int) gomap \<times>
    (bool \<times> bool \<times> AdaptivePolicy \<times> PollerConfig) list" where
  \<comment> \<open>what the poller bookkeeping is about: everything but the pollers' counters and channels\<close>
  "pollers_view r = (pollers r, pollerCancels r, pollerGenerations r, map g_view (goroutines r))"

definition maps_ok :: "string set \<Rightarrow> (string, nat) gomap \<Rightarrow> (string, nat) gomap \<Rightarrow> (string, int) gomap \<Rightarrow>
    goroutine list \<Rightarrow> bool" where
  \<comment> \<open>the bookkeeping is right, except for the keys in \<open>X\<close> whose poller has just been cancelled\<close>
  "maps_ok X ps cs gens gs \<longleftrightarrow>
     map_of cs = map_of ps \<and>
     (\<forall>k k' i. map_of ps k = Some i \<longrightarrow> map_of ps k' = Some i \<longrightarrow> k = k') \<and>
     (\<forall>k i. map_of ps k = Some i \<longrightarrow> k \<notin> X \<longrightarrow> i < length gs \<and>
        \<not> g_cancelled (gs ! i) \<and> \<not> g_returned (gs ! i) \<and>
        map_of gens k \<noteq> None) \<and>
     (\<forall>i < length gs. \<not> g_cancelled (gs ! i) \<longrightarrow> (\<exists>k. k \<notin> X \<and> map_of ps k = Some i)) \<and>
     (\<forall>i < length gs. config_ok (cfg (g_poller (gs ! i))))"

definition pollers_ok :: "Reconciler \<Rightarrow> bool" where
  "pollers_ok r \<longleftrightarrow> maps_ok {} (pollers r) (pollerCancels r) (pollerGenerations r) (goroutines r)"

fun view_ok :: "(string, nat) gomap \<times> (string, nat) gomap \<times> (string, int) gomap \<times>
    (bool \<times> bool \<times> AdaptivePolicy \<times> PollerConfig) list \<Rightarrow> bool" where
  "view_ok (ps, cs, gens, gs) \<longleftrightarrow>
     map_of cs = map_of ps \<and>
     (\<forall>k k' i. map_of ps k = Some i \<longrightarrow> map_of ps k' = Some i \<longrightarrow> k = k') \<and>
     (\<forall>k i. map_of ps k = Some i \<longrightarrow> i < length gs \<and> \<not> fst (gs ! i) \<and> \<not> fst (snd (gs ! i)) \<and>
        map_of gens k \<noteq> None) \<and>
     (\<forall>i < length gs. \<not> fst (gs ! i) \<longrightarrow> (\<exists>k. map_of ps k = Some i)) \<and>
     (\<forall>i < length gs. config_ok (snd (snd (snd (gs ! i)))))"

lemma pollers_ok_iff: "pollers_ok r \<longleftrightarrow> view_ok (pollers_view r)"
  by (simp add: pollers_ok_def maps_ok_def pollers_view_def g_view_def cong: conj_cong)

lemma pollers_ok_view: "pollers_view r' = pollers_view r \<Longrightarrow> pollers_ok r \<Longrightarrow> pollers_ok r'"
  by (simp add: pollers_ok_iff)

lemma pollers_view_upd [simp]:
  "pollers_view (r\<lparr>rec_scraper := a\<rparr>) = pollers_view r" "pollers_view (r\<lparr>rtdsClient := b\<rparr>) = pollers_view r"
  "pollers_view (r\<lparr>triggerState := c\<rparr>) = pollers_view r" "pollers_view (r\<lparr>pollerScraper := d\<rparr>) = pollers_view r"
  "pollers_view (r\<lparr>rtds_server := e\<rparr>) = pollers_view r"
  by (simp_all add: pollers_view_def)

lemma set_poller_view:
  assumes "poller_policy p = poller_policy (g_poller (goroutines r ! i))" "cfg p = cfg (g_poller (goroutines r ! i))"
  shows "pollers_view (set_poller i p r) = pollers_view r"
proof -
  have "g_view ((goroutines r ! i)\<lparr>g_poller := p\<rparr>) = g_view (goroutines r ! i)" using assms by (simp add: g_view_def)
  then have "map g_view ((goroutines r)[i := (goroutines r ! i)\<lparr>g_poller := p\<rparr>]) = map g_view (goroutines r)"
    by (cases "i < length (goroutines r)")
      (simp_all add: map_update list_update_same_conv [THEN iffD2] list_update_beyond)
  then show ?thesis by (simp add: pollers_view_def set_poller_def)
qed

lemma run_ticks_view [simp]: "pollers_view (run_ticks envs i r) = pollers_view r"
proof -
  let ?p0 = "g_poller (goroutines r ! i)"
  obtain p sc where f: "fold tick envs (?p0, pollerScraper r) = (p, sc)" by fastforce
  have t: "tick = tick_with ReadSignals" by (simp add: tick_def fun_eq_iff)
  have "poller_policy p = poller_policy ?p0 \<and> cfg p = cfg ?p0"
    using scraping.ticks_invariant [of "\<lambda>q. poller_policy q = poller_policy ?p0 \<and> cfg q = cfg ?p0" ?p0 envs
        "pollerScraper r"] f t by simp
  then show ?thesis using f by (simp add: run_ticks_def set_poller_view)
qed

lemma read_signals_view: "read_signals env policy i r = (sg, av, r') \<Longrightarrow> pollers_view r' = pollers_view r"
  by (auto simp: read_signals_def Let_def set_poller_view split: option.splits prod.splits)

lemma ensure_state_view: "ensure_state key r = (st, r') \<Longrightarrow> pollers_view r' = pollers_view r"
  by (auto simp: ensure_state_def split: option.splits)

lemma store_state_view [simp]: "pollers_view (store_state key st r) = pollers_view r"
  by (simp add: store_state_def)

lemma register_layers_view [simp]: "pollers_view (register_layers env policy res r) = pollers_view r"
  by (simp add: register_layers_def split: option.splits)

lemma push_layers_view: "push_layers env mesh sw res r = (b, sent, r') \<Longrightarrow> pollers_view r' = pollers_view r"
  by (auto simp: push_layers_def split: option.splits if_splits prod.splits)

lemma rec_done_simps [simp]:
  "rec_after (rec_done p d e calls r) = r" "api_calls (rec_done p d e calls r) = calls"
  "requeue_after (rec_done p d e calls r) = d" "rec_error (rec_done p d e calls r) = e"
  "rec_policy (rec_done p d e calls r) = p" "received (rec_done p d e calls r) = []"
  by (simp_all add: rec_done_def)

lemma share_policy_simps [simp]:
  "api_calls (share_policy b i res) = api_calls res" "received (share_policy b i res) = received res"
  "requeue_after (share_policy b i res) = requeue_after res" "rec_error (share_policy b i res) = rec_error res"
  "rec_policy (share_policy b i res) = rec_policy res"
  "triggerState (rec_after (share_policy b i res)) = triggerState (rec_after res)"
  "rtdsClient (rec_after (share_policy b i res)) = rtdsClient (rec_after res)"
  "rtds_server (rec_after (share_policy b i res)) = rtds_server (rec_after res)"
  by (simp_all add: share_policy_def set_poller_def split: option.split)

lemma degraded_return_view [simp]:
  "rec_after (degraded_return env policy reason m d calls r) = r"
  "requeue_after (degraded_return env policy reason m d calls r) = d"
  "rec_error (degraded_return env policy reason m d calls r) = None"
  by (simp_all add: degraded_return_def split: prod.splits)

lemma finish_view [simp]:
  "pollers_view (rec_after (finish env key policy ob st calls sent r)) = pollers_view r"
  "rec_error (finish env key policy ob st calls sent r) = None"
  by (simp_all add: finish_def Let_def split: prod.splits)

lemma render_and_deliver_view:
  "pollers_view (rec_after (render_and_deliver env key mesh policy sg av orig sw calls r)) = pollers_view r"
  by (auto simp: render_and_deliver_def Let_def dest: push_layers_view split: sum.splits prod.splits option.splits)

lemma switch_and_deliver_view:
  "pollers_view (rec_after (switch_and_deliver env key mesh policy st sg av calls r)) = pollers_view r"
  by (simp add: switch_and_deliver_def Let_def render_and_deliver_view split: get_result.splits)

lemma share_policy_pollers: "pollers (rec_after (share_policy b i res)) = pollers (rec_after res)"
  by (simp add: share_policy_def set_poller_def split: option.split)

lemma share_policy_ok:
  assumes "pollers_ok (rec_after res)"
  shows "pollers_ok (rec_after (share_policy b i res))"
proof -
  have "pollers_ok (set_poller i ((g_poller (goroutines r ! i))\<lparr>poller_policy := p\<rparr>) r)" if "pollers_ok r" for r p
  proof -
    let ?gs = "(goroutines r)[i := (goroutines r ! i)\<lparr>g_poller := (g_poller (goroutines r ! i))\<lparr>poller_policy := p\<rparr>\<rparr>]"
    have "g_cancelled (?gs ! j) = g_cancelled (goroutines r ! j)" "g_returned (?gs ! j) = g_returned (goroutines r ! j)"
      "cfg (g_poller (?gs ! j)) = cfg (g_poller (goroutines r ! j))" if "j < length (goroutines r)" for j
      using that by (cases "j = i"; simp)+
    then show ?thesis using that by (simp add: pollers_ok_def maps_ok_def set_poller_def cong: conj_cong) 
  qed
  then show ?thesis using assms by (simp add: share_policy_def split: option.split)
qed

subsection \<open>The bookkeeping is kept\<close>

lemma maps_ok_D:
  assumes "maps_ok X ps cs gens gs"
  shows "map_of cs = map_of ps"
    "map_of ps k = Some i \<Longrightarrow> map_of ps k' = Some i \<Longrightarrow> k = k'"
    "map_of ps k = Some i \<Longrightarrow> k \<notin> X \<Longrightarrow> i < length gs"
    "map_of ps k = Some i \<Longrightarrow> k \<notin> X \<Longrightarrow> \<not> g_cancelled (gs ! i)"
    "map_of ps k = Some i \<Longrightarrow> k \<notin> X \<Longrightarrow> \<not> g_returned (gs ! i)"
    "map_of ps k = Some i \<Longrightarrow> k \<notin> X \<Longrightarrow> map_of gens k \<noteq> None"
    "i < length gs \<Longrightarrow> \<not> g_cancelled (gs ! i) \<Longrightarrow> \<exists>k. k \<notin> X \<and> map_of ps k = Some i"
    "i < length gs \<Longrightarrow> config_ok (cfg (g_poller (gs ! i)))"
  using assms unfolding maps_ok_def by (metis | blast)+

lemma maps_ok_none:
  assumes "maps_ok {} ps cs gens gs" "map_of ps key = None"
  shows "maps_ok {key} ps cs gens gs"
proof -
  have "(k \<notin> {key} \<and> map_of ps k = Some i) = (k \<notin> {} \<and> map_of ps k = Some i)" for k i using assms(2) by auto
  note * = this
  show ?thesis using assms(1) unfolding maps_ok_def * by simp
qed

lemma maps_ok_cancel:
  assumes "maps_ok {} ps cs gens gs" "map_of ps key = Some j"
  shows "maps_ok {key} ps cs gens (gs[j := (gs ! j)\<lparr>g_cancelled := True\<rparr>])"
proof -
  note ok = maps_ok_D [OF assms(1)]
  have j: "j < length gs" using ok(3) assms(2) by blast
  have ne: "i \<noteq> j" if "map_of ps k = Some i" "k \<noteq> key" for k i using that ok(2) assms(2) by blast
  show ?thesis unfolding maps_ok_def
  proof (intro conjI allI impI)
    show "map_of cs = map_of ps" by (simp add: ok(1))
    show "k = k'" if "map_of ps k = Some i" "map_of ps k' = Some i" for k k' i using that ok(2) by blast
    fix k i assume k: "map_of ps k = Some i" "k \<notin> {key}"
    with ne have "i \<noteq> j" by simp
    then show "i < length (gs[j := (gs ! j)\<lparr>g_cancelled := True\<rparr>])"
      "\<not> g_cancelled (gs[j := (gs ! j)\<lparr>g_cancelled := True\<rparr>] ! i)"
      "\<not> g_returned (gs[j := (gs ! j)\<lparr>g_cancelled := True\<rparr>] ! i)"
      "map_of gens k \<noteq> None"
      using k(1) ok(3-6) by simp_all
  next
    fix i assume "i < length (gs[j := (gs ! j)\<lparr>g_cancelled := True\<rparr>])"
    then have i: "i < length gs" by simp
    show "config_ok (cfg (g_poller (gs[j := (gs ! j)\<lparr>g_cancelled := True\<rparr>] ! i)))"
      using ok(8) i j by (cases "i = j") auto
    assume "\<not> g_cancelled (gs[j := (gs ! j)\<lparr>g_cancelled := True\<rparr>] ! i)"
    then have nj: "i \<noteq> j" "\<not> g_cancelled (gs ! i)" using i by (cases "i = j"; simp)+
    then obtain k where "map_of ps k = Some i" using ok(7) i by blast
    then show "\<exists>k. k \<notin> {key} \<and> map_of ps k = Some i" using assms(2) nj(1) by (intro exI [of _ k]) auto
  qed
qed

lemma maps_ok_start:
  assumes "maps_ok {key} ps cs gens gs" and [simp]: "n = length gs"
    and "config_ok (cfg (g_poller g))" "\<not> g_cancelled g" "\<not> g_returned g"
  shows "maps_ok {} (AList.update key n ps) (AList.update key n cs) (AList.update key gen gens) (gs @ [g])"
proof -
  note ok = maps_ok_D [OF assms(1)]
  have lt: "i < n" if "map_of ps k = Some i" "k \<noteq> key" for k i using that ok(3) by simp
  show ?thesis unfolding maps_ok_def map_of_update
  proof (intro conjI allI impI)
    show "(map_of cs)(key \<mapsto> n) = (map_of ps)(key \<mapsto> n)" by (simp add: ok(1))
    fix k k' i assume k: "((map_of ps)(key \<mapsto> n)) k = Some i" "((map_of ps)(key \<mapsto> n)) k' = Some i"
    then have "k = key \<longleftrightarrow> k' = key" using lt [of k i] lt [of k' i] by (auto split: if_splits)
    with k ok(2) show "k = k'" by (auto split: if_splits)
  next
    fix k i assume k: "((map_of ps)(key \<mapsto> n)) k = Some i"
    have "i < length (gs @ [g]) \<and> \<not> g_cancelled ((gs @ [g]) ! i) \<and> \<not> g_returned ((gs @ [g]) ! i) \<and>
      ((map_of gens)(key \<mapsto> gen)) k \<noteq> None"
    proof (cases "k = key")
      case True
      then show ?thesis using k assms(4,5) by (auto simp: nth_append)
    next
      case False
      then have m: "map_of ps k = Some i" "k \<notin> {key}" using k by auto
      from ok(3) [OF m] ok(4) [OF m] ok(5) [OF m] ok(6) [OF m] False show ?thesis by (simp add: nth_append)
    qed
    then show "i < length (gs @ [g])" "\<not> g_cancelled ((gs @ [g]) ! i)" "\<not> g_returned ((gs @ [g]) ! i)"
      "((map_of gens)(key \<mapsto> gen)) k \<noteq> None" by blast+
  next
    fix i assume i': "i < length (gs @ [g])"
    then have i: "i = n \<or> i < n" by auto
    show "config_ok (cfg (g_poller ((gs @ [g]) ! i)))"
      using i ok(8) [of i] assms(3) by (cases "i = n") (simp_all add: nth_append)
    assume c: "\<not> g_cancelled ((gs @ [g]) ! i)"
    show "\<exists>k. k \<notin> {} \<and> ((map_of ps)(key \<mapsto> n)) k = Some i"
    proof (cases "i = n")
      case False
      then obtain k where "k \<noteq> key" "map_of ps k = Some i" using i c ok(7) [of i] by (auto simp: nth_append)
      then show ?thesis by (intro exI [of _ k]) simp
    qed auto
  qed
qed

lemma maps_ok_delete:
  assumes "maps_ok {key} ps cs gens gs"
  shows "maps_ok {} (AList.delete key ps) (AList.delete key cs) gens gs"
  unfolding maps_ok_def map_of_delete'
proof (intro conjI allI impI)
  note ok = maps_ok_D [OF assms]
  show "(map_of cs)(key := None) = (map_of ps)(key := None)" by (simp add: ok(1))
  show "k = k'" if "((map_of ps)(key := None)) k = Some i" "((map_of ps)(key := None)) k' = Some i" for k k' i
    using that ok(2) by (auto split: if_splits)
  fix k i assume "((map_of ps)(key := None)) k = Some i"
  then have "k \<notin> {key}" "map_of ps k = Some i" by (auto split: if_splits)
  then show "i < length gs" "\<not> g_cancelled (gs ! i)" "\<not> g_returned (gs ! i)"
    "map_of gens k \<noteq> None"
    using ok(3-6) by blast+
next
  note ok = maps_ok_D [OF assms]
  fix i assume i: "i < length gs"
  then show "config_ok (cfg (g_poller (gs ! i)))" by (rule ok(8))
  assume "\<not> g_cancelled (gs ! i)"
  then obtain k where "k \<notin> {key}" "map_of ps k = Some i" using ok(7) i by blast
  then show "\<exists>k. k \<notin> {} \<and> ((map_of ps)(key := None)) k = Some i" by (intro exI [of _ k]) simp
qed

lemma cancel_poller_maps [simp]:
  "pollers (cancel_poller key r) = pollers r" "pollerCancels (cancel_poller key r) = pollerCancels r"
  "pollerGenerations (cancel_poller key r) = pollerGenerations r"
  "map_of (pollerCancels r) key = Some j \<Longrightarrow>
    goroutines (cancel_poller key r) = (goroutines r)[j := (goroutines r ! j)\<lparr>g_cancelled := True\<rparr>]"
  by (simp_all add: cancel_poller_def split: option.splits)

lemma cancel_poller_ok:
  assumes "pollers_ok r" "map_of (pollers r) key = Some j"
  shows "maps_ok {key} (pollers r) (pollerCancels r) (pollerGenerations r) (goroutines (cancel_poller key r))"
proof -
  have "map_of (pollerCancels r) key = Some j"
    using assms maps_ok_D(1) by (metis pollers_ok_def)
  then show ?thesis using maps_ok_cancel assms by (simp add: pollers_ok_def)
qed

lemma start_poller_ok:
  assumes "maps_ok {key} (pollers r) (pollerCancels r) (pollerGenerations r) (goroutines r)"
  shows "pollers_ok (snd (start_poller key policy r))"
  using maps_ok_start [OF assms refl, of "\<lparr>g_poller = NewPoller policy (pollerConfig (Detection (Spec policy))),
      g_cancelled = False, g_returned = False\<rparr>" "Generation policy"]
  by (simp add: start_poller_def Let_def pollers_ok_def NewPoller_def withDefaults_ok)

lemma ensurePoller_ok:
  assumes "pollers_ok r"
  shows "pollers_ok (snd (ensurePoller key policy r))"
proof (cases "map_of (pollers r) key")
  case None
  then have "maps_ok {key} (pollers r) (pollerCancels r) (pollerGenerations r) (goroutines r)"
    using assms maps_ok_none by (simp add: pollers_ok_def)
  then show ?thesis using None start_poller_ok by (simp add: ensurePoller_def)
next
  case (Some j)
  have "pollers_ok (snd (start_poller key policy (cancel_poller key r)))"
    by (rule start_poller_ok) (simp add: cancel_poller_ok [OF assms Some])
  then show ?thesis using assms Some by (simp add: ensurePoller_def)
qed

lemma policy_deleted_ok:
  assumes "pollers_ok r"
  shows "pollers_ok (policy_deleted key r)"
proof -
  let ?r = "r\<lparr>triggerState := AList.delete key (triggerState r)\<rparr>"
  have ok: "pollers_ok ?r" by (rule pollers_ok_view [OF _ assms]) simp
  show ?thesis
  proof (cases "map_of (pollers ?r) key")
    case None
    then have "map_of (pollerCancels r) key = None"
      using maps_ok_D(1) [OF assms [unfolded pollers_ok_def]] by simp
    then show ?thesis using ok by (simp add: policy_deleted_def Let_def)
  next
    case (Some j)
    have "maps_ok {} (AList.delete key (pollers r)) (AList.delete key (pollerCancels r)) (pollerGenerations r)
        (goroutines (cancel_poller key ?r))"
      using maps_ok_delete [OF cancel_poller_ok [OF ok Some]] by simp
    moreover have "map_of (pollerCancels r) key \<noteq> None"
      using Some maps_ok_D(1) [OF assms [unfolded pollers_ok_def]] by simp
    ultimately show ?thesis by (simp add: policy_deleted_def Let_def pollers_ok_def)
  qed
qed

lemma reconcile_policy_ok:
  assumes "pollers_ok r"
  shows "pollers_ok (rec_after (reconcile_policy env key policy r))"
proof (cases "validatePolicy env policy [GetPolicy]")
  case (Pair valid calls)
  show ?thesis
  proof (cases "\<not> valid \<or> (\<exists>e. DetectAndBuild (cluster env) policy = Inl e)")
    case True
    then show ?thesis using Pair assms
      by (cases "DetectAndBuild (cluster env) policy"; cases valid) (auto simp: reconcile_policy_def)
  next
    case False
    then obtain mesh where mesh: "valid" "DetectAndBuild (cluster env) policy = Inr mesh"
      by (cases "DetectAndBuild (cluster env) policy") auto
    obtain st r1 where s1: "ensure_state key r = (st, r1)" by fastforce
    obtain i r2 where s2: "ensurePoller key policy r1 = (i, r2)" by fastforce
    obtain sg av r3 where s3: "read_signals env policy i (run_ticks (late_ticks env) i r2) = (sg, av, r3)"
      by (cases "read_signals env policy i (run_ticks (late_ticks env) i r2)")
    have "rec_after (reconcile_policy env key policy r) =
        rec_after (share_policy (length (goroutines r1) \<le> i) i (switch_and_deliver env key mesh policy st sg av calls r3))"
      using Pair mesh s1 s2 s3 by (simp add: reconcile_policy_def Let_def)
    moreover have "pollers_ok r1" using pollers_ok_view [OF ensure_state_view [OF s1] assms] .
    then have "pollers_ok r2" using ensurePoller_ok [of r1 key policy] s2 by simp
    moreover have "pollers_view r3 = pollers_view r2" using read_signals_view [OF s3] by simp
    ultimately show ?thesis
      using pollers_ok_view switch_and_deliver_view share_policy_ok by metis
  qed
qed

lemma Reconcile_pollers_ok: "pollers_ok r \<Longrightarrow> pollers_ok (rec_after (Reconcile env key r))"
  by (simp add: Reconcile_def reconcile_policy_ok policy_deleted_ok split: get_result.splits)

lemma goroutine_returns_ok:
  assumes "pollers_ok r" "i < length (goroutines r)" "g_cancelled (goroutines r ! i)"
  shows "pollers_ok (r\<lparr>goroutines := (goroutines r)[i := (goroutines r ! i)\<lparr>g_returned := True\<rparr>]\<rparr>)"
proof -
  let ?gs = "(goroutines r)[i := (goroutines r ! i)\<lparr>g_returned := True\<rparr>]"
  note ok = maps_ok_D [OF assms(1) [unfolded pollers_ok_def]]
  have g: "g_cancelled (?gs ! j) = g_cancelled (goroutines r ! j)" "g_poller (?gs ! j) = g_poller (goroutines r ! j)" for j
    using assms(2) by (cases "j = i"; simp)+
  have ne: "j \<noteq> i" if "map_of (pollers r) k = Some j" for k j using ok(4) [OF that] assms(3) by auto
  have ret: "\<not> g_returned (?gs ! j)" if "map_of (pollers r) k = Some j" for k j
    using ok(5) [OF that] ne [OF that] by simp
  show ?thesis using assms(1) ret unfolding pollers_ok_def maps_ok_def by (simp add: g)
qed

lemma sys_step_pollers_ok:
  assumes "sys_step r r'" "pollers_ok r"
  shows "pollers_ok r'"
  using assms(1)
proof cases
  case (sys_reconcile env key)
  then show ?thesis using Reconcile_pollers_ok [OF assms(2)] by simp
next
  case (sys_tick i env)
  then show ?thesis using pollers_ok_view [OF _ assms(2)] by (simp add: goroutine_ticks_def)
next
  case (sys_return i)
  then show ?thesis using goroutine_returns_ok [OF assms(2)] by simp
next
  case (sys_streams ss)
  then show ?thesis using pollers_ok_view [OF _ assms(2)] by simp
qed

lemma running_pollers_ok: "running c r \<Longrightarrow> pollers_ok r"
  unfolding running_def
proof (induction rule: rtranclp_induct)
  case base
  show ?case by (simp add: pollers_ok_def maps_ok_def NewAdaptivePolicyReconciler_def)
next
  case (step y z)
  then show ?case using sys_step_pollers_ok by blast
qed

end
