(* ===== verification/Controller_Calls.thy ===== *)
theory Controller_Calls
  imports Controller_Facts
begin

section \<open>Which API calls a reconcile makes\<close>

text \<open>
  The calls are classified; each stage of \<open>Reconcile\<close> appends calls of known kinds. \<open>switch_outcome\<close>
  describes what \<open>evaluateAndSwitch\<close> can return, and \<open>mesh_contract\<close> gives any selected backend the
  contract of a renderer.
\<close>

fun is_switch :: "api_call \<Rightarrow> bool" where
  "is_switch (SwitchPatch b) = True" | "is_switch c = False"

fun is_apply :: "api_call \<Rightarrow> bool" where
  "is_apply (ApplyObject ob) = True" | "is_apply c = False"

fun is_delete :: "api_call \<Rightarrow> bool" where
  "is_delete (DeleteObject mr) = True" | "is_delete c = False"

fun is_status :: "api_call \<Rightarrow> bool" where
  "is_status (StatusPatch a b) = True" | "is_status c = False"

subsection \<open>Apply, prune, degrade, finish\<close>

lemma apply_all_calls:
  "\<exists>obs'. set obs' \<subseteq> set obs \<and> snd (apply_all env obs calls) = calls @ map ApplyObject obs'"
proof (induction obs arbitrary: calls)
  case (Cons ob obs)
  show ?case
  proof (cases "k_apply (kube env) calls ob")
    case None
    obtain obs' where "set obs' \<subseteq> set obs"
      "snd (apply_all env obs (calls @ [ApplyObject ob])) = (calls @ [ApplyObject ob]) @ map ApplyObject obs'"
      using Cons.IH by blast
    then show ?thesis using None by (intro exI [of _ "ob # obs'"]) auto
  next
    case (Some e)
    then show ?thesis by (intro exI [of _ "[ob]"]) simp
  qed
qed simp

lemma apply_all_done:
  "fst (apply_all env obs calls) = None \<Longrightarrow> snd (apply_all env obs calls) = calls @ map ApplyObject obs"
  by (induction obs arbitrary: calls) (auto split: option.splits)

lemma apply_all_length:
  "length (snd (apply_all env obs calls)) \<le> length calls + length obs"
proof (induction obs arbitrary: calls)
  case (Cons ob obs)
  then show ?case using Cons.IH [of "calls @ [ApplyObject ob]"] by (auto split: option.splits)
qed simp

lemma prune_calls:
  "prune_loop kept prevs calls = calls @ map DeleteObject (filter (\<lambda>m. ref_key m \<notin> ref_key ` set kept) prevs)"
  by (induction prevs arbitrary: calls) auto

definition degraded_status :: "string \<Rightarrow> AdaptivePolicyStatus \<Rightarrow> bool" where
  \<comment> \<open>degraded and not ready, both for this reason\<close>
  "degraded_status reason st \<longleftrightarrow>
     map_option (\<lambda>c. (c_Status c, c_Reason c)) (condition_at (Conditions st) ConditionDegraded) = Some (''True'', reason) \<and>
     map_option (\<lambda>c. (c_Status c, c_Reason c)) (condition_at (Conditions st) ConditionReady) = Some (''False'', reason)"

lemma markDegraded_calls:
  "\<exists>st. snd (snd (markDegraded env policy reason m calls)) = calls @ [StatusPatch (Status policy) st] \<and>
    degraded_status reason st"
proof -
  let ?d = "condition_of ConditionDegraded True reason m (Generation policy)"
  let ?r = "condition_of ConditionReady False reason m (Generation policy)"
  let ?st = "Status policy\<lparr>Conditions := setCondition (cond_now env 1) ?r
    (setCondition (cond_now env 0) ?d (Conditions (Status policy)))\<rparr>"
  have "degraded_status reason ?st"
    using setCondition_entry [of "cond_now env 1" ?r "setCondition (cond_now env 0) ?d (Conditions (Status policy))"]
      setCondition_entry [of "cond_now env 0" ?d "Conditions (Status policy)"]
    by (simp add: degraded_status_def)
  moreover have "snd (snd (markDegraded env policy reason m calls)) = calls @ [StatusPatch (Status policy) ?st]"
    by (simp add: markDegraded_def update_status_def Let_def split: sum.splits)
  ultimately show ?thesis by blast
qed

lemma degraded_return_calls:
  "\<exists>st. api_calls (degraded_return env policy reason m d calls r) = calls @ [StatusPatch (Status policy) st] \<and>
    degraded_status reason st"
  using markDegraded_calls [of env policy reason m calls] by (auto simp: degraded_return_def split: prod.splits)

lemma finish_calls:
  "api_calls (finish env key policy ob st calls sent r) =
    calls @ [StatusPatch (Status policy) (snd (new_status env policy ob st))]"
  "received (finish env key policy ob st calls sent r) = sent"
  by (simp_all add: finish_def Let_def split: prod.splits)

lemma scrapeInterval_pos: "second \<le> scrapeInterval policy"
proof -
  have "second \<le> sint (n :: int32) * second" if "0 < sint n" for n
    using that by (simp add: second_def)
  then show ?thesis by (auto simp: scrapeInterval_def second_def split: option.splits)
qed

lemma finish_requeue: "second \<le> requeue_after (finish env key policy ob st calls sent r)"
  by (simp add: finish_def Let_def scrapeInterval_pos split: prod.splits sum.splits)

subsection \<open>The renderer's contract, for whichever backend was selected\<close>

lemma mesh_contract:
  assumes "DetectAndBuild c policy = Inr mesh"
  shows "renderer_contract (r_Render mesh)"
proof -
  have "mesh = IstioRenderer \<or> mesh = CiliumRenderer"
    using assms by (auto simp: DetectAndBuild_def detect_def split: if_splits sum.splits)
  then show ?thesis using istio.renderer_contract_axioms cilium.renderer_contract_axioms
    by (auto simp: IstioRenderer_def CiliumRenderer_def)
qed

context renderer_contract
begin

text \<open>The last sections of \<open>Reconcile\<close>, over any backend that keeps the contract: what they add to the calls.\<close>

lemma deliver_calls:
  assumes "r_Render mesh = render"
  shows "\<exists>applied pruned st. api_calls (render_and_deliver env key mesh policy sg av orig sw calls r) =
      calls @ map ApplyObject applied @ map DeleteObject pruned @ [StatusPatch (Status policy) st] \<and>
    (sw_switched sw \<longrightarrow> applied = []) \<and>
    list_all (owned_by policy) applied \<and>
    set pruned \<subseteq> set (ManagedResources (Status policy)) \<and>
    (\<forall>ob \<in> set applied. \<forall>mr \<in> set pruned. ref_key (ref_of ob) \<noteq> ref_key mr)"
proof -
  obtain res where res: "render (selector_order env) policy = Inr res" using total by blast
  let ?pruned = "filter (\<lambda>m. ref_key m \<notin> ref_key ` set (ManagedResourceRefs res)) (ManagedResources (Status policy))"
  obtain err calls1 where ap: "(if sw_switched sw then (None, calls) else apply_all env (Resources res) calls) =
      (err, calls1)" by fastforce
  obtain applied where applied: "set applied \<subseteq> set (Resources res)" "calls1 = calls @ map ApplyObject applied"
    "sw_switched sw \<longrightarrow> applied = []"
    using ap apply_all_calls [of "Resources res" env calls] by (cases "sw_switched sw") force+
  have own: "list_all (owned_by policy) applied"
    using owned [OF res] applied(1) by (auto simp: list_all_iff)
  have keep: "ref_key (ref_of ob) \<noteq> ref_key mr" if "ob \<in> set applied" "mr \<in> set ?pruned" for ob mr
  proof -
    have "ref_key (ref_of ob) \<in> ref_key ` set (ManagedResourceRefs res)"
      using that(1) applied(1) refs [OF res] by auto
    then show ?thesis using that(2) by auto
  qed
  show ?thesis
  proof (cases err)
    case None
    then have "\<exists>st. api_calls (render_and_deliver env key mesh policy sg av orig sw calls r) =
        calls1 @ map DeleteObject ?pruned @ [StatusPatch (Status policy) st]"
      using ap res by (simp add: render_and_deliver_def assms Let_def finish_calls pruneOrphanedResources_def
          prune_calls split: prod.splits)
    then show ?thesis using applied own keep
      by (metis (no_types, lifting) append.assoc filter_is_subset)
  next
    case (Some e)
    obtain st where "api_calls (degraded_return env policy ''ApplyFailed'' e (15 * second) calls1 r) =
        calls1 @ [StatusPatch (Status policy) st]" using degraded_return_calls by blast
    then have "api_calls (render_and_deliver env key mesh policy sg av orig sw calls r) =
        calls @ map ApplyObject applied @ map DeleteObject [] @ [StatusPatch (Status policy) st]"
      using Some ap res applied(2) by (simp add: render_and_deliver_def assms)
    then show ?thesis using applied own by (metis empty_iff empty_set empty_subsetI)
  qed
qed

lemma deliver_length:
  assumes "r_Render mesh = render"
  shows "length (api_calls (render_and_deliver env key mesh policy sg av orig sw calls r)) \<le>
    length calls + (if sw_switched sw then 0 else 5) + length (ManagedResources (Status policy)) + 1"
proof -
  obtain res where res: "render (selector_order env) policy = Inr res" using total by blast
  obtain err calls1 where ap: "(if sw_switched sw then (None, calls) else apply_all env (Resources res) calls) =
      (err, calls1)" by fastforce
  have l: "length calls1 \<le> length calls + (if sw_switched sw then 0 else 5)"
    using ap apply_all_length [of env "Resources res" calls] few [OF res] by (auto split: if_splits)
  have p: "length (pruneOrphanedResources policy kept calls1) \<le>
      length calls + (if sw_switched sw then 0 else 5) + length (ManagedResources (Status policy))" for kept
    using l length_filter_le [of "\<lambda>m. ref_key m \<notin> ref_key ` set kept" "ManagedResources (Status policy)"]
    unfolding pruneOrphanedResources_def prune_calls length_append length_map by linarith
  show ?thesis
  proof (cases err)
    case None
    then have "\<exists>st. api_calls (render_and_deliver env key mesh policy sg av orig sw calls r) =
        pruneOrphanedResources policy (ManagedResourceRefs res) calls1 @ [StatusPatch (Status policy) st]"
      using ap res by (simp add: render_and_deliver_def assms Let_def finish_calls split: prod.splits)
    then obtain st where "api_calls (render_and_deliver env key mesh policy sg av orig sw calls r) =
        pruneOrphanedResources policy (ManagedResourceRefs res) calls1 @ [StatusPatch (Status policy) st]" ..
    then show ?thesis using p [of "ManagedResourceRefs res"] by simp
  next
    case (Some e)
    obtain st where "api_calls (degraded_return env policy ''ApplyFailed'' e (15 * second) calls1 r) =
        calls1 @ [StatusPatch (Status policy) st]" using degraded_return_calls by blast
    then have "api_calls (render_and_deliver env key mesh policy sg av orig sw calls r) =
        calls1 @ [StatusPatch (Status policy) st]" using Some ap res by (simp add: render_and_deliver_def assms)
    then show ?thesis using l by simp
  qed
qed

lemma deliver_requeues:
  assumes "r_Render mesh = render"
  shows "rec_error (render_and_deliver env key mesh policy sg av orig sw calls r) = None \<and>
    second \<le> requeue_after (render_and_deliver env key mesh policy sg av orig sw calls r)"
proof -
  obtain res where res: "render (selector_order env) policy = Inr res" using total by blast
  have "second \<le> 15 * second" by (simp add: second_def)
  with res show ?thesis
    by (simp add: render_and_deliver_def assms Let_def finish_requeue split: prod.splits option.splits)
qed

end

subsection \<open>The switch\<close>

datatype switch_kind = Unchanged | Refused string | Switched

definition switch_outcome :: "rec_env \<Rightarrow> AdaptivePolicy \<Rightarrow> Signals \<Rightarrow> State \<Rightarrow> api_call list \<Rightarrow> switch_result \<Rightarrow>
    switch_kind \<Rightarrow> bool" where
  "switch_outcome env policy sg st calls sw k \<longleftrightarrow> (case k of
     Unchanged \<Rightarrow> \<not> sw_switched sw \<and> sw_error sw = None \<and> sw_policy sw = policy \<and> sw_log sw = calls \<and>
       \<not> ShouldSwitch (sw_decision sw)
   | _ \<Rightarrow> \<not> IsHumanOverrideEnabled policy \<and> ShouldSwitch (sw_decision sw) \<and>
       Evaluate policy sg (eval_clock env) st = (sw_decision sw, sw_state sw) \<and>
       sw_log sw = calls @ [SwitchPatch (switch_patch (isprint env) (TargetProfile (sw_decision sw))
         (ActiveProfile (Spec policy)))] \<and>
       (let answer = k_switch (kube env) calls policy (switch_patch (isprint env) (TargetProfile (sw_decision sw))
              (ActiveProfile (Spec policy)))
        in case k of Refused e \<Rightarrow> answer = Inl e \<and> \<not> sw_switched sw \<and> sw_policy sw = policy \<and>
             sw_error sw = Some (''patching activeProfile: '' @ e)
         | _ \<Rightarrow> answer = Inr (sw_policy sw) \<and> sw_switched sw \<and> sw_error sw = None))"

lemma evaluateAndSwitch_outcome:
  "\<exists>k. switch_outcome env policy sg st calls (evaluateAndSwitch env policy sg st calls) k"
proof -
  let ?sw = "evaluateAndSwitch env policy sg st calls"
  obtain d st' where ev: "Evaluate policy sg (eval_clock env) st = (d, st')" by fastforce
  let ?patch = "switch_patch (isprint env) (TargetProfile d) (ActiveProfile (Spec policy))"
  consider "IsHumanOverrideEnabled policy \<or> \<not> HasTriggers policy \<or> \<not> ShouldSwitch d"
    | e where "\<not> IsHumanOverrideEnabled policy" "HasTriggers policy" "ShouldSwitch d"
        "k_switch (kube env) calls policy ?patch = Inl e"
    | p where "\<not> IsHumanOverrideEnabled policy" "HasTriggers policy" "ShouldSwitch d"
        "k_switch (kube env) calls policy ?patch = Inr p"
    by (cases "k_switch (kube env) calls policy ?patch") auto
  then show ?thesis
  proof cases
    case 1
    then have "switch_outcome env policy sg st calls ?sw Unchanged"
      using ev by (auto simp: evaluateAndSwitch_def switch_outcome_def Let_def)
    then show ?thesis by blast
  next
    case (2 e)
    then have "switch_outcome env policy sg st calls ?sw (Refused e)"
      using ev by (simp add: evaluateAndSwitch_def switch_outcome_def Let_def)
    then show ?thesis by blast
  next
    case (3 p)
    then have "switch_outcome env policy sg st calls ?sw Switched"
      using ev by (simp add: evaluateAndSwitch_def switch_outcome_def Let_def)
    then show ?thesis by blast
  qed
qed

lemma evaluateAndSwitch_no_samples:
  "SampleCount sg = 0 \<Longrightarrow> sw_state (evaluateAndSwitch env policy sg st calls) = st \<and>
    \<not> sw_switched (evaluateAndSwitch env policy sg st calls) \<and> sw_log (evaluateAndSwitch env policy sg st calls) = calls"
  using Evaluate_guarded [of sg policy "eval_clock env" st]
  by (cases "Evaluate policy sg (eval_clock env) st") (simp add: evaluateAndSwitch_def Let_def)

end
