(* ===== verification/Controller_Props.thy ===== *)
theory Controller_Props
  imports Controller_Calls
begin

section \<open>Properties of Reconcile\<close>

text \<open>
  What one reconcile can do to the cluster, whatever the API server, the mesh and the pods answer: which
  policies it refuses, when it patches the active profile and with what, what it applies and deletes, and
  that it always comes back.
\<close>

subsection \<open>A sample reconciler\<close>

definition managed_policy :: "string \<Rightarrow> AdaptivePolicy" where
  \<comment> \<open>the sample policy on Istio with streaming protection, in the given profile\<close>
  "managed_policy cur = (sample_policy cur)\<lparr>Spec := sample_spec\<lparr>ActiveProfile := cur,
     MeshBackendField := ''istio'', StreamingProtection := Some \<lparr>sp_Enabled = True,
     sp_MaxConcurrentStreams = 100, sp_StreamTimeoutSeconds = 300, sp_MaxPendingRequests = 50\<rparr>\<rparr>\<rparr>"

definition no_pods :: scrape_env where
  "no_pods = \<lparr>list_pods = (\<lambda>_ _. Inr []), http_get = (\<lambda>_ _. DoErr ''timeout''), clock = int,
     class_order = (\<lambda>xs. xs), int64_of = (\<lambda>_. 0)\<rparr>"

definition calm_env :: "AdaptivePolicy \<Rightarrow> rec_env" where
  \<comment> \<open>every API call succeeds, there are no pods, and the mesh is found by the policy's own setting\<close>
  "calm_env p = \<lparr>kube = \<lparr>k_get = (\<lambda>_. Got p), k_switch = (\<lambda>_ q _. Inr q), k_apply = (\<lambda>_ _. None),
       k_status = (\<lambda>_ q. Inr q)\<rparr>,
     scrape = no_pods, late_ticks = [],
     cluster = \<lparr>cluster_pods = (\<lambda>_ _. Inr []), cluster_daemonsets = (\<lambda>_ _. Inr [])\<rparr>,
     rtds = \<lparr>pack_error = (\<lambda>_ _. None), stream_order = (\<lambda>xs. xs), layer_order = (\<lambda>xs. xs),
       ctx_closed = (\<lambda>_. False), send_error = (\<lambda>_ _. None)\<rparr>,
     eval_clock = (\<lambda>_. 7), signal_now = 8, status_now = 9, cond_now = (\<lambda>n. 10 + int n),
     selector_order = (\<lambda>xs. xs), layers_order = (\<lambda>xs. xs), names_order = (\<lambda>xs. xs), isprint = (\<lambda>_. False)\<rparr>"

lemma calm_orders [simp]: "orders_ok (calm_env p)"
  by (simp add: orders_ok_def calm_env_def no_pods_def)

definition sample_key :: string where "sample_key = ''shop/checkout''"

definition sample_reconciler :: "AdaptivePolicy \<Rightarrow> Signals option \<Rightarrow> Reconciler" where
  \<comment> \<open>a controller whose poller for the policy holds the given signal\<close>
  "sample_reconciler p sg = (NewAdaptivePolicyReconciler None)\<lparr>pollers := [(sample_key, 0)],
     pollerCancels := [(sample_key, 0)], pollerGenerations := [(sample_key, Generation p)],
     goroutines := [\<lparr>g_poller = (NewPoller p (pollerConfig None))\<lparr>out := sg\<rparr>, g_cancelled = False,
       g_returned = False\<rparr>]\<rparr>"

lemma managed_backend [simp]: "DetectAndBuild c (managed_policy cur) = Inr IstioRenderer"
  by (simp add: DetectAndBuild_def EffectiveMeshBackend_def managed_policy_def MeshBackendIstio_def sample_defs)

subsection \<open>The shape of a reconcile\<close>

definition well_formed :: "AdaptivePolicy \<Rightarrow> bool" where
  "well_formed p \<longleftrightarrow>
     (HasAdmissionControl p \<or> HasAdaptiveConcurrency p \<or> HasStreamingProtection p) \<and>
     (ActiveProfile (Spec p) = [] \<or> ActiveProfile (Spec p) \<in> fst ` set (Profiles (Spec p))) \<and>
     tr_SwitchTo ` set (Triggers (Spec p)) \<subseteq> fst ` set (Profiles (Spec p)) \<and>
     sch_SwitchTo ` set (Schedules (Spec p)) \<subseteq> fst ` set (Profiles (Spec p))"

lemma invalid_trigger_None: "invalid_trigger ps ts = None \<longleftrightarrow> tr_SwitchTo ` set ts \<subseteq> fst ` set ps"
  by (induction ts) (auto simp: map_of_eq_None_iff)

lemma invalid_schedule_None: "invalid_schedule ps ss = None \<longleftrightarrow> sch_SwitchTo ` set ss \<subseteq> fst ` set ps"
  by (induction ss) (auto simp: map_of_eq_None_iff)

lemma violation_None: "violation env p = None \<longleftrightarrow> well_formed p"
proof -
  have "violation env p = None \<longleftrightarrow>
      (HasAdmissionControl p \<or> HasAdaptiveConcurrency p \<or> HasStreamingProtection p) \<and>
      (ActiveProfile (Spec p) = [] \<or> map_of (Profiles (Spec p)) (ActiveProfile (Spec p)) \<noteq> None) \<and>
      invalid_trigger (Profiles (Spec p)) (Triggers (Spec p)) = None \<and>
      invalid_schedule (Profiles (Spec p)) (Schedules (Spec p)) = None"
    by (auto simp: violation_def Let_def split: option.splits)
  then show ?thesis
    unfolding well_formed_def invalid_trigger_None invalid_schedule_None by (simp add: map_of_eq_None_iff)
qed

lemma managed_well_formed: "cur \<in> {''open'', ''strict''} \<Longrightarrow> well_formed (managed_policy cur)"
  by (auto simp: well_formed_def managed_policy_def sample_defs HasStreamingProtection_def)

lemma detection_lists_length: "length (detection_lists c policy) \<le> 2"
  by (simp add: detection_lists_def)

lemma signal_lists_length: "length (signal_lists policy i r) \<le> 1"
  by (simp add: signal_lists_def split: option.split)

lemma reconcile_cases:
  obtains (refused) reason m where "violation env policy = Some (reason, m)"
      "reconcile_policy env key policy r =
        rec_done None (30 * second) None (snd (snd (markDegraded env policy reason m [GetPolicy]))) r"
  | (no_mesh) e ls where "well_formed policy" "DetectAndBuild (cluster env) policy = Inl e"
      "reconcile_policy env key policy r =
        (degraded_return env policy ''MeshDetectionFailed'' e (30 * second) [GetPolicy] r)\<lparr>list_calls := ls\<rparr>"
      "length ls \<le> 2"
  | (meshed) mesh st r1 i r2 sg av r3 ls where "well_formed policy"
      "DetectAndBuild (cluster env) policy = Inr mesh" "ensure_state key r = (st, r1)"
      "ensurePoller key policy r1 = (i, r2)"
      "read_signals env policy i (run_ticks (late_ticks env) i r2) = (sg, av, r3)"
      "reconcile_policy env key policy r = (share_policy (length (goroutines r1) \<le> i) i
        (switch_and_deliver env key mesh policy st sg av [GetPolicy] r3))\<lparr>list_calls := ls\<rparr>" "length ls \<le> 3"
proof (cases "violation env policy")
  case (Some v)
  then show ?thesis
    by (cases v) (rule refused, auto simp: reconcile_policy_def validatePolicy_def split: prod.splits)
next
  case None
  then have wf: "well_formed policy" by (simp add: violation_None)
  show ?thesis
  proof (cases "DetectAndBuild (cluster env) policy")
    case (Inl e)
    then show ?thesis using None wf detection_lists_length
      by (intro no_mesh [of e "detection_lists (cluster env) policy"]) (simp_all add: reconcile_policy_def validatePolicy_def)
  next
    case (Inr mesh)
    obtain st r1 where s1: "ensure_state key r = (st, r1)" by fastforce
    obtain i r2 where s2: "ensurePoller key policy r1 = (i, r2)" by fastforce
    obtain sg av r3 where s3: "read_signals env policy i (run_ticks (late_ticks env) i r2) = (sg, av, r3)"
      by (cases "read_signals env policy i (run_ticks (late_ticks env) i r2)")
    let ?ls = "detection_lists (cluster env) policy @ signal_lists policy i (run_ticks (late_ticks env) i r2)"
    have "length ?ls \<le> 3"
      using detection_lists_length [of "cluster env" policy] signal_lists_length [of policy i "run_ticks (late_ticks env) i r2"]
      by simp
    then show ?thesis using None s1 s2 s3 Inr
      by (intro meshed [OF wf Inr s1 s2 s3, of ?ls]) (simp_all add: reconcile_policy_def validatePolicy_def Let_def)
  qed
qed

lemma switch_and_deliver_cases:
  fixes env key mesh policy st sg av calls r
  defines "sw \<equiv> evaluateAndSwitch env policy sg st calls"
    and "rec \<equiv> switch_and_deliver env key mesh policy st sg av calls r"
    and "orig \<equiv> ActiveProfile (Spec policy)"
  obtains (kept) "\<not> sw_switched sw"
      "rec = render_and_deliver env key mesh policy sg av orig sw (sw_log sw) (store_state key (sw_state sw) r)"
  | (refetched) p where "sw_switched sw" "k_get (kube env) (sw_log sw) = Got p"
      "rec = render_and_deliver env key mesh p sg av orig sw (sw_log sw @ [GetPolicy]) (store_state key (sw_state sw) r)"
  | (gone) e where "sw_switched sw" "\<And>p. k_get (kube env) (sw_log sw) \<noteq> Got p"
      "rec = rec_done (Some (sw_policy sw)) 0 e (sw_log sw @ [GetPolicy]) (store_state key (sw_state sw) r)"
proof (cases "sw_switched sw")
  case False
  obtain k where "switch_outcome env policy sg st calls sw k"
    using evaluateAndSwitch_outcome unfolding sw_def by blast
  then have "sw_policy sw = policy" using False by (cases k) (auto simp: switch_outcome_def)
  then show ?thesis using False by (intro kept) (simp_all add: rec_def sw_def orig_def switch_and_deliver_def Let_def)
next
  case True
  show ?thesis
  proof (cases "k_get (kube env) (sw_log sw)")
    case (Got p)
    then show ?thesis using True
      by (intro refetched [of p]) (simp_all add: rec_def sw_def orig_def switch_and_deliver_def Let_def)
  next
    case NotFound
    then show ?thesis using True
      by (intro gone [of None]) (simp_all add: rec_def sw_def orig_def switch_and_deliver_def Let_def)
  next
    case (GetFailed e)
    then show ?thesis using True
      by (intro gone [of "Some e"]) (simp_all add: rec_def sw_def orig_def switch_and_deliver_def Let_def)
  qed
qed

lemma meshed_calls:
  fixes env key mesh policy st sg av calls r
  defines "sw \<equiv> evaluateAndSwitch env policy sg st calls"
  assumes "renderer_contract (r_Render mesh)"
  shows "\<exists>rest. api_calls (switch_and_deliver env key mesh policy st sg av calls r) = sw_log sw @ rest \<and>
    filter is_switch rest = [] \<and> (sw_switched sw \<longrightarrow> filter is_apply rest = [])"
proof -
  have no_switch: "filter is_switch (map ApplyObject a @ map DeleteObject d @ [StatusPatch x y]) = []" for a d x y
    by (induction a; induction d) simp_all
  have no_apply: "filter is_apply (map DeleteObject d @ [StatusPatch x y]) = []" for d x y
    by (induction d) simp_all
  note deliver = renderer_contract.deliver_calls [OF assms(2) refl, where env = env and key = key and sg = sg and av = av]
  show ?thesis
    using switch_and_deliver_cases [where env = env and key = key and mesh = mesh and policy = policy and st = st
        and sg = sg and av = av and calls = calls and r = r]
  proof cases
    case kept
    then show ?thesis using deliver no_switch unfolding sw_def by metis
  next
    case (refetched p)
    let ?rec = "switch_and_deliver env key mesh policy st sg av calls r"
    obtain pruned x where "api_calls ?rec = (sw_log sw @ [GetPolicy]) @ map DeleteObject pruned @ [StatusPatch (Status p) x]"
      using deliver [where policy = p and sw = sw and calls = "sw_log sw @ [GetPolicy]" and
          orig = "ActiveProfile (Spec policy)" and r = "store_state key (sw_state sw) r"] refetched
      by (auto simp: sw_def)
    moreover have "filter is_switch (map DeleteObject pruned @ [StatusPatch (Status p) x]) = []"
      using no_switch [of "[]" pruned] by simp
    ultimately show ?thesis using no_apply by simp
  next
    case (gone e)
    then show ?thesis by (simp add: sw_def)
  qed
qed

lemma refused_calls:
  "\<exists>st. api_calls (rec_done None d None (snd (snd (markDegraded env policy reason m [GetPolicy]))) r) =
    [GetPolicy, StatusPatch (Status policy) st] \<and> degraded_status reason st"
  using markDegraded_calls [of env policy reason m "[GetPolicy]"] by auto

lemma switch_call_outcome:
  assumes "SwitchPatch b \<in> set (api_calls (Reconcile env key r))"
  obtains policy mesh st i r2 sg av r3 k where "k_get (kube env) [] = Got policy" "well_formed policy"
    "DetectAndBuild (cluster env) policy = Inr mesh"
    "switch_outcome env policy sg st [GetPolicy] (evaluateAndSwitch env policy sg st [GetPolicy]) k" "k \<noteq> Unchanged"
    "api_calls (Reconcile env key r) = api_calls (switch_and_deliver env key mesh policy st sg av [GetPolicy] r3)"
    "read_signals env policy i r2 = (sg, av, r3)"
proof (cases "k_get (kube env) []")
  case (Got policy)
  then have rec: "Reconcile env key r = reconcile_policy env key policy r" by (simp add: Reconcile_def)
  show ?thesis
    using reconcile_cases [of env policy key r]
  proof cases
    case (refused reason m)
    then show ?thesis using assms rec refused_calls [of "30 * second" env policy reason m r] by auto
  next
    case (no_mesh e)
    then show ?thesis using assms rec
        degraded_return_calls [of env policy "''MeshDetectionFailed''" e "30 * second" "[GetPolicy]" r] by auto
  next
    case (meshed mesh st r1 i r2 sg av r3)
    let ?sw = "evaluateAndSwitch env policy sg st [GetPolicy]"
    obtain rest where rest: "api_calls (Reconcile env key r) = sw_log ?sw @ rest" "filter is_switch rest = []"
      using meshed_calls [OF mesh_contract [OF meshed(2)], of env key policy st sg av "[GetPolicy]" r3] rec meshed(6)
      by auto
    have "SwitchPatch b \<notin> set rest" using rest(2) by (auto simp: filter_empty_conv)
    then have sw: "SwitchPatch b \<in> set (sw_log ?sw)" using assms rest(1) by auto
    obtain k where k: "switch_outcome env policy sg st [GetPolicy] ?sw k" using evaluateAndSwitch_outcome by blast
    have "k \<noteq> Unchanged" using k sw by (auto simp: switch_outcome_def)
    with k rec meshed Got show ?thesis by (intro that [of policy mesh sg st k av r3]) simp_all
  qed
qed (use assms in \<open>simp_all add: Reconcile_def\<close>)

subsection \<open>The active profile\<close>

text \<open>C2. The controller patches the active profile only as the policy allows: if a reconcile sends a profile
  patch at all, then the policy it fetched exists, is well formed and carries no human override, the
  patch is the one for the target of one of its triggers, that target is a defined profile other than
  the active one, the patch records the active profile as the previous one, the signals it acted on have
  samples and meet the trigger's condition, and it is the only profile patch of the reconcile.\<close>

theorem Reconcile_switch_safe:
  assumes "SwitchPatch b \<in> set (api_calls (Reconcile env key r))"
  shows "\<exists>policy sg t. k_get (kube env) [] = Got policy \<and> well_formed policy \<and> \<not> IsHumanOverrideEnabled policy \<and>
    t \<in> set (Triggers (Spec policy)) \<and> tr_SwitchTo t \<in> fst ` set (Profiles (Spec policy)) \<and>
    tr_SwitchTo t \<noteq> ActiveProfile (Spec policy) \<and> SampleCount sg \<noteq> 0 \<and> holds sg t \<and>
    b = switch_patch (isprint env) (tr_SwitchTo t) (ActiveProfile (Spec policy)) \<and>
    filter is_switch (api_calls (Reconcile env key r)) = [SwitchPatch b]"
  using assms
proof (rule switch_call_outcome)
  fix policy mesh st i r2 sg av r3 k
  let ?sw = "evaluateAndSwitch env policy sg st [GetPolicy]"
  let ?b = "switch_patch (isprint env) (TargetProfile (sw_decision ?sw)) (ActiveProfile (Spec policy))"
  assume p: "k_get (kube env) [] = Got policy" "well_formed policy" "DetectAndBuild (cluster env) policy = Inr mesh"
    and k: "switch_outcome env policy sg st [GetPolicy] ?sw k" "k \<noteq> Unchanged"
    and rec: "api_calls (Reconcile env key r) = api_calls (switch_and_deliver env key mesh policy st sg av [GetPolicy] r3)"
  have o: "\<not> IsHumanOverrideEnabled policy" "ShouldSwitch (sw_decision ?sw)" "sw_log ?sw = [GetPolicy, SwitchPatch ?b]"
    "Evaluate policy sg (eval_clock env) st = (sw_decision ?sw, sw_state ?sw)"
    using k by (cases k; auto simp: switch_outcome_def)+
  obtain rest where "api_calls (Reconcile env key r) = [GetPolicy, SwitchPatch ?b] @ rest" "filter is_switch rest = []"
    using meshed_calls [OF mesh_contract [OF p(3)], of env key policy st sg av "[GetPolicy]" r3] rec o(3) by auto
  then have f: "filter is_switch (api_calls (Reconcile env key r)) = [SwitchPatch ?b]" by simp
  moreover have "SwitchPatch b \<in> set (filter is_switch (api_calls (Reconcile env key r)))" using assms by simp
  ultimately have b: "b = ?b" by simp
  from Evaluate_safe [OF o(4,2)] obtain t where t: "SampleCount sg \<noteq> 0" "t \<in> set (Triggers (Spec policy))"
    "TargetProfile (sw_decision ?sw) = tr_SwitchTo t" "tr_SwitchTo t \<noteq> ActiveProfile (Spec policy)" "holds sg t" by blast
  moreover have "tr_SwitchTo t \<in> fst ` set (Profiles (Spec policy))" using p(2) t(2) by (auto simp: well_formed_def)
  ultimately show ?thesis using p(1,2) o(1) b f by metis
qed

definition recovering :: Reconciler where
  \<comment> \<open>the poller of a policy in its strict profile reports a fully recovered service\<close>
  "recovering = sample_reconciler (managed_policy ''strict'') (Some (sample_signals 100))"

lemma recovering_switches:
  "filter is_switch (api_calls (Reconcile (calm_env (managed_policy ''strict'')) sample_key recovering)) =
    [SwitchPatch (switch_patch (\<lambda>_. False) ''open'' ''strict'')]"
  by code_simp

lemma recovering_patch:
  "SwitchPatch (switch_patch (\<lambda>_. False) ''open'' ''strict'') \<in>
    set (api_calls (Reconcile (calm_env (managed_policy ''strict'')) sample_key recovering))"
proof -
  have "SwitchPatch (switch_patch (\<lambda>_. False) ''open'' ''strict'') \<in>
      set (filter is_switch (api_calls (Reconcile (calm_env (managed_policy ''strict'')) sample_key recovering)))"
    unfolding recovering_switches by simp
  then show ?thesis by (simp only: set_filter mem_Collect_eq)
qed

theorem Reconcile_switch_safe_witness:
  "\<exists>b sg. SwitchPatch b \<in> set (api_calls (Reconcile (calm_env (managed_policy ''strict'')) sample_key recovering)) \<and>
    b = switch_patch (\<lambda>_. False) ''open'' ''strict'' \<and> holds sg above99"
proof -
  let ?b = "switch_patch (\<lambda>_. False) ''open'' ''strict''"
  note m = recovering_patch
  from Reconcile_switch_safe [OF m] obtain sg t where
    "t \<in> set (Triggers (Spec (managed_policy ''strict'')))" "tr_SwitchTo t \<noteq> ''strict''" "holds sg t"
    by (auto simp: calm_env_def managed_policy_def)
  then have "holds sg above99" by (auto simp: managed_policy_def sample_spec_def below95_def)
  with m show ?thesis by blast
qed

subsection \<open>Switches that do not arrive\<close>

lemma client_kept [simp]:
  "rtdsClient (set_poller i p r) = rtdsClient r" "rtdsClient (run_ticks envs i r) = rtdsClient r"
  "rtdsClient (store_state key st r) = rtdsClient r" "rtdsClient (cancel_poller key r) = rtdsClient r"
  "rtdsClient (snd (ensurePoller key policy r)) = rtdsClient r"
  by (simp_all add: set_poller_def run_ticks_def store_state_def cancel_poller_def ensurePoller_def start_poller_def
      Let_def split: option.splits prod.splits)

lemma ensure_state_client: "ensure_state key r = (st, r') \<Longrightarrow> rtdsClient r' = rtdsClient r"
  by (auto simp: ensure_state_def split: option.splits)

lemma ensurePoller_client: "ensurePoller key policy r = (i, r') \<Longrightarrow> rtdsClient r' = rtdsClient r"
  using client_kept(5) [of key policy r] by simp

lemma read_signals_client: "read_signals env policy i r = (sg, av, r') \<Longrightarrow> rtdsClient r' = rtdsClient r"
  by (auto simp: read_signals_def Let_def split: option.splits prod.splits)

lemma degraded_return_received [simp]: "received (degraded_return env policy reason m d calls r) = []"
  by (simp add: degraded_return_def rec_done_def split: prod.splits)

lemma deliver_without_client:
  "rtdsClient r = None \<Longrightarrow> received (render_and_deliver env key mesh policy sg av orig sw calls r) = []"
  by (auto simp: render_and_deliver_def Let_def push_layers_def register_layers_def finish_calls
      split: sum.splits prod.splits option.splits)

lemma switch_without_client:
  "rtdsClient r = None \<Longrightarrow> received (switch_and_deliver env key mesh policy st sg av calls r) = []"
  by (auto simp: switch_and_deliver_def Let_def deliver_without_client rec_done_def split: get_result.splits)

lemma Reconcile_without_client:
  assumes "rtdsClient r = None"
  shows "received (Reconcile env key r) = []"
proof (cases "k_get (kube env) []")
  case (Got policy)
  show ?thesis
    using reconcile_cases [of env policy key r]
  proof cases
    case (meshed mesh st r1 i r2 sg av r3)
    have "rtdsClient r3 = None"
      using assms ensure_state_client [OF meshed(3)] ensurePoller_client [OF meshed(4)] read_signals_client [OF meshed(5)]
      by simp
    then show ?thesis using Got meshed(6) switch_without_client by (simp add: Reconcile_def)
  qed (use Got in \<open>simp_all add: Reconcile_def rec_done_def\<close>)
qed (simp_all add: Reconcile_def rec_done_def)

text \<open>C35. Without a runtime client a profile switch reaches no proxy in the reconcile that makes it: when the
  profile patch is accepted, the reconcile applies none of the rendered objects and pushes nothing; the new
  profile is rendered only by some later reconcile.\<close>

theorem switch_without_RTDS_delivers_nothing:
  assumes "SwitchPatch b \<in> set (api_calls (Reconcile env key r))" "rtdsClient r = None"
    and "\<And>calls p c. \<exists>q. k_switch (kube env) calls p c = Inr q"
  shows "filter is_apply (api_calls (Reconcile env key r)) = [] \<and> received (Reconcile env key r) = []"
proof
  show "received (Reconcile env key r) = []" by (rule Reconcile_without_client [OF assms(2)])
  from assms(1) show "filter is_apply (api_calls (Reconcile env key r)) = []"
  proof (rule switch_call_outcome)
    fix policy mesh st i r2 sg av r3 k
    let ?sw = "evaluateAndSwitch env policy sg st [GetPolicy]"
    assume mesh: "DetectAndBuild (cluster env) policy = Inr mesh"
      and k: "switch_outcome env policy sg st [GetPolicy] ?sw k" "k \<noteq> Unchanged"
      and rec: "api_calls (Reconcile env key r) = api_calls (switch_and_deliver env key mesh policy st sg av [GetPolicy] r3)"
    have "k \<noteq> Refused e" for e using k(1) assms(3) by (auto simp: switch_outcome_def Let_def) (metis Inl_Inr_False)
    then have "k = Switched" using k(2) by (cases k) auto
    then have "sw_switched ?sw" "filter is_apply (sw_log ?sw) = []" using k(1) by (auto simp: switch_outcome_def)
    then show ?thesis
      using meshed_calls [OF mesh_contract [OF mesh], of env key policy st sg av "[GetPolicy]" r3] rec by auto
  qed
qed

theorem switch_without_RTDS_delivers_nothing_witness:
  "filter is_apply (api_calls (Reconcile (calm_env (managed_policy ''strict'')) sample_key recovering)) = []"
proof -
  show ?thesis
    using switch_without_RTDS_delivers_nothing [OF recovering_patch]
    by (simp add: recovering_def sample_reconciler_def NewAdaptivePolicyReconciler_def calm_env_def)
qed

text \<open>C36. A refused profile patch still costs the cooldown: when a trigger fires and the API server rejects the
  patch, the policy is unchanged and the error is reported, but the trigger's fire time is already recorded,
  so that trigger is in cooldown for its whole cooldown period although nothing was switched.\<close>

theorem refused_switch_starts_cooldown:
  assumes "\<not> IsHumanOverrideEnabled policy" "eval_clock env = (\<lambda>_. now)"
    and "Evaluate policy sg (\<lambda>_. now) st = (d, st')" "ShouldSwitch d"
    and "\<And>patch. k_switch (kube env) calls policy patch = Inl e"
  shows "\<exists>t \<in> set (Triggers (Spec policy)). tr_Name t = d_TriggerName d \<and>
    sw_error (evaluateAndSwitch env policy sg st calls) = Some (''patching activeProfile: '' @ e) \<and>
    sw_policy (evaluateAndSwitch env policy sg st calls) = policy \<and>
    \<not> sw_switched (evaluateAndSwitch env policy sg st calls) \<and>
    (\<forall>later. in_cooldown (sw_state (evaluateAndSwitch env policy sg st calls)) t later \<longleftrightarrow>
       time_sub later now < sint (tr_CooldownSeconds t) * second)"
proof -
  obtain t where t: "t \<in> set (Triggers (Spec policy))" "d_TriggerName d = tr_Name t"
    "map_of (LastTriggerFireTime st') (tr_Name t) = Some now"
    using Evaluate_safe [OF assms(3,4)] by auto
  then have "HasTriggers policy" by (auto simp: HasTriggers_def)
  then have "evaluateAndSwitch env policy sg st calls = \<lparr>sw_decision = d, sw_switched = False,
      sw_error = Some (''patching activeProfile: '' @ e), sw_policy = policy, sw_state = st',
      sw_log = calls @ [SwitchPatch (switch_patch (isprint env) (TargetProfile d) (ActiveProfile (Spec policy)))]\<rparr>"
    using assms by (simp add: evaluateAndSwitch_def Let_def)
  with t show ?thesis by (intro bexI [of _ t]) (simp_all add: in_cooldown_def)
qed

definition broken_env :: rec_env where
  \<comment> \<open>the API server rejects the profile patch\<close>
  "broken_env = (calm_env (managed_policy ''strict''))\<lparr>kube := (kube (calm_env (managed_policy ''strict'')))
     \<lparr>k_switch := (\<lambda>_ _ _. Inl ''conflict'')\<rparr>\<rparr>"

theorem refused_switch_starts_cooldown_witness:
  "\<not> sw_switched (evaluateAndSwitch broken_env (managed_policy ''strict'') (sample_signals 100) NewState [GetPolicy]) \<and>
   in_cooldown (sw_state (evaluateAndSwitch broken_env (managed_policy ''strict'') (sample_signals 100) NewState [GetPolicy]))
     above99 (59 * second + 7)"
proof -
  let ?p = "managed_policy ''strict''"
  obtain d st' where e: "Evaluate ?p (sample_signals 100) (\<lambda>_. 7) NewState = (d, st')" by fastforce
  have "fst (Evaluate ?p (sample_signals 100) (\<lambda>_. 7) NewState) =
      firing_decision above99 (snd (conditionMet (tr_When above99) (sample_signals 100))) 1" by code_simp
  then have d: "ShouldSwitch d" "d_TriggerName d = ''recover''" using e by (simp_all add: above99_def)
  have h: "\<not> IsHumanOverrideEnabled ?p" "eval_clock broken_env = (\<lambda>_. 7)"
    by (simp_all add: IsHumanOverrideEnabled_def map_get_def managed_policy_def sample_policy_def broken_env_def
        calm_env_def)
  have "t = above99" if "t \<in> set (Triggers (Spec ?p))" "tr_Name t = ''recover''" for t
    using that by (auto simp: managed_policy_def sample_spec_def below95_def)
  moreover have "time_sub (59 * second + 7) 7 < sint (tr_CooldownSeconds above99) * second"
    by (simp add: time_sub_exact second_def above99_def max_int64_def min_int64_def)
  moreover have "k_switch (kube broken_env) [GetPolicy] ?p patch = Inl ''conflict''" for patch
    by (simp add: broken_env_def)
  ultimately show ?thesis
    using refused_switch_starts_cooldown [OF h e d(1), where calls = "[GetPolicy]" and e = "''conflict''"] d(2) by auto
qed

end
