(* ===== verification/Reconcile_Props.thy ===== *)
theory Reconcile_Props
  imports Controller_Props
begin

section \<open>Every reconcile ends well\<close>

text \<open>
  Refused policies, the requeue, what is applied and deleted, and reconciles without signals.
\<close>

subsection \<open>Refused policies\<close>

text \<open>C20. A policy is reconciled exactly when it is well formed: it enables some filter, its active profile is
  empty or defined, and every trigger and schedule switches to a defined profile. An ill-formed policy stops
  the reconcile at once: nothing is rendered, applied, deleted or pushed and no state of the controller
  changes; the only call besides the fetch marks the policy degraded and not ready, and it is looked at
  again after 30 seconds.\<close>

theorem ill_formed_policy_stops:
  assumes "k_get (kube env) [] = Got policy"
  shows "if well_formed policy then fst (validatePolicy env policy calls)
    else \<not> fst (validatePolicy env policy calls) \<and> rec_after (Reconcile env key r) = r \<and>
      requeue_after (Reconcile env key r) = 30 * second \<and> rec_error (Reconcile env key r) = None \<and>
      received (Reconcile env key r) = [] \<and>
      (\<exists>st reason. api_calls (Reconcile env key r) = [GetPolicy, StatusPatch (Status policy) st] \<and>
        degraded_status reason st)"
proof (cases "violation env policy")
  case None
  then show ?thesis using violation_None [of env policy] by (simp add: validatePolicy_def)
next
  case (Some v)
  then obtain reason m where v: "violation env policy = Some (reason, m)" by (cases v) auto
  then have nwf: "\<not> well_formed policy" using violation_None [of env policy] by auto
  have val: "\<not> fst (validatePolicy env policy calls)" by (simp add: validatePolicy_def v split: prod.splits)
  have "Reconcile env key r = rec_done None (30 * second) None (snd (snd (markDegraded env policy reason m [GetPolicy]))) r"
    using assms v by (auto simp: Reconcile_def reconcile_policy_def validatePolicy_def split: prod.splits)
  then show ?thesis using nwf val refused_calls [of "30 * second" env policy reason m r]
    by (auto simp: rec_done_def)
qed

theorem ill_formed_policy_stops_witness:
  "\<not> well_formed (sample_policy ''open'') \<and>
   requeue_after (Reconcile (calm_env (sample_policy ''open'')) sample_key (NewAdaptivePolicyReconciler None)) = 30 * second"
proof -
  have w: "\<not> well_formed (sample_policy ''open'')"
    by (simp add: well_formed_def HasAdmissionControl_def HasAdaptiveConcurrency_def HasStreamingProtection_def sample_defs)
  have g: "k_get (kube (calm_env (sample_policy ''open''))) [] = Got (sample_policy ''open'')"
    by (simp add: calm_env_def)
  show ?thesis
    using ill_formed_policy_stops [OF g, of "[]" sample_key "NewAdaptivePolicyReconciler None"] w
    by (simp only: if_False not_False_eq_True)
qed

subsection \<open>The requeue\<close>

lemma call_kinds [simp]:
  "filter is_status (map ApplyObject obs) = []" "filter is_status (map DeleteObject mrs) = []"
  by (simp_all add: filter_map o_def)

lemma sw_log_no_status: "filter is_status (sw_log (evaluateAndSwitch env policy sg st [GetPolicy])) = []"
proof -
  obtain k where "switch_outcome env policy sg st [GetPolicy] (evaluateAndSwitch env policy sg st [GetPolicy]) k"
    using evaluateAndSwitch_outcome by blast
  then show ?thesis by (cases k) (auto simp: switch_outcome_def)
qed

definition settled :: "rec_out \<Rightarrow> bool" where
  \<comment> \<open>no error, a requeue, and exactly one status patch, the last call\<close>
  "settled ro \<longleftrightarrow> rec_error ro = None \<and> second \<le> requeue_after ro \<and>
     (\<exists>calls a b. api_calls ro = calls @ [StatusPatch a b] \<and> filter is_status calls = [])"

lemma settled_share [simp]: "settled (share_policy b i ro) \<longleftrightarrow> settled ro"
  by (simp add: settled_def)

lemma settled_lists [simp]: "settled (ro\<lparr>list_calls := ls\<rparr>) \<longleftrightarrow> settled ro"
  by (simp add: settled_def)

lemma settledI:
  "rec_error ro = None \<Longrightarrow> second \<le> requeue_after ro \<Longrightarrow> api_calls ro = calls @ [StatusPatch a b] \<Longrightarrow>
    filter is_status calls = [] \<Longrightarrow> settled ro"
  by (auto simp: settled_def)

lemma deliver_settled:
  assumes "renderer_contract (r_Render mesh)" "filter is_status calls = []"
  shows "settled (render_and_deliver env key mesh policy sg av orig sw calls r)"
proof -
  note deliver = renderer_contract.deliver_requeues [OF assms(1) refl, of env key policy sg av orig sw calls r]
  obtain applied pruned st where c: "api_calls (render_and_deliver env key mesh policy sg av orig sw calls r) =
      (calls @ map ApplyObject applied @ map DeleteObject pruned) @ [StatusPatch (Status policy) st]"
    using renderer_contract.deliver_calls [OF assms(1) refl, of env key policy sg av orig sw calls r] by auto
  show ?thesis using deliver assms(2) by (intro settledI [OF _ _ c]) (simp_all only: filter_append call_kinds append_Nil)
qed

text \<open>C6. Every reconcile of an existing policy settles: whatever the mesh, the pods, the runtime streams and
  the patches do, as long as the policy can be fetched the reconcile returns no error, asks to be run
  again after at least one second, and makes exactly one status patch, as its last call.\<close>

theorem Reconcile_settles:
  assumes "\<And>calls. \<exists>p. k_get (kube env) calls = Got p"
  shows "settled (Reconcile env key r)"
proof -
  obtain policy where got: "k_get (kube env) [] = Got policy" using assms by blast
  have pos: "second \<le> 30 * second" by (simp add: second_def)
  have rec: "Reconcile env key r = reconcile_policy env key policy r" using got by (simp add: Reconcile_def)
  show ?thesis
    using reconcile_cases [of env policy key r]
  proof cases
    case (refused reason m)
    then obtain st where "api_calls (reconcile_policy env key policy r) = [GetPolicy] @ [StatusPatch (Status policy) st]"
      using refused_calls [of "30 * second" env policy reason m r] by auto
    then show ?thesis using refused(2) pos by (intro settledI) (auto simp: rec)
  next
    case (no_mesh e)
    then obtain st where "api_calls (reconcile_policy env key policy r) = [GetPolicy] @ [StatusPatch (Status policy) st]"
      using degraded_return_calls [of env policy "''MeshDetectionFailed''" e "30 * second" "[GetPolicy]" r] by auto
    then show ?thesis using no_mesh(3) pos by (intro settledI) (auto simp: rec)
  next
    case (meshed mesh st r1 i r2 sg av r3)
    note c = mesh_contract [OF meshed(2)]
    show ?thesis
      using switch_and_deliver_cases [where env = env and key = key and mesh = mesh and policy = policy and st = st
          and sg = sg and av = av and calls = "[GetPolicy]" and r = r3]
    proof cases
      case kept
      then show ?thesis using deliver_settled [OF c] sw_log_no_status by (simp add: rec meshed(6))
    next
      case (refetched p)
      then show ?thesis using deliver_settled [OF c] sw_log_no_status by (simp add: rec meshed(6))
    next
      case (gone e)
      then show ?thesis using assms by metis
    qed
  qed
qed

theorem Reconcile_settles_witness:
  "settled (Reconcile (calm_env (managed_policy ''strict'')) sample_key recovering) \<and>
   settled (Reconcile (calm_env (sample_policy ''open'')) sample_key recovering)"
proof
  have "\<And>p calls. \<exists>q. k_get (kube (calm_env p)) calls = Got q" by (simp add: calm_env_def)
  then show "settled (Reconcile (calm_env (managed_policy ''strict'')) sample_key recovering)"
    "settled (Reconcile (calm_env (sample_policy ''open'')) sample_key recovering)"
    by (rule Reconcile_settles)+
qed

subsection \<open>What is applied and deleted\<close>

definition own_calls :: "kube_env \<Rightarrow> api_call list \<Rightarrow> bool" where
  \<comment> \<open>only objects of a fetched policy are applied, only listed resources are deleted, and never one that
    was applied\<close>
  "own_calls k calls \<longleftrightarrow>
     (\<forall>ob. ApplyObject ob \<in> set calls \<longrightarrow> (\<exists>l p. k_get k l = Got p \<and> owned_by p ob)) \<and>
     (\<forall>mr. DeleteObject mr \<in> set calls \<longrightarrow>
       (\<exists>l p. k_get k l = Got p \<and> mr \<in> set (ManagedResources (Status p))) \<and>
       (\<forall>ob. ApplyObject ob \<in> set calls \<longrightarrow> (o_Kind ob, o_Name ob) \<noteq> (mr_Kind mr, mr_Name mr)))"

lemma own_calls_neither: "filter is_apply calls = [] \<Longrightarrow> filter is_delete calls = [] \<Longrightarrow> own_calls k calls"
  by (auto simp: own_calls_def filter_empty_conv)

lemma deliver_own:
  assumes "renderer_contract (r_Render mesh)" "filter is_apply calls = []" "filter is_delete calls = []"
    and "k_get (kube env) l = Got policy"
  shows "own_calls (kube env) (api_calls (render_and_deliver env key mesh policy sg av orig sw calls r))"
proof -
  obtain applied pruned st where c: "api_calls (render_and_deliver env key mesh policy sg av orig sw calls r) =
      calls @ map ApplyObject applied @ map DeleteObject pruned @ [StatusPatch (Status policy) st]"
    and own: "list_all (owned_by policy) applied" "set pruned \<subseteq> set (ManagedResources (Status policy))"
    and keep: "\<forall>ob \<in> set applied. \<forall>mr \<in> set pruned. ref_key (ref_of ob) \<noteq> ref_key mr"
    using renderer_contract.deliver_calls [OF assms(1) refl, of env key policy sg av orig sw calls r] by blast
  have a: "ob \<in> set applied" if "ApplyObject ob \<in> set (api_calls (render_and_deliver env key mesh policy sg av orig sw calls r))" for ob
    using that assms(2) by (auto simp: c filter_empty_conv)
  have d: "mr \<in> set pruned" if "DeleteObject mr \<in> set (api_calls (render_and_deliver env key mesh policy sg av orig sw calls r))" for mr
    using that assms(3) by (auto simp: c filter_empty_conv)
  show ?thesis unfolding own_calls_def
  proof (intro conjI allI impI)
    fix ob assume "ApplyObject ob \<in> set (api_calls (render_and_deliver env key mesh policy sg av orig sw calls r))"
    then show "\<exists>l p. k_get (kube env) l = Got p \<and> owned_by p ob"
      using a own(1) assms(4) by (metis list_all_iff)
  next
    fix mr assume m: "DeleteObject mr \<in> set (api_calls (render_and_deliver env key mesh policy sg av orig sw calls r))"
    then show "\<exists>l p. k_get (kube env) l = Got p \<and> mr \<in> set (ManagedResources (Status p))"
      using d own(2) assms(4) by blast
    fix ob assume "ApplyObject ob \<in> set (api_calls (render_and_deliver env key mesh policy sg av orig sw calls r))"
    then have "ref_key (ref_of ob) \<noteq> ref_key mr" using keep a d m by blast
    then show "(o_Kind ob, o_Name ob) \<noteq> (mr_Kind mr, mr_Name mr)" by (auto simp: ref_key_def ref_of_def)
  qed
qed

lemma sw_log_plain:
  "filter is_apply (sw_log (evaluateAndSwitch env policy sg st [GetPolicy])) = []"
  "filter is_delete (sw_log (evaluateAndSwitch env policy sg st [GetPolicy])) = []"
proof -
  obtain k where "switch_outcome env policy sg st [GetPolicy] (evaluateAndSwitch env policy sg st [GetPolicy]) k"
    using evaluateAndSwitch_outcome by blast
  then show "filter is_apply (sw_log (evaluateAndSwitch env policy sg st [GetPolicy])) = []"
    "filter is_delete (sw_log (evaluateAndSwitch env policy sg st [GetPolicy])) = []"
    by (cases k; auto simp: switch_outcome_def)+
qed

text \<open>C10. The controller touches only its own: in any reconcile, every object it applies is owned by a policy it
  fetched (owner reference, namespace and labels), every object it deletes is one that a fetched policy lists
  among its managed resources, and nothing it applies in the reconcile is also deleted in it.\<close>

theorem Reconcile_touches_its_own:
  "own_calls (kube env) (api_calls (Reconcile env key r))"
proof (cases "k_get (kube env) []")
  case (Got policy)
  then have rec: "Reconcile env key r = reconcile_policy env key policy r" by (simp add: Reconcile_def)
  show ?thesis
    using reconcile_cases [of env policy key r]
  proof cases
    case (refused reason m)
    then show ?thesis using refused_calls [of "30 * second" env policy reason m r]
      by (intro own_calls_neither) (auto simp: rec)
  next
    case (no_mesh e)
    then show ?thesis
      using degraded_return_calls [of env policy "''MeshDetectionFailed''" e "30 * second" "[GetPolicy]" r]
      by (intro own_calls_neither) (auto simp: rec)
  next
    case (meshed mesh st r1 i r2 sg av r3)
    note c = mesh_contract [OF meshed(2)]
    show ?thesis
      using switch_and_deliver_cases [where env = env and key = key and mesh = mesh and policy = policy and st = st
          and sg = sg and av = av and calls = "[GetPolicy]" and r = r3]
    proof cases
      case kept
      then show ?thesis using deliver_own [OF c sw_log_plain Got] by (simp add: rec meshed(6))
    next
      case (refetched p)
      then show ?thesis using deliver_own [OF c _ _ refetched(2)] sw_log_plain by (simp add: rec meshed(6))
    next
      case (gone e)
      then show ?thesis using sw_log_plain by (intro own_calls_neither) (auto simp: rec meshed(6))
    qed
  qed
qed (simp_all add: Reconcile_def own_calls_neither)

end
