(* ===== verification/Controller_State_Props.thy ===== *)
theory Controller_State_Props
  imports Reconcile_Props
begin

section \<open>Properties of the controller's state\<close>

text \<open>
  The poller bookkeeping over all reachable states, reconciles without signals, conditions, the decision
  history, and the detection of a filter that does not act.
\<close>

subsection \<open>Pollers\<close>

text \<open>C11. One live poller per policy: in every state the controller can reach, by reconciles and deletions of
  any policies interleaved with the pollers' ticks, the poller and cancel maps agree, a poller in the map is
  running and uncancelled and has a generation on record, no two policies share one, every
  other goroutine ever started has been cancelled, and all pollers run with legal configurations.\<close>

theorem one_live_poller_per_policy:
  assumes "running c r"
  shows "map_of (pollers r) = map_of (pollerCancels r) \<and>
    (\<forall>k k'. map_of (pollers r) k = map_of (pollers r) k' \<longrightarrow> map_of (pollers r) k \<noteq> None \<longrightarrow> k = k') \<and>
    (\<forall>k i. map_of (pollers r) k = Some i \<longrightarrow> i < length (goroutines r) \<and>
      \<not> g_cancelled (goroutines r ! i) \<and> \<not> g_returned (goroutines r ! i) \<and>
      map_of (pollerGenerations r) k \<noteq> None) \<and>
    (\<forall>i < length (goroutines r). g_cancelled (goroutines r ! i) \<or> Some i \<in> range (map_of (pollers r))) \<and>
    (\<forall>g \<in> set (goroutines r). config_ok (cfg (g_poller g)))"
proof -
  have ok: "maps_ok {} (pollers r) (pollerCancels r) (pollerGenerations r) (goroutines r)"
    using running_pollers_ok [OF assms] by (simp add: pollers_ok_def)
  note d = maps_ok_D [OF ok]
  have "\<forall>g \<in> set (goroutines r). config_ok (cfg (g_poller g))"
    using d(8) by (metis in_set_conv_nth)
  moreover have "g_cancelled (goroutines r ! i) \<or> Some i \<in> range (map_of (pollers r))"
    if "i < length (goroutines r)" for i
    using d(7) [OF that] by (metis rangeI)
  moreover have "k = k'" if "map_of (pollers r) k = map_of (pollers r) k'" "map_of (pollers r) k \<noteq> None" for k k'
    using d(2) that by (metis option.exhaust)
  ultimately show ?thesis using d(1,3-6) by auto
qed

definition started :: Reconciler where
  \<comment> \<open>a fresh controller after reconciling one policy\<close>
  "started = rec_after (Reconcile (calm_env (managed_policy ''strict'')) sample_key (NewAdaptivePolicyReconciler None))"

lemma started_running: "running None started"
  unfolding running_def started_def by (intro r_into_rtranclp sys_reconcile calm_orders)

lemma started_pollers: "map_of (pollers started) sample_key = Some 0"
proof -
  let ?p = "managed_policy ''strict''" and ?env = "calm_env (managed_policy ''strict'')"
  have m: "well_formed ?p" by (rule managed_well_formed) simp
  have mesh: "DetectAndBuild (cluster ?env) ?p \<noteq> Inl e" for e by simp
  have st: "started = rec_after (reconcile_policy ?env sample_key ?p (NewAdaptivePolicyReconciler None))"
    by (simp add: started_def Reconcile_def calm_env_def)
  show ?thesis
    using reconcile_cases [of ?env ?p sample_key "NewAdaptivePolicyReconciler None"]
  proof cases
    case (refused reason m)
    then show ?thesis using \<open>well_formed ?p\<close> violation_None [of ?env ?p] by simp
  next
    case (no_mesh e)
    then show ?thesis using mesh by simp
  next
    case (meshed mesh st r1 i r2 sg av r3)
    have "pollers_view r3 = pollers_view r2" using read_signals_view [OF meshed(5)] by simp
    then have "pollers (rec_after (switch_and_deliver ?env sample_key mesh ?p st sg av [GetPolicy] r3)) = pollers r2"
      using switch_and_deliver_view [of ?env sample_key mesh ?p st sg av "[GetPolicy]" r3]
      by (simp add: pollers_view_def)
    moreover have "map_of (pollers r2) sample_key = Some 0"
      using meshed(3,4) by (auto simp: ensure_state_def NewAdaptivePolicyReconciler_def ensurePoller_def
          start_poller_def Let_def)
    ultimately show ?thesis by (simp add: st meshed(6) share_policy_pollers)
  qed
qed

theorem one_live_poller_per_policy_witness:
  "running None started \<and> map_of (pollers started) sample_key = Some 0 \<and> \<not> g_cancelled (goroutines started ! 0)"
proof -
  note p = started_pollers
  have "\<forall>k i. map_of (pollers started) k = Some i \<longrightarrow> \<not> g_cancelled (goroutines started ! i)"
    using one_live_poller_per_policy [OF started_running] by blast
  with p started_running show ?thesis by blast
qed

subsection \<open>The abstract supervisor\<close>

text \<open>What the poller bookkeeping is for: which policy is being watched, and for which generation of it. The
  abstract supervisor is a map from policies to the generation on record and the policy object their poller
  reads; a reconcile is one lookup and update on it.\<close>

definition watched :: "Reconciler \<Rightarrow> string \<Rightarrow> (int option \<times> AdaptivePolicy) option" where
  "watched r k = map_option (\<lambda>i. (map_of (pollerGenerations r) k, poller_policy (g_poller (goroutines r ! i))))
     (map_of (pollers r) k)"

definition supervise :: "get_result \<Rightarrow> cluster_view \<Rightarrow> string \<Rightarrow> AdaptivePolicy option \<Rightarrow>
    (string \<Rightarrow> (int option \<times> AdaptivePolicy) option) \<Rightarrow> string \<Rightarrow> (int option \<times> AdaptivePolicy) option" where
  \<comment> \<open>\<open>left\<close> is the fetched object as the reconcile leaves it\<close>
  "supervise answer c key left m = (case answer of
     NotFound \<Rightarrow> m(key := None)
   | GetFailed e \<Rightarrow> m
   | Got p \<Rightarrow>
       if well_formed p \<and> (\<exists>mesh. DetectAndBuild c p = Inr mesh) \<and>
          map_option fst (m key) \<noteq> Some (Some (Generation p))
       then m(key := map_option (Pair (Some (Generation p))) left) else m)"

lemma watched_view:
  assumes "pollers_view r' = pollers_view r" "pollers_ok r"
  shows "watched r' = watched r"
proof
  fix k
  have p: "pollers r' = pollers r" "pollerGenerations r' = pollerGenerations r" and g: "map g_view (goroutines r') = map g_view (goroutines r)"
    using assms(1) by (auto simp: pollers_view_def)
  have l: "length (goroutines r') = length (goroutines r)" using g by (rule map_eq_imp_length_eq)
  have "poller_policy (g_poller (goroutines r' ! i)) = poller_policy (g_poller (goroutines r ! i))"
    if "i < length (goroutines r)" for i
  proof -
    have "g_view (goroutines r' ! i) = g_view (goroutines r ! i)" using g l that by (metis nth_map)
    then show ?thesis by (simp add: g_view_def)
  qed
  moreover have "i < length (goroutines r)" if "map_of (pollers r) k = Some i" for i
    using maps_ok_D(3) [OF assms(2) [unfolded pollers_ok_def]] that by blast
  ultimately show "watched r' k = watched r k" by (cases "map_of (pollers r) k") (auto simp: watched_def p)
qed

lemma watched_cancel [simp]:
  assumes "pollers_ok r"
  shows "watched (cancel_poller key r) = watched r"
proof
  fix k
  have "poller_policy (g_poller ((goroutines r)[j := (goroutines r ! j)\<lparr>g_cancelled := True\<rparr>] ! i)) =
      poller_policy (g_poller (goroutines r ! i))" for i j
    by (cases "i = j"; cases "j < length (goroutines r)") (simp_all add: list_update_beyond)
  then show "watched (cancel_poller key r) k = watched r k"
    by (cases "map_of (pollerCancels r) key") (simp_all add: watched_def cancel_poller_def)
qed

lemma watched_start:
  assumes "\<And>k i. map_of (pollers r) k = Some i \<Longrightarrow> i < length (goroutines r)"
  shows "watched (snd (start_poller key p r)) = (watched r)(key \<mapsto> (Some (Generation p), p))"
proof
  fix k
  show "watched (snd (start_poller key p r)) k = ((watched r)(key \<mapsto> (Some (Generation p), p))) k"
    using assms [of k] by (cases "k = key"; cases "map_of (pollers r) k")
      (simp_all add: watched_def start_poller_def Let_def NewPoller_def nth_append)
qed

lemma watched_ensure:
  assumes "pollers_ok r" "ensurePoller key p r = (i, r')"
  shows "watched r' = (if map_option fst (watched r key) = Some (Some (Generation p)) then watched r
      else (watched r)(key \<mapsto> (Some (Generation p), p)))" (is ?w)
    and "length (goroutines r) \<le> i \<longleftrightarrow> map_option fst (watched r key) \<noteq> Some (Some (Generation p))" (is ?s)
    and "map_of (pollers r') key = Some i" (is ?m)
proof -
  note ok = maps_ok_D [OF assms(1) [unfolded pollers_ok_def]]
  have lt: "map_of (pollers r) k = Some j \<Longrightarrow> j < length (goroutines r)" for k j using ok(3) by blast
  have lt': "map_of (pollers (cancel_poller key r)) k = Some j \<Longrightarrow> j < length (goroutines (cancel_poller key r))" for k j
    using lt by (simp add: cancel_poller_def split: option.splits)
  have len: "length (goroutines (cancel_poller key r)) = length (goroutines r)"
    by (simp add: cancel_poller_def split: option.splits)
  have st: "watched (snd (start_poller key p (cancel_poller key r))) = (watched r)(key \<mapsto> (Some (Generation p), p))"
    "watched (snd (start_poller key p r)) = (watched r)(key \<mapsto> (Some (Generation p), p))"
    using watched_start [of "cancel_poller key r" key p, OF lt'] watched_cancel [OF assms(1)]
      watched_start [of r key p, OF lt] by simp_all
  have fst: "fst (start_poller key p r) = length (goroutines r)"
    "map_of (pollers (snd (start_poller key p r))) key = Some (length (goroutines r))" for r
    by (simp_all add: start_poller_def Let_def)
  have g: "map_option fst (watched r key) = map_option (\<lambda>_. map_of (pollerGenerations r) key) (map_of (pollers r) key)"
    by (cases "map_of (pollers r) key") (simp_all add: watched_def)
  consider "map_option fst (watched r key) = Some (Some (Generation p))" "map_of (pollers r) key = Some i" "r' = r"
    | q where "map_option fst (watched r key) \<noteq> Some (Some (Generation p))" "(i, r') = start_poller key p q"
        "q = r \<or> q = cancel_poller key r"
    using assms(2) unfolding g
    by (cases "map_of (pollers r) key")
      (auto simp: ensurePoller_def simp del: map_option_eq_Some split: if_splits intro: sym)
  then have "?w \<and> ?s \<and> ?m"
  proof cases
    case 1
    then show ?thesis using lt [of key i] by auto
  next
    case (2 q)
    then have "i = fst (start_poller key p q)" "r' = snd (start_poller key p q)" by (metis fst_conv snd_conv)+
    then show ?thesis using 2(1,3) st fst len by auto
  qed
  then show ?w ?s ?m by blast+
qed

lemma watched_share:
  assumes "pollers_ok r" "map_of (pollers r) key = Some i"
  shows "watched (set_poller i ((g_poller (goroutines r ! i))\<lparr>poller_policy := q\<rparr>) r) =
    (watched r)(key \<mapsto> (map_of (pollerGenerations r) key, q))"
proof
  fix k
  note ok = maps_ok_D [OF assms(1) [unfolded pollers_ok_def]]
  have "i < length (goroutines r)" using ok(3) assms(2) by blast
  moreover have "j \<noteq> i" if "k \<noteq> key" "map_of (pollers r) k = Some j" for j using ok(2) that assms(2) by metis
  ultimately show "watched (set_poller i ((g_poller (goroutines r ! i))\<lparr>poller_policy := q\<rparr>) r) k =
      ((watched r)(key \<mapsto> (map_of (pollerGenerations r) key, q))) k"
    using assms(2) by (cases "map_of (pollers r) k") (auto simp: watched_def set_poller_def nth_list_update)
qed

lemma watched_deleted:
  assumes "pollers_ok r"
  shows "watched (policy_deleted key r) = (watched r)(key := None)"
proof -
  let ?r = "r\<lparr>triggerState := AList.delete key (triggerState r)\<rparr>"
  have ok: "pollers_ok ?r" by (rule pollers_ok_view [OF _ assms]) simp
  have w: "watched ?r = watched r" by (simp add: watched_def [abs_def])
  note c = maps_ok_D(1) [OF assms [unfolded pollers_ok_def]]
  show ?thesis
  proof (cases "map_of (pollers r) key")
    case None
    then have "watched r key = None" by (simp add: watched_def)
    then show ?thesis using None c w by (auto simp: policy_deleted_def Let_def)
  next
    case (Some i)
    have "watched ((cancel_poller key ?r)\<lparr>pollerCancels := AList.delete key (pollerCancels ?r),
        pollers := AList.delete key (pollers ?r)\<rparr>) = (watched (cancel_poller key ?r))(key := None)"
      by (simp add: watched_def [abs_def] fun_eq_iff)
    then show ?thesis using Some c w watched_cancel [OF ok] by (simp add: policy_deleted_def Let_def)
  qed
qed

lemma leaves_policy: "\<exists>q. rec_policy (switch_and_deliver env key mesh policy st sg av calls r) = Some q"
  by (simp add: switch_and_deliver_def render_and_deliver_def degraded_return_def finish_def Let_def
      split: get_result.splits sum.splits prod.splits option.splits)

text \<open>C12. The poller bookkeeping refines an abstract supervisor: in every reachable state, a reconcile of a key
  changes which policies are watched, for which generation and with which policy object, exactly as one step of
  the supervisor does. A deleted policy is no longer watched; a well-formed policy on a known mesh that was not
  watched at its generation is watched at it from then on, by a poller that reads the object this reconcile
  fetched as it leaves it; an unchanged generation, an ill-formed policy, a failed fetch or an unknown mesh
  leave what was watched; and no reconcile affects another policy.\<close>

theorem Reconcile_refines_supervisor:
  assumes "running c r"
  shows "watched (rec_after (Reconcile env key r)) =
    supervise (k_get (kube env) []) (cluster env) key (rec_policy (Reconcile env key r)) (watched r)"
proof (cases "k_get (kube env) []")
  case (Got p)
  have ok: "pollers_ok r" by (rule running_pollers_ok [OF assms])
  have rec: "Reconcile env key r = reconcile_policy env key p r" using Got by (simp add: Reconcile_def)
  show ?thesis
    using reconcile_cases [of env p key r]
  proof cases
    case (refused reason m)
    then have "\<not> well_formed p" using violation_None [of env p] by auto
    then show ?thesis using Got refused rec by (simp add: supervise_def)
  next
    case (no_mesh e)
    then show ?thesis using Got rec by (simp add: supervise_def)
  next
    case (meshed mesh st r1 i r2 sg av r3)
    let ?res = "switch_and_deliver env key mesh p st sg av [GetPolicy] r3"
    let ?kept = "map_option fst (watched r key) = Some (Some (Generation p))"
    have ok1: "pollers_ok r1" using pollers_ok_view [OF ensure_state_view [OF meshed(3)] ok] .
    have w1: "watched r1 = watched r" by (rule watched_view [OF ensure_state_view [OF meshed(3)] ok])
    note e = watched_ensure [OF ok1 meshed(4), unfolded w1]
    have ok2: "pollers_ok r2" using ensurePoller_ok [OF ok1, of key p] meshed(4) by simp
    have pv: "pollers_view (rec_after ?res) = pollers_view r2"
      using switch_and_deliver_view read_signals_view [OF meshed(5)] by simp
    have w: "watched (rec_after ?res) = watched r2" "map_of (pollers (rec_after ?res)) key = Some i"
      using watched_view [OF pv ok2] pv e(3) by (simp_all add: pollers_view_def)
    have oks: "pollers_ok (rec_after ?res)" by (rule pollers_ok_view [OF pv ok2])
    obtain q where q: "rec_policy ?res = Some q" using leaves_policy by blast
    have "map_of (pollerGenerations (rec_after ?res)) key = Some (Generation p)" if "\<not> ?kept"
    proof -
      have "watched (rec_after ?res) key = Some (Some (Generation p), p)" using w(1) e(1) that by simp
      then show ?thesis using w(2) by (simp add: watched_def)
    qed
    then have "watched (rec_after (Reconcile env key r)) =
        (if ?kept then watched r else (watched r)(key \<mapsto> (Some (Generation p), q)))"
      using watched_share [OF oks w(2), of q] w(1) e(1,2)
      by (simp add: rec meshed(6) share_policy_def q)
    then show ?thesis using Got meshed(1,2,6) q by (auto simp: supervise_def rec)
  qed
qed (use watched_deleted [OF running_pollers_ok [OF assms]] in \<open>simp_all add: Reconcile_def supervise_def\<close>)

theorem Reconcile_refines_supervisor_witness:
  "\<exists>p. watched started = [sample_key \<mapsto> (Some 1, p)] \<and> rec_policy (Reconcile (calm_env (managed_policy ''strict''))
     sample_key (NewAdaptivePolicyReconciler None)) = Some p"
proof -
  let ?p = "managed_policy ''strict''" and ?r = "NewAdaptivePolicyReconciler None"
  have run: "running None ?r" by (simp add: running_def)
  note r = Reconcile_refines_supervisor [OF run, of "calm_env ?p" sample_key]
  have g: "k_get (kube (calm_env ?p)) [] = Got ?p" "Generation ?p = 1"
    by (simp_all add: calm_env_def managed_policy_def sample_defs)
  have w: "watched ?r = Map.empty"
    by (simp add: watched_def [abs_def] NewAdaptivePolicyReconciler_def)
  have "well_formed ?p" by (rule managed_well_formed) simp
  then have "watched started sample_key = map_option (Pair (Some 1)) (rec_policy (Reconcile (calm_env ?p) sample_key ?r))"
    "watched started = Map.empty(sample_key := map_option (Pair (Some 1)) (rec_policy (Reconcile (calm_env ?p) sample_key ?r)))"
    using r g w by (simp_all add: supervise_def started_def)
  moreover have "watched started sample_key \<noteq> None" using started_pollers by (simp add: watched_def)
  ultimately show ?thesis by auto
qed

subsection \<open>Reconciles without signals\<close>

lemma Reconcile_meshed:
  "\<not> (\<exists>b. b \<in> set cs \<and> is_switch b) \<longleftrightarrow> filter is_switch cs = []"
  by (auto simp: filter_empty_conv)

lemma ensurePoller_idle:
  assumes "pollers_ok r" "list_all (\<lambda>g. out (g_poller g) = None) (goroutines r)" "ensurePoller key policy r = (i, r')"
  shows "out (g_poller (goroutines r' ! i)) = None"
proof (cases "\<exists>j. map_of (pollers r) key = Some j \<and> map_of (pollerGenerations r) key = Some (Generation policy)")
  case True
  then obtain j where j: "map_of (pollers r) key = Some j" "map_of (pollerGenerations r) key = Some (Generation policy)"
    by blast
  have "j < length (goroutines r)" using maps_ok_D(3) assms(1) j(1) by (metis empty_iff pollers_ok_def)
  then show ?thesis using assms(2,3) j by (simp add: ensurePoller_def list_all_length)
next
  case False
  then have "\<exists>q. (i, r') = start_poller key policy q"
    using assms(3) by (auto simp: ensurePoller_def split: option.splits if_splits intro: sym)
  then show ?thesis by (auto simp: start_poller_def Let_def NewPoller_def)
qed

lemma ensure_state_state:
  "ensure_state key r = (st, r') \<Longrightarrow> map_of (triggerState r') key = Some st \<and>
    (\<forall>s. map_of (triggerState r) key = Some s \<longrightarrow> st = s) \<and> goroutines r' = goroutines r \<and> rec_scraper r' = rec_scraper r"
  by (auto simp: ensure_state_def split: option.splits)

lemma ensurePoller_rest:
  "ensurePoller key policy r = (i, r') \<Longrightarrow> triggerState r' = triggerState r \<and> rec_scraper r' = rec_scraper r"
  by (auto simp: ensurePoller_def start_poller_def cancel_poller_def Let_def split: option.splits if_splits)

lemma run_ticks_none [simp]: "run_ticks [] i r = r"
  by (cases "i < length (goroutines r)") (simp_all add: run_ticks_def set_poller_def list_update_beyond)

lemma push_layers_state: "push_layers env mesh sw res r = (b, sent, r') \<Longrightarrow> triggerState r' = triggerState r"
  by (auto simp: push_layers_def split: option.splits if_splits prod.splits)

lemma deliver_state:
  assumes "map_of (triggerState r) key = Some (sw_state sw)" "\<not> av"
  shows "map_of (triggerState (rec_after (render_and_deliver env key mesh policy sg av orig sw calls r))) key =
    Some (sw_state sw)"
proof -
  have "fst (new_status env policy ob (sw_state sw)) = sw_state sw" if "\<not> ob_available ob" for ob
    using that by (simp add: new_status_def filter_effective_def Let_def)
  then show ?thesis using assms
    by (auto simp: render_and_deliver_def Let_def finish_def store_state_def register_layers_def
        dest!: push_layers_state split: sum.splits prod.splits option.splits) (metis fst_conv observation.select_convs(2))+
qed

text \<open>C21. Without signals nothing is decided: when no poller has a signal pending and the direct scrape fails,
  a reconcile sends no profile patch and leaves the policy's trigger state (counters, fire times and the
  inactive-filter count) exactly as it was.\<close>

theorem no_signals_no_switch:
  assumes "running c r" "list_all (\<lambda>g. out (g_poller g) = None) (goroutines r)" "late_ticks env = []"
    and "k_get (kube env) [] = Got policy" "fst (snd (ReadSignals (scrape env) policy (rec_scraper r))) \<noteq> None"
  shows "filter is_switch (api_calls (Reconcile env key r)) = [] \<and>
    (\<forall>st. map_of (triggerState r) key = Some st \<longrightarrow>
       map_of (triggerState (rec_after (Reconcile env key r))) key = Some st)"
proof -
  have rec: "Reconcile env key r = reconcile_policy env key policy r" using assms(4) by (simp add: Reconcile_def)
  show ?thesis
    using reconcile_cases [of env policy key r]
  proof cases
    case (refused reason m)
    then show ?thesis using refused_calls [of "30 * second" env policy reason m r] by (auto simp: rec)
  next
    case (no_mesh e)
    then show ?thesis
      using degraded_return_calls [of env policy "''MeshDetectionFailed''" e "30 * second" "[GetPolicy]" r]
      by (auto simp: rec)
  next
    case (meshed mesh st r1 i r2 sg av r3)
    note s1 = ensure_state_state [OF meshed(3)] and s2 = ensurePoller_rest [OF meshed(4)]
    have "pollers_ok r1" using pollers_ok_view [OF ensure_state_view [OF meshed(3)] running_pollers_ok [OF assms(1)]] .
    then have idle: "out (g_poller (goroutines r2 ! i)) = None"
      using ensurePoller_idle [OF _ _ meshed(4)] assms(2) s1 by simp
    obtain s e sc where rd: "ReadSignals (scrape env) policy (rec_scraper r) = (s, Some e, sc)"
      using assms(5) by (cases "ReadSignals (scrape env) policy (rec_scraper r)") auto
    have sg: "sg = fallback_signals (signal_now env)" "\<not> av" "triggerState r3 = triggerState r2"
      using meshed(5) idle rd s1 s2 assms(3) by (auto simp: read_signals_def Let_def)
    let ?sw = "evaluateAndSwitch env policy sg st [GetPolicy]"
    have sw: "sw_state ?sw = st" "\<not> sw_switched ?sw" "sw_log ?sw = [GetPolicy]"
      using evaluateAndSwitch_no_samples [of sg env policy st "[GetPolicy]"] sg(1) by (simp_all add: fallback_signals_def)
    have "filter is_switch (api_calls (Reconcile env key r)) = []"
      using meshed_calls [OF mesh_contract [OF meshed(2)], of env key policy st sg av "[GetPolicy]" r3] sw(3)
      by (auto simp: rec meshed(6))
    moreover have "map_of (triggerState (rec_after (Reconcile env key r))) key = Some st"
      using switch_and_deliver_cases [where env = env and key = key and mesh = mesh and policy = policy and st = st
          and sg = sg and av = av and calls = "[GetPolicy]" and r = r3]
    proof cases
      case kept
      have "map_of (triggerState (store_state key (sw_state ?sw) r3)) key = Some (sw_state ?sw)"
        by (simp add: store_state_def)
      from deliver_state [OF this sg(2)] show ?thesis using kept(2) sw(1) by (simp add: rec meshed(6))
    qed (use sw in auto)
    ultimately show ?thesis using s1 by auto
  qed
qed

theorem no_signals_no_switch_witness:
  "filter is_switch (api_calls (Reconcile (calm_env (managed_policy ''strict'')) sample_key
     (NewAdaptivePolicyReconciler None))) = []"
proof -
  have "running None (NewAdaptivePolicyReconciler None)" by (simp add: running_def)
  from no_signals_no_switch [OF this, of "calm_env (managed_policy ''strict'')" "managed_policy ''strict''" sample_key]
  show ?thesis
    by (simp add: calm_env_def NewAdaptivePolicyReconciler_def ReadSignals_def discoverPods_def no_pods_def)
qed

end
