(* ===== verification/Status_Props.thy ===== *)
theory Status_Props
  imports Controller_State_Props
begin

section \<open>Properties of the status\<close>

text \<open>
  Conditions as an upsert by type, the decision history, and the detection of an installed filter that
  ejects nothing, compared with a specification over the history of observations.
\<close>

subsection \<open>Conditions\<close>

lemma refreshed:
  fixes c d :: Condition
  shows "c_Type d = c_Type c \<Longrightarrow> c_Status d = c_Status c \<Longrightarrow>
    d\<lparr>c_Message := c_Message c, c_Reason := c_Reason c, c_ObservedGeneration := c_ObservedGeneration c\<rparr> =
    c\<lparr>c_LastTransitionTime := c_LastTransitionTime d\<rparr>"
  by (cases d; cases c) simp

lemma condition_at_type: "condition_at conds ty = Some d \<Longrightarrow> c_Type d = ty"
  by (induction conds) (auto split: if_splits)

lemma setCondition_same:
  "condition_at (setCondition now c conds) (c_Type c) = Some (c\<lparr>c_LastTransitionTime :=
     (case condition_at conds (c_Type c) of
        Some d \<Rightarrow> if c_Status d = c_Status c then c_LastTransitionTime d else now | None \<Rightarrow> now)\<rparr>)"
proof (cases "condition_at conds (c_Type c)")
  case None
  then show ?thesis using upsert_same [of "c\<lparr>c_LastTransitionTime := now\<rparr>" conds] by (simp add: setCondition_def)
next
  case (Some d)
  note u = upsert_same [of "c\<lparr>c_LastTransitionTime := now\<rparr>" conds]
  show ?thesis
  proof (cases "c_Status d = c_Status c")
    case True
    have "condition_at (setCondition now c conds) (c_Type c) =
        Some (d\<lparr>c_Message := c_Message c, c_Reason := c_Reason c, c_ObservedGeneration := c_ObservedGeneration c\<rparr>)"
      using u Some True by (simp add: setCondition_def)
    then show ?thesis using refreshed [OF condition_at_type [OF Some] True] Some True by simp
  next
    case False
    then show ?thesis using u Some by (simp add: setCondition_def)
  qed
qed

text \<open>Setting a condition is an upsert by type: other types are untouched, the condition of its own type is
  the new one, except that its transition time is kept when the status did not change, and the
  list never gets two conditions of one type.\<close>

theorem setCondition_upserts:
  assumes "distinct (map c_Type conds)"
  shows "distinct (map c_Type (setCondition now c conds)) \<and>
    condition_at (setCondition now c conds) = (condition_at conds)(c_Type c \<mapsto>
      c\<lparr>c_LastTransitionTime := (case condition_at conds (c_Type c) of
          Some d \<Rightarrow> if c_Status d = c_Status c then c_LastTransitionTime d else now | None \<Rightarrow> now)\<rparr>)"
proof (intro conjI ext)
  show "distinct (map c_Type (setCondition now c conds))" by (rule setCondition_distinct [OF assms])
  fix ty
  show "condition_at (setCondition now c conds) ty = ((condition_at conds)(c_Type c \<mapsto>
      c\<lparr>c_LastTransitionTime := (case condition_at conds (c_Type c) of
          Some d \<Rightarrow> if c_Status d = c_Status c then c_LastTransitionTime d else now | None \<Rightarrow> now)\<rparr>)) ty"
  proof (cases "ty = c_Type c")
    case True
    then show ?thesis by (simp only: setCondition_same fun_upd_same)
  next
    case False
    then show ?thesis by (simp only: setCondition_other fun_upd_other not_False_eq_True)
  qed
qed

definition ready_at :: "gotime \<Rightarrow> bool \<Rightarrow> Condition" where
  "ready_at t b = (condition_of ConditionReady b ''r'' ''m'' 1)\<lparr>c_LastTransitionTime := t\<rparr>"

theorem setCondition_upserts_witness:
  "condition_at (setCondition 9 (ready_at 0 True) [ready_at 3 True]) ConditionReady = Some (ready_at 3 True) \<and>
   condition_at (setCondition 9 (ready_at 0 False) [ready_at 3 True]) ConditionReady = Some (ready_at 9 False)"
proof -
  have d: "distinct (map c_Type [ready_at 3 True])" by simp
  have r: "condition_at [ready_at 3 True] ConditionReady = Some (ready_at 3 True)"
    "c_Type (ready_at 0 b) = ConditionReady" for b by (simp_all add: ready_at_def)
  have "condition_at (setCondition 9 (ready_at 0 b) [ready_at 3 True]) ConditionReady =
      Some ((ready_at 0 b)\<lparr>c_LastTransitionTime :=
        (if c_Status (ready_at 3 True) = c_Status (ready_at 0 b) then c_LastTransitionTime (ready_at 3 True) else 9)\<rparr>)" for b
    using setCondition_upserts [OF d, THEN conjunct2, THEN fun_cong, of 9 "ready_at 0 b" ConditionReady]
    by (simp add: r del: condition_at_simps)
  note * = this
  show ?thesis unfolding * by (simp add: ready_at_def condition_of_def)
qed

subsection \<open>The status of a finished reconcile\<close>

lemma filter_effective_other:
  assumes "ty \<noteq> ConditionFilterEffective"
  shows "condition_at (snd (filter_effective env policy ob st conds)) ty = condition_at conds ty"
  using assms by (simp add: filter_effective_def Let_def)

lemma base_conditions_degraded:
  "condition_at (base_conditions env policy ob conds) ConditionDegraded = condition_at conds ConditionDegraded"
  by (simp add: base_conditions_def Let_def)

lemma base_conditions_ready:
  "map_option c_Status (condition_at (base_conditions env policy ob conds) ConditionReady) = Some ''True''"
proof -
  let ?c = "condition_of ConditionReady True ''Reconciled'' (ready_message ob) (Generation policy)"
  show ?thesis using setCondition_status [of "cond_now env 0" ?c conds]
    by (simp add: base_conditions_def Let_def)
qed

lemma new_status_conditions:
  "Conditions (snd (new_status env policy ob st)) =
    snd (filter_effective env policy ob st (base_conditions env policy ob (Conditions (Status policy))))"
  by (simp add: new_status_def status_fields_def record_decision_def Let_def split: prod.splits)

text \<open>C34. A policy that was once degraded stays degraded: the status of every finished reconcile says Ready, and
  leaves the Degraded condition exactly as it was, so after a failure has been repaired the policy reports
  Ready and Degraded at once.\<close>

theorem Degraded_is_never_cleared:
  "map_option c_Status (condition_at (Conditions (snd (new_status env policy ob st))) ConditionReady) = Some ''True'' \<and>
   condition_at (Conditions (snd (new_status env policy ob st))) ConditionDegraded =
     condition_at (Conditions (Status policy)) ConditionDegraded"
  by (simp add: new_status_conditions filter_effective_other base_conditions_degraded base_conditions_ready)

lemma new_status_history:
  "DecisionHistory (snd (new_status env policy ob st)) =
     DecisionHistory (record_decision (status_now env) ob (Status policy))"
  "LastDecision (snd (new_status env policy ob st)) =
     LastDecision (record_decision (status_now env) ob (Status policy))"
  by (simp_all add: new_status_def status_fields_def record_decision_def Let_def split: prod.splits)

text \<open>The decision history is a window on the last ten decisions: a reconcile that decided a switch puts one
  record in front (with the profile active before the evaluation, the trigger and its target), which is also
  the last decision, and keeps at most ten; any other reconcile changes neither.\<close>

theorem decision_history_window:
  "(let st' = snd (new_status env policy ob st); old = DecisionHistory (Status policy) in
    if ShouldSwitch (ob_decision ob) \<and> Reason (ob_decision ob) \<noteq> [] then
      (\<exists>rec. LastDecision st' = Some rec \<and> DecisionHistory st' = take 10 (rec # old) \<and>
        length (DecisionHistory st') \<le> 10 \<and> dr_Timestamp rec = status_now env \<and>
        dr_TriggerName rec = d_TriggerName (ob_decision ob) \<and> dr_ProfileBefore rec = ob_original ob \<and>
        dr_ProfileAfter rec = TargetProfile (ob_decision ob))
    else LastDecision st' = LastDecision (Status policy) \<and> DecisionHistory st' = old)"
proof (cases "ShouldSwitch (ob_decision ob) \<and> Reason (ob_decision ob) \<noteq> []")
  case True
  let ?rec = "decision_record (status_now env) ob"
  have "DecisionHistory (record_decision (status_now env) ob (Status policy)) = take 10 (?rec # DecisionHistory (Status policy))"
    "LastDecision (record_decision (status_now env) ob (Status policy)) = Some ?rec"
    using True by (simp_all add: record_decision_def Let_def)
  then show ?thesis using True
    by (simp add: Let_def new_status_history decision_record_def)
next
  case False
  then show ?thesis by (auto simp: Let_def new_status_history record_decision_def)
qed

subsection \<open>A filter that does not act\<close>

definition inactive :: "AdaptivePolicy \<Rightarrow> observation \<Rightarrow> bool" where
  \<comment> \<open>the filter should be shedding and ejects nothing\<close>
  "inactive policy ob \<longleftrightarrow> should_be_shedding policy (ob_signals ob) \<and> \<not> filter_ejecting (ob_signals ob)"

definition inactive_run :: "rec_env \<Rightarrow> AdaptivePolicy \<Rightarrow> observation list \<Rightarrow> State" where
  \<comment> \<open>the trigger state after a sequence of reconciles that saw these\<close>
  "inactive_run env policy obs = fold (\<lambda>ob st. fst (filter_effective env policy ob st [])) obs NewState"

lemma filter_effective_state:
  assumes "HasAdmissionControl policy" "\<not> IsDryRun policy" "ob_available ob"
  shows "ConsecutiveFilterInactive (fst (filter_effective env policy ob st conds)) =
    (if inactive policy ob then ConsecutiveFilterInactive st + 1 else 0)"
  using assms by (simp add: filter_effective_def inactive_def Let_def)

lemma trailing_le: "trailing h \<le> int (length h)"
  by (simp add: trailing_def length_takeWhile_le)

lemma inactive_run_count:
  assumes "HasAdmissionControl policy" "\<not> IsDryRun policy" "list_all ob_available obs" "length obs < 2 ^ 31"
  shows "sint (ConsecutiveFilterInactive (inactive_run env policy obs)) = trailing (rev (map (inactive policy) obs))"
  using assms(3,4)
proof (induction obs rule: rev_induct)
  case Nil
  then show ?case by (simp add: inactive_run_def NewState_def)
next
  case (snoc ob obs)
  have s: "inactive_run env policy (obs @ [ob]) = fst (filter_effective env policy ob (inactive_run env policy obs) [])"
    by (simp add: inactive_run_def)
  have ih: "sint (ConsecutiveFilterInactive (inactive_run env policy obs)) = trailing (rev (map (inactive policy) obs))"
    using snoc by simp
  moreover have "trailing (rev (map (inactive policy) obs)) < 2 ^ 31 - 1"
    using trailing_le [of "rev (map (inactive policy) obs)"] snoc.prems(2) by simp
  ultimately have "sint (ConsecutiveFilterInactive (inactive_run env policy obs) + 1) =
      trailing (rev (map (inactive policy) obs)) + 1"
    by (simp add: sint_plus_one)
  then show ?case using snoc.prems(1)
    by (simp add: s filter_effective_state [OF assms(1,2)])
qed

text \<open>C19. FilterEffective reports three consecutive intervals of evidence: over any sequence of reconciles with
  signals, the counter is the length of the unbroken run of intervals in which the filter should have been
  shedding and ejected nothing; the condition becomes False exactly when that run, this interval included,
  has reached three, else True when the filter ejects, and is otherwise left as it was.\<close>

theorem FilterEffective_spec:
  assumes "HasAdmissionControl policy" "\<not> IsDryRun policy" "list_all ob_available (obs @ [ob])" "length obs < 2 ^ 31 - 1"
  shows "sint (ConsecutiveFilterInactive (inactive_run env policy obs)) = trailing (rev (map (inactive policy) obs)) \<and>
    map_option c_Status (condition_at (snd (filter_effective env policy ob (inactive_run env policy obs) conds))
      ConditionFilterEffective) =
    (if 3 \<le> trailing (rev (map (inactive policy) (obs @ [ob]))) then Some ''False''
     else if filter_ejecting (ob_signals ob) then Some ''True''
     else map_option c_Status (condition_at conds ConditionFilterEffective))"
proof -
  let ?st = "inactive_run env policy obs"
  let ?n = "if inactive policy ob then ConsecutiveFilterInactive ?st + 1 else 0"
  have av: "ob_available ob" "list_all ob_available obs" using assms(3) by simp_all
  have "ConsecutiveFilterInactive (inactive_run env policy (obs @ [ob])) = ?n"
    using filter_effective_state [OF assms(1,2) av(1), of env ?st "[]"] by (simp add: inactive_run_def)
  then have n: "sint ?n = trailing (rev (map (inactive policy) (obs @ [ob])))"
    using inactive_run_count [OF assms(1,2,3), of env] assms(4) by simp
  have st: "map_option c_Status (condition_at (setCondition t (condition_of ConditionFilterEffective b rs m g) conds)
      ConditionFilterEffective) = Some (if b then ''True'' else ''False'')" for t b rs m g
    using setCondition_status [of t "condition_of ConditionFilterEffective b rs m g" conds] by simp
  have fe: "condition_at (snd (filter_effective env policy ob ?st conds)) ConditionFilterEffective =
      condition_at (if 3 \<le> sint ?n then setCondition (cond_now env 2) (condition_of ConditionFilterEffective False
          ''ZeroEjections'' (zero_ejections_message policy (ob_signals ob) ?n) (Generation policy)) conds
        else if filter_ejecting (ob_signals ob) then setCondition (cond_now env 2)
          (condition_of ConditionFilterEffective True ''EjectionsObserved''
            (''admission_control is actively rejecting requests ('' @ fmt_f 1 (ShedRejectedRPS (ob_signals ob)) @ ''/s)'')
            (Generation policy)) conds
        else conds) ConditionFilterEffective"
    using assms(1,2) av(1) by (simp add: filter_effective_def inactive_def Let_def)
  have "sint (ConsecutiveFilterInactive ?st) = trailing (rev (map (inactive policy) obs))"
    using inactive_run_count [OF assms(1,2) av(2)] assms(4) by simp
  then show ?thesis unfolding fe n by (simp add: st)
qed

definition shedding_policy :: AdaptivePolicy where
  "shedding_policy = (sample_policy ''open'')\<lparr>Spec := sample_spec\<lparr>
     AdmissionControl := Some \<lparr>ac_Enabled = True, ac_SuccessRateWindow = [], ac_SuccessRateThreshold = ''90.0'',
       ac_SheddingSpeed = [], ac_MinRequestsPerSecond = 5, ac_MaxRejectionPercent = [],
       ac_SuccessCodes = [], ac_SkipPaths = []\<rparr>\<rparr>\<rparr>"

definition failing :: observation where
  \<comment> \<open>half of ten requests per second fail and the filter ejects nothing\<close>
  "failing = \<lparr>ob_signals = sample_signals 50, ob_available = True, ob_original = ''open'',
     ob_decision = reason_decision [], ob_switched = False, ob_connected = False, ob_backend = ''istio'',
     ob_render = empty_result\<rparr>"

theorem FilterEffective_spec_witness:
  "map_option c_Status (condition_at (snd (filter_effective (calm_env shedding_policy) shedding_policy failing
     (inactive_run (calm_env shedding_policy) shedding_policy [failing, failing]) [])) ConditionFilterEffective) =
   Some ''False''"
proof -
  have "HasAdmissionControl shedding_policy" "\<not> IsDryRun shedding_policy"
    by (simp_all add: shedding_policy_def HasAdmissionControl_def IsDryRun_def sample_defs)
  moreover have "list_all ob_available ([failing, failing] @ [failing])" by (simp add: failing_def)
  moreover have "inactive shedding_policy failing" by code_simp
  ultimately show ?thesis
    using FilterEffective_spec [of shedding_policy "[failing, failing]" failing "calm_env shedding_policy" "[]"] by simp
qed

end
