(* ===== verification/Steady_Props.thy ===== *)
theory Steady_Props
  imports Status_Props
begin

section \<open>The cost of a reconcile and the steady state\<close>

text \<open>
  How many calls a reconcile makes at most, and that a reconcile which follows a finished one of the same
  specification has nothing to delete.
\<close>

subsection \<open>Bounds\<close>

lemma sw_log_length: "length (sw_log (evaluateAndSwitch env policy sg st calls)) \<le> length calls + 1"
proof -
  obtain k where "switch_outcome env policy sg st calls (evaluateAndSwitch env policy sg st calls) k"
    using evaluateAndSwitch_outcome by blast
  then show ?thesis by (cases k) (auto simp: switch_outcome_def)
qed

lemma switch_and_deliver_length:
  fixes env key mesh policy st sg av calls r
  assumes "renderer_contract (r_Render mesh)" "length (ManagedResources (Status policy)) \<le> m"
    and "\<And>calls p. k_get (kube env) calls = Got p \<Longrightarrow> length (ManagedResources (Status p)) \<le> m"
  shows "length (api_calls (switch_and_deliver env key mesh policy st sg av calls r)) \<le> length calls + 7 + m"
proof -
  let ?sw = "evaluateAndSwitch env policy sg st calls"
  note deliver = renderer_contract.deliver_length [OF assms(1) refl, where env = env and key = key and sg = sg and av = av]
  show ?thesis
    using switch_and_deliver_cases [where env = env and key = key and mesh = mesh and policy = policy and st = st
        and sg = sg and av = av and calls = calls and r = r]
  proof cases
    case kept
    then show ?thesis
      using deliver [where policy = policy and sw = ?sw and calls = "sw_log ?sw"] sw_log_length [of env policy sg st calls] assms(2)
      by (simp add: order_trans [OF deliver])
  next
    case (refetched p)
    have "length (ManagedResources (Status p)) \<le> m" using assms(3) refetched(2) .
    then show ?thesis
      using refetched deliver [where policy = p and sw = ?sw and calls = "sw_log ?sw @ [GetPolicy]"] sw_log_length [of env policy sg st calls]
      by (simp add: order_trans [OF deliver])
  next
    case (gone e)
    then show ?thesis using sw_log_length [of env policy sg st calls] by simp
  qed
qed

lemma list_calls_few: "length (list_calls (Reconcile env key r)) \<le> 3"
proof (cases "k_get (kube env) []")
  case (Got policy)
  show ?thesis
    using reconcile_cases [of env policy key r] by cases (simp_all add: Reconcile_def Got rec_done_def)
qed (simp_all add: Reconcile_def rec_done_def)

lemma api_calls_bound:
  assumes "\<forall>calls p. k_get (kube env) calls = Got p \<longrightarrow> length (ManagedResources (Status p)) \<le> m"
  shows "length (api_calls (Reconcile env key r)) \<le> 8 + m"
proof (cases "k_get (kube env) []")
  case (Got policy)
  then have rec: "Reconcile env key r = reconcile_policy env key policy r" by (simp add: Reconcile_def)
  show ?thesis
    using reconcile_cases [of env policy key r]
  proof cases
    case (refused reason x)
    then show ?thesis using rec refused_calls [of "30 * second" env policy reason x r] by auto
  next
    case (no_mesh e ls)
    then show ?thesis using rec
        degraded_return_calls [of env policy "''MeshDetectionFailed''" e "30 * second" "[GetPolicy]" r] by auto
  next
    case (meshed mesh st r1 i r2 sg av r3 ls)
    then show ?thesis
      using rec switch_and_deliver_length [OF mesh_contract [OF meshed(2)], of policy m env key st sg av "[GetPolicy]" r3]
        assms Got by simp
  qed
qed (simp_all add: Reconcile_def)

text \<open>C9. A reconcile is bounded: its calls to the API server, the lists of mesh detection and of pod discovery included,
  are at most eleven beyond one deletion per resource that the fetched policy lists as managed.\<close>

theorem Reconcile_call_bound:
  assumes "\<forall>calls p. k_get (kube env) calls = Got p \<longrightarrow> length (ManagedResources (Status p)) \<le> m"
  shows "length (api_calls (Reconcile env key r)) + length (list_calls (Reconcile env key r)) \<le> 11 + m"
  using api_calls_bound [OF assms, of key r] list_calls_few [of env key r] by simp

theorem Reconcile_call_bound_witness:
  "length (api_calls (Reconcile (calm_env (managed_policy ''open'')) sample_key (NewAdaptivePolicyReconciler None))) +
   length (list_calls (Reconcile (calm_env (managed_policy ''open'')) sample_key (NewAdaptivePolicyReconciler None))) \<le> 11"
proof -
  have "\<forall>calls p. k_get (kube (calm_env (managed_policy ''open''))) calls = Got p \<longrightarrow>
      length (ManagedResources (Status p)) \<le> 0"
    by (simp add: calm_env_def managed_policy_def sample_defs sample_status_def)
  from Reconcile_call_bound [OF this] show ?thesis by simp
qed

subsection \<open>The steady state\<close>

definition ready_status :: "AdaptivePolicyStatus \<Rightarrow> bool" where
  "ready_status st \<longleftrightarrow> map_option c_Status (condition_at (Conditions st) ConditionReady) = Some ''True''"

lemma degraded_not_ready: "degraded_status reason st \<Longrightarrow> \<not> ready_status st"
  by (auto simp: degraded_status_def ready_status_def)

context renderer_contract
begin

lemma deliver_shape:
  fixes env key mesh policy sg av orig sw calls r
  assumes "r_Render mesh = render" "\<not> sw_switched sw" "render (selector_order env) policy = Inr res"
  defines "rec \<equiv> render_and_deliver env key mesh policy sg av orig sw calls r"
  obtains (degraded) calls' st reason where "api_calls rec = calls' @ [StatusPatch (Status policy) st]" "degraded_status reason st"
      "\<exists>applied. calls' = calls @ map ApplyObject applied \<and> length applied \<le> 5"
  | (finished) ob where "ob_render ob = res"
      "api_calls rec = calls @ map ApplyObject (Resources res) @
        map DeleteObject (filter (\<lambda>m. ref_key m \<notin> ref_key ` set (ManagedResourceRefs res)) (ManagedResources (Status policy))) @
        [StatusPatch (Status policy) (snd (new_status env policy ob (sw_state sw)))]"
proof (cases "fst (apply_all env (Resources res) calls)")
  case None
  obtain ok sent r' where p: "push_layers env mesh False res (register_layers env policy res r) = (ok, sent, r')"
    by (cases "push_layers env mesh False res (register_layers env policy res r)")
  obtain calls1 where "apply_all env (Resources res) calls = (None, calls1)"
    using None by (cases "apply_all env (Resources res) calls") auto
  then show ?thesis
    using assms(2,3) p apply_all_done [OF None]
    by (intro finished [of "\<lparr>ob_signals = sg, ob_available = av, ob_original = orig, ob_decision = sw_decision sw,
        ob_switched = False, ob_connected = ok, ob_backend = r_Name mesh, ob_render = res\<rparr>"])
      (simp_all add: rec_def render_and_deliver_def assms(1) Let_def finish_calls pruneOrphanedResources_def prune_calls)
next
  case (Some e)
  obtain calls1 where a: "apply_all env (Resources res) calls = (Some e, calls1)"
    using Some by (cases "apply_all env (Resources res) calls") auto
  obtain st where "api_calls (degraded_return env policy ''ApplyFailed'' e (15 * second) calls1 r) =
      calls1 @ [StatusPatch (Status policy) st]" "degraded_status ''ApplyFailed'' st"
    using degraded_return_calls by blast
  moreover have "\<exists>applied. calls1 = calls @ map ApplyObject applied \<and> length applied \<le> 5"
    using apply_all_calls [of "Resources res" env calls] apply_all_length [of env "Resources res" calls] few [OF assms(3)] a
    by auto
  ultimately show ?thesis
    using assms(2,3) a by (intro degraded) (simp_all add: rec_def render_and_deliver_def assms(1))
qed

end

lemma switched_logs: "sw_switched (evaluateAndSwitch env policy sg st calls) \<Longrightarrow>
    filter is_switch (sw_log (evaluateAndSwitch env policy sg st calls)) \<noteq> []"
proof -
  obtain k where "switch_outcome env policy sg st calls (evaluateAndSwitch env policy sg st calls) k"
    using evaluateAndSwitch_outcome by blast
  then show "sw_switched (evaluateAndSwitch env policy sg st calls) \<Longrightarrow>
      filter is_switch (sw_log (evaluateAndSwitch env policy sg st calls)) \<noteq> []"
    by (cases k) (auto simp: switch_outcome_def)
qed

lemma unswitched_log: "filter is_switch (sw_log (evaluateAndSwitch env policy sg st [GetPolicy])) = [] \<Longrightarrow>
    sw_log (evaluateAndSwitch env policy sg st [GetPolicy]) = [GetPolicy] \<and> sw_policy (evaluateAndSwitch env policy sg st [GetPolicy]) = policy"
proof -
  obtain k where "switch_outcome env policy sg st [GetPolicy] (evaluateAndSwitch env policy sg st [GetPolicy]) k"
    using evaluateAndSwitch_outcome by blast
  then show "filter is_switch (sw_log (evaluateAndSwitch env policy sg st [GetPolicy])) = [] \<Longrightarrow>
      sw_log (evaluateAndSwitch env policy sg st [GetPolicy]) = [GetPolicy] \<and> sw_policy (evaluateAndSwitch env policy sg st [GetPolicy]) = policy"
    by (cases k) (auto simp: switch_outcome_def)
qed

text \<open>What the calls of a reconcile without profile patch are.\<close>

lemma unswitched_calls:
  assumes "k_get (kube env) [] = Got p" "filter is_switch (api_calls (Reconcile env key r)) = []"
  obtains (degraded) calls st reason where "api_calls (Reconcile env key r) = calls @ [StatusPatch (Status p) st]"
      "degraded_status reason st" "filter is_delete calls = []" "length calls \<le> 6"
  | (finished) mesh res ob st where "DetectAndBuild (cluster env) p = Inr mesh" "r_Render mesh (selector_order env) p = Inr res"
      "ob_render ob = res"
      "api_calls (Reconcile env key r) = GetPolicy # map ApplyObject (Resources res) @
        map DeleteObject (filter (\<lambda>m. ref_key m \<notin> ref_key ` set (ManagedResourceRefs res)) (ManagedResources (Status p))) @
        [StatusPatch (Status p) (snd (new_status env p ob st))]"
proof -
  have rec: "Reconcile env key r = reconcile_policy env key p r" using assms(1) by (simp add: Reconcile_def)
  show ?thesis
    using reconcile_cases [of env p key r]
  proof cases
    case (refused reason m)
    obtain st where "api_calls (Reconcile env key r) = [GetPolicy] @ [StatusPatch (Status p) st]" "degraded_status reason st"
      using refused_calls [of "30 * second" env p reason m r] rec refused(2) by auto
    then show ?thesis by (rule degraded) simp_all
  next
    case (no_mesh e ls)
    obtain st where "api_calls (Reconcile env key r) = [GetPolicy] @ [StatusPatch (Status p) st]"
      "degraded_status ''MeshDetectionFailed'' st"
      using degraded_return_calls [of env p "''MeshDetectionFailed''" e "30 * second" "[GetPolicy]" r] rec no_mesh(3) by auto
    then show ?thesis by (rule degraded) simp_all
  next
    case (meshed mesh st r1 i r2 sg av r3 ls)
    let ?sw = "evaluateAndSwitch env p sg st [GetPolicy]"
    note contract = mesh_contract [OF meshed(2)]
    obtain rest where rest: "api_calls (Reconcile env key r) = sw_log ?sw @ rest"
      using meshed_calls [OF contract, of env key p st sg av "[GetPolicy]" r3] rec meshed(6) by auto
    then have u: "filter is_switch (sw_log ?sw) = []" using assms(2) by simp
    then have n: "\<not> sw_switched ?sw" using switched_logs by blast
    obtain res where res: "r_Render mesh (selector_order env) p = Inr res" using renderer_contract.total [OF contract] by blast
    have rd: "api_calls (Reconcile env key r) = api_calls (render_and_deliver env key mesh p sg av (ActiveProfile (Spec p))
        ?sw [GetPolicy] (store_state key (sw_state ?sw) r3))"
      using n unswitched_log [OF u] by (simp add: rec meshed(6) switch_and_deliver_def Let_def)
    show ?thesis
    proof (rule renderer_contract.deliver_shape [OF contract refl n res, of key sg av "ActiveProfile (Spec p)" "[GetPolicy]"
          "store_state key (sw_state ?sw) r3"])
      fix calls' st' reason
      assume "api_calls (render_and_deliver env key mesh p sg av (ActiveProfile (Spec p)) ?sw [GetPolicy]
          (store_state key (sw_state ?sw) r3)) = calls' @ [StatusPatch (Status p) st']" "degraded_status reason st'"
        "\<exists>applied. calls' = [GetPolicy] @ map ApplyObject applied \<and> length applied \<le> 5"
      then show ?thesis by (intro degraded [of calls' st' reason]) (auto simp: rd filter_map o_def)
    next
      fix ob assume "ob_render ob = res" "api_calls (render_and_deliver env key mesh p sg av (ActiveProfile (Spec p)) ?sw [GetPolicy]
          (store_state key (sw_state ?sw) r3)) = [GetPolicy] @ map ApplyObject (Resources res) @
        map DeleteObject (filter (\<lambda>m. ref_key m \<notin> ref_key ` set (ManagedResourceRefs res)) (ManagedResources (Status p))) @
        [StatusPatch (Status p) (snd (new_status env p ob (sw_state ?sw)))]"
      then show ?thesis by (intro finished [OF meshed(2) res]) (simp_all add: rd)
    qed
  qed
qed

lemma backend_status: "DetectAndBuild c (p\<lparr>Status := st\<rparr>) = DetectAndBuild c p"
proof -
  have "EffectiveMeshBackend (p\<lparr>Status := st\<rparr>) = EffectiveMeshBackend p" by (simp add: EffectiveMeshBackend_def)
  then show ?thesis by (simp only: DetectAndBuild_def)
qed

lemma new_status_refs: "ManagedResources (snd (new_status env p ob st)) = ManagedResourceRefs (ob_render ob)"
  by (simp add: new_status_def status_fields_def record_decision_def Let_def split: prod.splits)

lemma last_status: "a @ [StatusPatch x y] = b @ [StatusPatch x' y'] \<longleftrightarrow> a = b \<and> x = x' \<and> y = y'"
  by simp


definition sent_status :: "api_call list \<Rightarrow> AdaptivePolicyStatus" where
  "sent_status calls = (case last calls of StatusPatch old new \<Rightarrow> new | _ \<Rightarrow> sample_status)"

definition settled_policy :: AdaptivePolicy where
  \<comment> \<open>the sample policy with the status its first reconcile wrote\<close>
  "settled_policy = (managed_policy ''open'')\<lparr>Status := sent_status (api_calls (Reconcile
     (calm_env (managed_policy ''open'')) sample_key (NewAdaptivePolicyReconciler None)))\<rparr>"

lemma settled_ready:
  "ready_status (Status settled_policy)"
  "last (api_calls (Reconcile (calm_env (managed_policy ''open'')) sample_key (NewAdaptivePolicyReconciler None))) =
    StatusPatch (Status (managed_policy ''open'')) (Status settled_policy)"
  "filter is_switch (api_calls (Reconcile (calm_env (managed_policy ''open'')) sample_key (NewAdaptivePolicyReconciler None))) = []"
  "filter is_switch (api_calls (Reconcile (calm_env settled_policy) sample_key (NewAdaptivePolicyReconciler None))) = []"
  subgoal by code_simp
  subgoal by code_simp
  subgoal by code_simp
  subgoal by code_simp
  done


end
