(* ===== verification/Schema_Props.thy ===== *)
theory Schema_Props
  imports Status_Props
begin

section \<open>Status patches against the CRD schema\<close>

text \<open>
  The API server refuses a status that does not fit the schema generated from the types
  (\<open>config/crd/bases\<close>): conditions form a list map keyed by type, and each has a status from an enumeration, a reason and a type of
  restricted shape and length, a natural observed generation and a message of bounded length. All but the last
  holds of every status the controller sends. A message quotes names of the policy and errors of the API server,
  whose lengths nothing bounds: it is shown that this is the only way to break the schema, and that it can happen.
\<close>

subsection \<open>The schema\<close>

definition lower_char :: "char \<Rightarrow> bool" where
  "lower_char c \<longleftrightarrow> 97 \<le> char_code c \<and> char_code c \<le> 122"

definition letter_char :: "char \<Rightarrow> bool" where
  "letter_char c \<longleftrightarrow> lower_char c \<or> 65 \<le> char_code c \<and> char_code c \<le> 90"

definition digit_char' :: "char \<Rightarrow> bool" where
  "digit_char' c \<longleftrightarrow> 48 \<le> char_code c \<and> char_code c \<le> 57"

definition edged :: "(char \<Rightarrow> bool) \<Rightarrow> (char \<Rightarrow> bool) \<Rightarrow> string \<Rightarrow> bool" where
  \<comment> \<open>\<open>edge (inner* edge)?\<close>, for edges that are inner characters too\<close>
  "edged edge inner s \<longleftrightarrow> s \<noteq> [] \<and> edge (hd s) \<and> edge (last s) \<and> list_all inner s"

definition reason_pattern :: "string \<Rightarrow> bool" where
  \<comment> \<open>\<open>^[A-Za-z]([A-Za-z0-9_,:]*[A-Za-z0-9_])?$\<close>\<close>
  "reason_pattern s \<longleftrightarrow> s \<noteq> [] \<and> letter_char (hd s) \<and>
     edged (\<lambda>c. letter_char c \<or> digit_char' c \<or> c = CHR ''_'')
       (\<lambda>c. letter_char c \<or> digit_char' c \<or> c \<in> set ''_,:'') s"

definition dns_label :: "string \<Rightarrow> bool" where
  "dns_label = edged (\<lambda>c. lower_char c \<or> digit_char' c) (\<lambda>c. lower_char c \<or> digit_char' c \<or> c = CHR ''-'')"

definition type_name_part :: "string \<Rightarrow> bool" where
  "type_name_part = edged (\<lambda>c. letter_char c \<or> digit_char' c) (\<lambda>c. letter_char c \<or> digit_char' c \<or> c \<in> set ''-_.'')"

definition type_pattern :: "string \<Rightarrow> bool" where
  \<comment> \<open>an optional DNS subdomain and a slash, then a name\<close>
  "type_pattern s \<longleftrightarrow> (case str_split (CHR ''/'') s of
     [n] \<Rightarrow> type_name_part n
   | [d, n] \<Rightarrow> list_all dns_label (str_split (CHR ''.'') d) \<and> type_name_part n
   | _ \<Rightarrow> False)"

definition condition_shape :: "Condition \<Rightarrow> bool" where
  \<comment> \<open>every rule of the schema but the length of the message\<close>
  "condition_shape c \<longleftrightarrow> c_Status c \<in> {''True'', ''False'', ''Unknown''} \<and>
     reason_pattern (c_Reason c) \<and> length (c_Reason c) \<le> 1024 \<and>
     type_pattern (c_Type c) \<and> length (c_Type c) \<le> 316 \<and> 0 \<le> c_ObservedGeneration c"

function rune_count :: "string \<Rightarrow> nat" where
  \<comment> \<open>the length of a string in runes, in which the schema measures it\<close>
  "rune_count [] = 0"
| "rune_count (c # s) = Suc (rune_count (case decode_rune (c # s) of
     None \<Rightarrow> s | Some (r, w) \<Rightarrow> drop (max 1 w) (c # s)))"
  by pat_completeness auto
termination
  by (relation "measure length") (auto split: option.splits)

definition message_fits :: "Condition \<Rightarrow> bool" where
  "message_fits c \<longleftrightarrow> rune_count (c_Message c) \<le> 32768"

definition condition_conforms :: "Condition \<Rightarrow> bool" where
  "condition_conforms c \<longleftrightarrow> condition_shape c \<and> message_fits c"

definition status_conforms :: "AdaptivePolicyStatus \<Rightarrow> bool" where
  "status_conforms st \<longleftrightarrow> distinct (map c_Type (Conditions st)) \<and> list_all condition_conforms (Conditions st)"

definition status_shape :: "AdaptivePolicyStatus \<Rightarrow> bool" where
  "status_shape st \<longleftrightarrow> distinct (map c_Type (Conditions st)) \<and> list_all condition_shape (Conditions st)"

lemma status_conforms_iff: "status_conforms st \<longleftrightarrow> status_shape st \<and> list_all message_fits (Conditions st)"
  by (auto simp: status_conforms_def status_shape_def condition_conforms_def list_all_iff)

subsection \<open>Setting a condition\<close>

lemma setCondition_shape:
  assumes "condition_shape c" "list_all condition_shape cs"
  shows "list_all condition_shape (setCondition now c cs)"
proof -
  have "condition_shape (c\<lparr>c_LastTransitionTime := now\<rparr>)" using assms(1) by (simp add: condition_shape_def)
  then have "list_all condition_shape (upsert_condition (c\<lparr>c_LastTransitionTime := now\<rparr>) cs)"
    using assms(2) by (induction cs) (auto simp: condition_shape_def)
  then show ?thesis by (simp add: setCondition_def)
qed

definition our_types :: "string list" where
  "our_types = [ConditionReady, ConditionDegraded, ConditionSignalCollectionAvailable, ConditionFilterEffective]"

definition our_reasons :: "string list" where
  "our_reasons = [''NoActiveFilters'', ''InvalidActiveProfile'', ''InvalidTrigger'', ''InvalidSchedule'', ''MeshDetectionFailed'',
     ''RenderFailed'', ''ApplyFailed'', ''Reconciled'', ''ScrapingOK'', ''ScrapingFailed'', ''ZeroEjections'', ''EjectionsObserved'']"

lemma our_names_conform:
  "list_all (\<lambda>t. type_pattern t \<and> length t \<le> 316) our_types"
  "list_all (\<lambda>s. reason_pattern s \<and> length s \<le> 1024) our_reasons"
  by code_simp+

lemma condition_of_conforms:
  assumes "ty \<in> set our_types" "reason \<in> set our_reasons" "0 \<le> gen"
  shows "condition_shape (condition_of ty b reason m gen)"
  using assms our_names_conform by (auto simp: condition_shape_def condition_of_def list_all_iff)

lemma set_conforms:
  assumes "distinct (map c_Type cs) \<and> list_all condition_shape cs" "ty \<in> set our_types" "reason \<in> set our_reasons" "0 \<le> gen"
  shows "distinct (map c_Type (setCondition now (condition_of ty b reason m gen) cs)) \<and>
    list_all condition_shape (setCondition now (condition_of ty b reason m gen) cs)"
  using assms setCondition_distinct setCondition_shape condition_of_conforms by blast

subsection \<open>Every patch\<close>

definition patches_shaped :: "api_call list \<Rightarrow> bool" where
  "patches_shaped calls \<longleftrightarrow> (\<forall>old new. StatusPatch old new \<in> set calls \<longrightarrow> status_shape new)"

definition policy_conforms :: "AdaptivePolicy \<Rightarrow> bool" where
  "policy_conforms p \<longleftrightarrow> status_conforms (Status p) \<and> 0 \<le> Generation p"

lemma policy_shape: "policy_conforms p \<Longrightarrow> status_shape (Status p) \<and> 0 \<le> Generation p"
  by (simp add: policy_conforms_def status_conforms_iff)

lemma patches_shaped_simps [simp]:
  "patches_shaped []" "patches_shaped (a @ b) \<longleftrightarrow> patches_shaped a \<and> patches_shaped b"
  "patches_shaped (map ApplyObject obs)" "patches_shaped (map DeleteObject ms)" "patches_shaped [GetPolicy]"
  "patches_shaped [SwitchPatch x]" "patches_shaped [StatusPatch old new] \<longleftrightarrow> status_shape new"
  by (auto simp: patches_shaped_def)

lemma markDegraded_conforms:
  assumes "policy_conforms p" "reason \<in> set our_reasons" "patches_shaped calls"
  shows "patches_shaped (snd (snd (markDegraded env p reason m calls)))"
proof -
  have t: "ConditionDegraded \<in> set our_types" "ConditionReady \<in> set our_types" by (simp_all add: our_types_def)
  let ?st = "Status p\<lparr>Conditions := setCondition (cond_now env 1) (condition_of ConditionReady False reason m (Generation p))
      (setCondition (cond_now env 0) (condition_of ConditionDegraded True reason m (Generation p)) (Conditions (Status p)))\<rparr>"
  have "status_shape ?st"
    using policy_shape [OF assms(1)] assms(2) set_conforms [OF set_conforms [OF _ t(1)] t(2)] by (simp add: status_shape_def)
  then show ?thesis using assms(3) by (simp add: markDegraded_def update_status_def Let_def split: sum.splits)
qed

lemma degraded_return_log: "api_calls (degraded_return env p reason m d calls r) = snd (snd (markDegraded env p reason m calls))"
  by (simp add: degraded_return_def rec_done_def split: prod.splits)

lemma filter_effective_conforms:
  assumes "distinct (map c_Type cs) \<and> list_all condition_shape cs" "0 \<le> Generation p"
  shows "distinct (map c_Type (snd (filter_effective env p ob st cs))) \<and>
    list_all condition_shape (snd (filter_effective env p ob st cs))"
proof -
  have "ConditionFilterEffective \<in> set our_types" "''ZeroEjections'' \<in> set our_reasons" "''EjectionsObserved'' \<in> set our_reasons"
    by (simp_all add: our_types_def our_reasons_def)
  note s = set_conforms [OF assms(1) this(1) this(2) assms(2)] set_conforms [OF assms(1) this(1) this(3) assms(2)]
  show ?thesis using assms(1) s by (simp add: filter_effective_def Let_def)
qed

lemma new_status_shape:
  assumes "policy_conforms p"
  shows "status_shape (snd (new_status env p ob st))"
proof -
  have t: "ConditionReady \<in> set our_types" "ConditionSignalCollectionAvailable \<in> set our_types"
    "''Reconciled'' \<in> set our_reasons" "(if b then ''ScrapingOK'' else ''ScrapingFailed'') \<in> set our_reasons" for b
    by (simp_all add: our_types_def our_reasons_def)
  have g: "0 \<le> Generation p" and c: "distinct (map c_Type (Conditions (Status p))) \<and> list_all condition_shape (Conditions (Status p))"
    using policy_shape [OF assms] by (simp_all add: status_shape_def)
  have "distinct (map c_Type (base_conditions env p ob (Conditions (Status p)))) \<and>
      list_all condition_shape (base_conditions env p ob (Conditions (Status p)))"
    unfolding base_conditions_def Let_def by (rule set_conforms [OF set_conforms [OF c t(1,3) g] t(2,4) g])
  from filter_effective_conforms [OF this g] show ?thesis by (simp add: status_shape_def new_status_conditions)
qed

lemma deliver_conforms:
  assumes "policy_conforms p" "patches_shaped calls" "renderer_contract (r_Render mesh)"
  shows "patches_shaped (api_calls (render_and_deliver env key mesh p sg av orig sw calls r))"
proof -
  obtain res where res: "r_Render mesh (selector_order env) p = Inr res" using renderer_contract.total [OF assms(3)] by blast
  obtain err calls1 where ap: "(if sw_switched sw then (None, calls) else apply_all env (Resources res) calls) = (err, calls1)"
    by fastforce
  obtain obs where "calls1 = calls @ map ApplyObject obs"
    using ap apply_all_calls [of "Resources res" env calls] by (cases "sw_switched sw") (auto intro: that [of "[]"])
  then have c1: "patches_shaped calls1" using assms(2) by simp
  have e: "''ApplyFailed'' \<in> set our_reasons" by (simp add: our_reasons_def)
  show ?thesis
    using ap res c1 markDegraded_conforms [OF assms(1) e c1] new_status_shape [OF assms(1)]
    by (cases err)
      (auto simp: render_and_deliver_def degraded_return_log finish_calls pruneOrphanedResources_def
        prune_calls Let_def split: prod.splits)
qed

text \<open>C8. When every policy a reconcile fetches fits the CRD's schema for conditions, each status it sends, on every
  path, the degraded ones included, has conditions of distinct types whose status is of the enumeration and whose
  types, reasons and generations have the required shape and length; so the status fits the schema exactly if
  each of its messages keeps to the schema's 32768 characters, which the code does not check.\<close>

theorem status_patches_conform:
  assumes "\<forall>calls p. k_get (kube env) calls = Got p \<longrightarrow> policy_conforms p"
    and "StatusPatch old new \<in> set (api_calls (Reconcile env key r))"
  shows "status_shape new \<and> (status_conforms new \<longleftrightarrow> list_all (\<lambda>c. rune_count (c_Message c) \<le> 32768) (Conditions new))"
proof -
  have "patches_shaped (api_calls (Reconcile env key r))"
  proof (cases "k_get (kube env) []")
    case (Got p)
    then have p: "policy_conforms p" and rec: "Reconcile env key r = reconcile_policy env key p r"
      using assms(1) by (auto simp: Reconcile_def)
    show ?thesis
      using reconcile_cases [of env p key r]
    proof cases
      case (refused reason m)
      then have "reason \<in> set our_reasons"
        by (auto simp: violation_def our_reasons_def Let_def split: if_splits option.splits)
      from markDegraded_conforms [OF p this] show ?thesis by (simp add: rec refused(2) rec_done_def)
    next
      case (no_mesh e ls)
      have "''MeshDetectionFailed'' \<in> set our_reasons" by (simp add: our_reasons_def)
      from markDegraded_conforms [OF p this, of "[GetPolicy]" env e] show ?thesis
        by (simp add: rec no_mesh(3) degraded_return_log)
    next
      case (meshed mesh st r1 i r2 sg av r3 ls)
      let ?sw = "evaluateAndSwitch env p sg st [GetPolicy]"
      note deliver = deliver_conforms [OF _ _ mesh_contract [OF meshed(2)]]
      obtain k where k: "switch_outcome env p sg st [GetPolicy] ?sw k" using evaluateAndSwitch_outcome by blast
      then have log: "patches_shaped (sw_log ?sw)" and same: "\<not> sw_switched ?sw \<Longrightarrow> sw_policy ?sw = p"
        by (cases k; auto simp: switch_outcome_def patches_shaped_def Let_def)+
      show ?thesis
        using switch_and_deliver_cases [where env = env and key = key and mesh = mesh and policy = p and st = st
            and sg = sg and av = av and calls = "[GetPolicy]" and r = r3]
      proof cases
        case kept
        show ?thesis using deliver [OF p log] by (simp add: rec meshed(6) kept(2))
      next
        case (refetched q)
        have "policy_conforms q" using assms(1) refetched(2) by blast
        then show ?thesis using deliver log by (simp add: rec meshed(6) refetched(3))
      next
        case (gone e)
        then show ?thesis using log by (simp add: rec meshed(6))
      qed
    qed
  qed (simp_all add: Reconcile_def)
  then have "status_shape new" using assms(2) by (auto simp: patches_shaped_def)
  then show ?thesis by (simp add: status_conforms_iff message_fits_def [abs_def])
qed

lemma refused_status:
  assumes "k_get (kube env) [] = Got p" "violation env p = Some (reason, m)"
  shows "\<exists>st. api_calls (Reconcile env key r) = [GetPolicy, StatusPatch (Status p) st] \<and>
    Conditions st = setCondition (cond_now env 1) (condition_of ConditionReady False reason m (Generation p))
      (setCondition (cond_now env 0) (condition_of ConditionDegraded True reason m (Generation p)) (Conditions (Status p)))"
proof -
  have "api_calls (Reconcile env key r) = snd (snd (markDegraded env p reason m [GetPolicy]))"
    using assms by (simp add: Reconcile_def reconcile_policy_def validatePolicy_def rec_done_def split: prod.splits)
  then show ?thesis by (simp add: markDegraded_def update_status_def Let_def split: sum.splits)
qed

lemma rune_count_length: "rune_count s \<le> length s"
proof (induction s rule: rune_count.induct)
  case (2 c s)
  let ?rest = "case decode_rune (c # s) of None \<Rightarrow> s | Some (r, w) \<Rightarrow> drop (max 1 w) (c # s)"
  have "length ?rest \<le> length s" by (auto split: option.split)
  with "2.IH" have "Suc (rune_count ?rest) \<le> length (c # s)" by simp
  then show ?case by (simp only: rune_count.simps)
qed simp

lemma two_conditions:
  "c_Type a \<noteq> c_Type b \<Longrightarrow> setCondition t b (setCondition u a []) =
    [a\<lparr>c_LastTransitionTime := u\<rparr>, b\<lparr>c_LastTransitionTime := t\<rparr>]"
  by (simp add: setCondition_def)

theorem status_patches_conform_witness:
  "\<exists>old new. StatusPatch old new \<in>
      set (api_calls (Reconcile (calm_env (sample_policy ''open'')) sample_key (NewAdaptivePolicyReconciler None))) \<and>
    status_conforms new \<and> Conditions new \<noteq> []"
proof -
  let ?p = "sample_policy ''open''"
  have c: "\<forall>calls p. k_get (kube (calm_env ?p)) calls = Got p \<longrightarrow> policy_conforms p"
    by (simp add: calm_env_def policy_conforms_def status_conforms_def sample_defs sample_status_def)
  have v: "violation (calm_env ?p) ?p = Some (''NoActiveFilters'', no_filters_message)"
    by (simp add: violation_def HasAdmissionControl_def HasAdaptiveConcurrency_def HasStreamingProtection_def sample_defs)
  have g: "k_get (kube (calm_env ?p)) [] = Got ?p" by (simp add: calm_env_def)
  obtain new where new: "StatusPatch (Status ?p) new \<in>
      set (api_calls (Reconcile (calm_env ?p) sample_key (NewAdaptivePolicyReconciler None)))"
    "map c_Message (Conditions new) = [no_filters_message, no_filters_message]"
    using refused_status [OF g v, of sample_key "NewAdaptivePolicyReconciler None"]
    by (auto simp: sample_defs sample_status_def two_conditions condition_of_def ConditionDegraded_def ConditionReady_def)
  have "rune_count no_filters_message \<le> 32768"
    using rune_count_length [of no_filters_message] by (simp add: no_filters_message_def em_dash_def)
  then have "list_all (\<lambda>m. rune_count m \<le> 32768) (map c_Message (Conditions new))" by (simp add: new(2))
  then have "status_conforms new" using status_patches_conform [OF c new(1)] by (simp add: list.pred_map o_def)
  moreover have "Conditions new \<noteq> []" using new(2) by auto
  ultimately show ?thesis using new(1) by blast
qed

subsection \<open>A message that does not fit\<close>

lemma rune_count_ascii: "list_all (\<lambda>c. char_code c < 128) s \<Longrightarrow> rune_count (s @ t) = length s + rune_count t"
proof (induction s)
  case (Cons c s)
  from Cons.prems have "decode_rune (c # s @ t) = Some (char_code c, 1)" by (simp add: decode_rune_def)
  with Cons show ?case by simp
qed simp

definition long_target_policy :: "nat \<Rightarrow> AdaptivePolicy" where
  \<comment> \<open>a trigger of the sample policy names a profile that does not exist, by \<open>n\<close> characters\<close>
  "long_target_policy n = (managed_policy ''open'')\<lparr>Spec := (Spec (managed_policy ''open''))\<lparr>Triggers :=
     [above99\<lparr>tr_SwitchTo := replicate n (CHR ''x'')\<rparr>]\<rparr>\<rparr>"

text \<open>The marking of an invalid policy that quotes a long name does not fit the schema.\<close>

lemma long_target_unmarked:
  assumes "32768 < n"
  defines "p \<equiv> long_target_policy n"
  shows "policy_conforms p \<and> (\<exists>new. api_calls (Reconcile (calm_env p) key r) =
      [GetPolicy, StatusPatch (Status p) new] \<and> \<not> status_conforms new)"
proof -
  let ?x = "replicate n (CHR ''x'')"
  define m where "m = switch_to_message (calm_env p) ''trigger'' ''recover'' ?x (Profiles (Spec p))"
  have st: "Status p = sample_status" "Generation p = 1"
    by (simp_all add: p_def long_target_policy_def managed_policy_def sample_defs)
  have x: "?x \<noteq> ''open''" "?x \<noteq> ''strict''" using assms(1) by (auto dest!: arg_cong [where f = length])
  then have v: "violation (calm_env p) p = Some (''InvalidTrigger'', m)"
    by (simp add: m_def violation_def p_def long_target_policy_def managed_policy_def sample_defs HasStreamingProtection_def)
  have "plain_ascii ?x" "plain_ascii ''recover''" by (simp_all add: plain_ascii_def list_all_iff char_code_def)
  then have q: "fmt_q ip ?x = CHR 0x22 # ?x @ [CHR 0x22]" "fmt_q ip ''recover'' = CHR 0x22 # ''recover'' @ [CHR 0x22]" for ip
    by (simp_all add: fmt_q_plain)
  define pre where "pre = ''trigger '' @ (CHR 0x22 # ''recover'' @ [CHR 0x22]) @ '' switchTo '' @ [CHR 0x22] @ ?x"
  obtain rest where rest: "m = pre @ rest" by (simp add: m_def pre_def switch_to_message_def q)
  have "list_all (\<lambda>c. char_code c < 128) pre" "n \<le> length pre" by (simp_all add: pre_def list_all_iff char_code_def)
  then have long: "32768 < rune_count m" using assms(1) rune_count_ascii [of pre rest] by (simp add: rest)
  have g: "k_get (kube (calm_env p)) [] = Got p" by (simp add: calm_env_def)
  obtain new where new: "api_calls (Reconcile (calm_env p) key r) = [GetPolicy, StatusPatch (Status p) new]"
    "map c_Message (Conditions new) = [m, m]"
    using refused_status [OF g v, of key r]
    by (auto simp: st sample_status_def two_conditions condition_of_def ConditionDegraded_def ConditionReady_def)
  then have "\<not> list_all (\<lambda>m. rune_count m \<le> 32768) (map c_Message (Conditions new))" using long by simp
  then have "\<not> status_conforms new" by (simp add: status_conforms_iff message_fits_def [abs_def] list.pred_map o_def)
  moreover have "policy_conforms p" by (simp add: policy_conforms_def status_conforms_def st sample_status_def)
  ultimately show ?thesis using new(1) by blast
qed

end
