(* ===== verification/Loop_Props.thy ===== *)
theory Loop_Props
  imports Status_Props
begin

section \<open>From signals to a profile switch\<close>

text \<open>
  The trigger evaluator's guarantee that sustained evidence is never lost, carried through the reconcile
  loop: what one reconcile does to the trigger state, then a sequence of them.
\<close>

definition stored :: "string \<Rightarrow> Reconciler \<Rightarrow> State" where
  \<comment> \<open>the policy's trigger state as a reconcile will find it\<close>
  "stored key r = (case map_of (triggerState r) key of None \<Rightarrow> NewState | Some st \<Rightarrow> st)"

definition seen :: "rec_env \<Rightarrow> string \<Rightarrow> AdaptivePolicy \<Rightarrow> Reconciler \<Rightarrow> Signals" where
  \<comment> \<open>the signals a reconcile of the policy acts on\<close>
  "seen env key p r =
     (let (st, r1) = ensure_state key r; (i, r2) = ensurePoller key p r1;
          (sg, av, r3) = read_signals env p i (run_ticks (late_ticks env) i r2) in sg)"

definition evaluable :: "rec_env \<Rightarrow> AdaptivePolicy \<Rightarrow> gotime \<Rightarrow> bool" where
  \<comment> \<open>the reconcile finds the policy, may switch it, and evaluates it at one instant\<close>
  "evaluable env p now \<longleftrightarrow> k_get (kube env) [] = Got p \<and> well_formed p \<and> \<not> IsHumanOverrideEnabled p \<and>
     (\<exists>mesh. DetectAndBuild (cluster env) p = Inr mesh) \<and> eval_clock env = (\<lambda>_. now)"

lemma ensure_state_stored: "ensure_state key r = (st, r') \<Longrightarrow> st = stored key r"
  by (auto simp: ensure_state_def stored_def split: option.splits)

subsection \<open>One reconcile\<close>

lemma deliver_keeps_triggers:
  assumes "map_of (triggerState r) key = Some (sw_state sw)"
  shows "\<exists>n. map_of (triggerState (rec_after (render_and_deliver env key mesh policy sg av orig sw calls r))) key =
    Some ((sw_state sw)\<lparr>ConsecutiveFilterInactive := n\<rparr>)"
proof -
  have eq: "\<exists>n. Some st = Some (st\<lparr>ConsecutiveFilterInactive := n\<rparr>)" for st :: State
    by (intro exI [of _ "ConsecutiveFilterInactive st"]) simp
  have fe: "\<exists>n. fst (new_status env policy ob st) = st\<lparr>ConsecutiveFilterInactive := n\<rparr>" for ob st
  proof -
    have "\<exists>n. st = st\<lparr>ConsecutiveFilterInactive := n\<rparr>"
      by (intro exI [of _ "ConsecutiveFilterInactive st"]) simp
    then show ?thesis by (auto simp: new_status_def filter_effective_def Let_def split: prod.splits if_splits)
  qed
  have fin: "\<exists>n. map_of (triggerState (rec_after (finish env key policy ob st calls' sent r'))) key =
      Some (st\<lparr>ConsecutiveFilterInactive := n\<rparr>)" for ob st calls' sent r'
    using fe [of ob st] by (auto simp: finish_def Let_def store_state_def split: prod.splits)
  show ?thesis
  proof (cases "r_Render mesh (selector_order env) policy")
    case (Inl e)
    then show ?thesis using assms eq by (simp add: render_and_deliver_def)
  next
    case (Inr res)
    obtain err calls1 where ap: "(if sw_switched sw then (None, calls) else apply_all env (Resources res) calls) =
        (err, calls1)" by fastforce
    show ?thesis
    proof (cases err)
      case None
      then show ?thesis using Inr ap fin by (simp add: render_and_deliver_def Let_def split: prod.splits)
    next
      case (Some e)
      then show ?thesis using Inr ap assms eq by (simp add: render_and_deliver_def)
    qed
  qed
qed

lemma Reconcile_evaluates:
  assumes "evaluable env p now" "Evaluate p (seen env key p r) (\<lambda>_. now) (stored key r) = (d, st')" "HasTriggers p"
  shows "ShouldSwitch d \<Longrightarrow> SwitchPatch (switch_patch (isprint env) (TargetProfile d) (ActiveProfile (Spec p))) \<in>
      set (api_calls (Reconcile env key r))"
    "\<exists>n. stored key (rec_after (Reconcile env key r)) = st'\<lparr>ConsecutiveFilterInactive := n\<rparr>"
proof -
  have p: "k_get (kube env) [] = Got p" "well_formed p" "\<not> IsHumanOverrideEnabled p" "eval_clock env = (\<lambda>_. now)"
    and m: "\<exists>mesh. DetectAndBuild (cluster env) p = Inr mesh" using assms(1) by (auto simp: evaluable_def)
  have rec: "Reconcile env key r = reconcile_policy env key p r" using p(1) by (simp add: Reconcile_def)
  have "(ShouldSwitch d \<longrightarrow> SwitchPatch (switch_patch (isprint env) (TargetProfile d) (ActiveProfile (Spec p))) \<in>
      set (api_calls (Reconcile env key r))) \<and>
    (\<exists>n. stored key (rec_after (Reconcile env key r)) = st'\<lparr>ConsecutiveFilterInactive := n\<rparr>)"
    using reconcile_cases [of env p key r]
  proof cases
    case (refused reason x)
    then show ?thesis using p(2) violation_None [of env p] by auto
  next
    case (no_mesh e)
    then show ?thesis using m by auto
  next
    case (meshed mesh st r1 i r2 sg av r3)
    have s: "seen env key p r = sg" "st = stored key r"
      using meshed(3-5) ensure_state_stored by (simp_all add: seen_def)
    let ?sw = "evaluateAndSwitch env p sg st [GetPolicy]"
    let ?patch = "switch_patch (isprint env) (TargetProfile d) (ActiveProfile (Spec p))"
    have sw: "sw_state ?sw = st'" "ShouldSwitch d \<Longrightarrow> sw_log ?sw = [GetPolicy, SwitchPatch ?patch]"
      using assms(2,3) p(3,4) s by (simp_all add: evaluateAndSwitch_def Let_def split: sum.splits)
    have "SwitchPatch ?patch \<in> set (api_calls (Reconcile env key r))" if "ShouldSwitch d"
      using meshed_calls [OF mesh_contract [OF meshed(2)], of env key p st sg av "[GetPolicy]" r3] sw(2) [OF that]
      by (auto simp: rec meshed(6))
    moreover have k: "map_of (triggerState (store_state key (sw_state ?sw) r3)) key = Some (sw_state ?sw)"
      by (simp add: store_state_def)
    have "\<exists>n. map_of (triggerState (rec_after (Reconcile env key r))) key = Some (st'\<lparr>ConsecutiveFilterInactive := n\<rparr>)"
      using switch_and_deliver_cases [where env = env and key = key and mesh = mesh and policy = p and st = st
          and sg = sg and av = av and calls = "[GetPolicy]" and r = r3]
    proof cases
      case kept
      then show ?thesis using deliver_keeps_triggers [OF k] sw(1) by (simp add: rec meshed(6))
    next
      case (refetched q)
      then show ?thesis using deliver_keeps_triggers [OF k] sw(1) by (simp add: rec meshed(6))
    next
      case (gone e)
      then show ?thesis using k sw(1)
        by (intro exI [of _ "ConsecutiveFilterInactive st'"]) (simp add: meshed(6) rec)
    qed
    ultimately show ?thesis by (auto simp: stored_def)
  qed
  then show "ShouldSwitch d \<Longrightarrow> SwitchPatch (switch_patch (isprint env) (TargetProfile d) (ActiveProfile (Spec p))) \<in>
      set (api_calls (Reconcile env key r))"
    "\<exists>n. stored key (rec_after (Reconcile env key r)) = st'\<lparr>ConsecutiveFilterInactive := n\<rparr>" by blast+
qed

lemma inactive_count_irrelevant [simp]:
  "samples (st\<lparr>ConsecutiveFilterInactive := n\<rparr>) m = samples st m"
  "counters_below ts (st\<lparr>ConsecutiveFilterInactive := n\<rparr>) = counters_below ts st"
  by (simp_all add: samples_def counters_below_def)

subsection \<open>A sequence of reconciles\<close>

definition reconciles :: "string \<Rightarrow> rec_env list \<Rightarrow> Reconciler \<Rightarrow> Reconciler" where
  "reconciles key envs r = fold (\<lambda>env r. rec_after (Reconcile env key r)) envs r"

fun pressing :: "string \<Rightarrow> TriggerConfig list \<Rightarrow> rec_env list \<Rightarrow> Reconciler \<Rightarrow> bool" where
  \<comment> \<open>every reconcile of the sequence can evaluate the policy with these triggers and sees signals that press
    the first one\<close>
  "pressing key ts [] r \<longleftrightarrow> True"
| "pressing key ts (env # envs) r \<longleftrightarrow>
     (\<exists>p now. evaluable env p now \<and> Triggers (Spec p) = ts \<and> presses (hd ts) [(p, seen env key p r, now)]) \<and>
     pressing key ts envs (rec_after (Reconcile env key r))"

lemma reconciles_switch:
  assumes "names_ok (t # ts)" "pressing key (t # ts) envs r" "counters_below (t # ts) (stored key r)"
    and "map_of (LastTriggerFireTime (stored key r)) (tr_Name t) = None"
    and "sint (requiredSamples (tr_When t)) \<le> sint (samples (stored key r) (tr_Name t)) + int (length envs)"
  shows "\<exists>before env after p. envs = before @ env # after \<and> k_get (kube env) [] = Got p \<and>
    SwitchPatch (switch_patch (isprint env) (tr_SwitchTo t) (ActiveProfile (Spec p))) \<in>
      set (api_calls (Reconcile env key (reconciles key before r)))"
  using assms(2-)
proof (induction envs arbitrary: r)
  case Nil
  then show ?case by (auto simp: counters_below_def)
next
  case (Cons env envs)
  obtain p now where p: "evaluable env p now" "Triggers (Spec p) = t # ts" "presses t [(p, seen env key p r, now)]"
    and rest: "pressing key (t # ts) envs (rec_after (Reconcile env key r))"
    using Cons.prems(1) by auto
  let ?sg = "seen env key p r" and ?st = "stored key r"
  obtain d st' where ev: "Evaluate p ?sg (\<lambda>_. now) ?st = (d, st')" by fastforce
  note step = Reconcile_evaluates [OF p(1) ev]
  have ht: "HasTriggers p" by (simp add: HasTriggers_def p(2))
  show ?case
  proof (cases "chosen p ?sg now ?st = Some t")
    case True
    with Evaluate_spec [of p ?sg now ?st] ev assms(1) have "ShouldSwitch d" "TargetProfile d = tr_SwitchTo t"
      by (simp_all add: p(2))
    with step(1) [OF ht] p(1) show ?thesis
      by (intro exI [of _ "[]"] exI [of _ env] exI [of _ envs] exI [of _ p]) (simp add: reconciles_def evaluable_def)
  next
    case False
    with Evaluate_head [OF p(2,3) Cons.prems(3)] have l: "looked_at p ?sg now ?st t" by blast
    have "holds ?sg t" using p(3) by (simp add: presses_def)
    then have "sint (samples st' (tr_Name t)) = sint (samples ?st (tr_Name t)) + 1"
      using Evaluate_samples [of p t ?sg now ?st] next_count_exact [OF Cons.prems(2), of t ?sg] l False assms(1) ev
      by (simp add: p(2))
    moreover have "counters_below (t # ts) st'"
      using Evaluate_counters_kept [of p ?st ?sg "\<lambda>_. now"] assms(1) Cons.prems(2) ev by (simp add: p(2))
    moreover have "map_of (LastTriggerFireTime st') (tr_Name t) = None"
      using Evaluate_not_fired [of p t ?sg now ?st] False assms(1) Cons.prems(3) ev by (simp add: p(2))
    moreover obtain n where "stored key (rec_after (Reconcile env key r)) = st'\<lparr>ConsecutiveFilterInactive := n\<rparr>"
      using step(2) [OF ht] by blast
    ultimately obtain before env' after p' where "envs = before @ env' # after" "k_get (kube env') [] = Got p'"
      "SwitchPatch (switch_patch (isprint env') (tr_SwitchTo t) (ActiveProfile (Spec p'))) \<in>
        set (api_calls (Reconcile env' key (reconciles key before (rec_after (Reconcile env key r)))))"
      using Cons.IH [OF rest] Cons.prems(4) by (auto simp del: pressing.simps)
    then show ?thesis
      by (intro exI [of _ "env # before"] exI [of _ env'] exI [of _ after] exI [of _ p']) (simp add: reconciles_def)
  qed
qed

text \<open>C3. From signals to the switch, end to end: if the policy's first trigger has not fired yet and successive
  reconciles, as many as it still needs, can evaluate the policy and see signals that meet its condition in a
  profile it applies to, then one of those reconciles sends the profile patch to its target, whatever
  else the API server, the mesh, the pollers and the runtime streams do in between.\<close>

theorem sustained_breach_switches:
  assumes "names_ok (t # ts)" "pressing key (t # ts) envs r" "counters_below (t # ts) (stored key r)"
    and "map_of (LastTriggerFireTime (stored key r)) (tr_Name t) = None"
    and "sint (requiredSamples (tr_When t)) \<le> sint (samples (stored key r) (tr_Name t)) + int (length envs)"
  shows "\<exists>before env after p. envs = before @ env # after \<and> k_get (kube env) [] = Got p \<and>
    SwitchPatch (switch_patch (isprint env) (tr_SwitchTo t) (ActiveProfile (Spec p))) \<in>
      set (api_calls (Reconcile env key (reconciles key before r)))"
  by (rule reconciles_switch [OF assms])

definition one_bad_sample :: State where
  "one_bad_sample = NewState\<lparr>ConsecutiveBadSamples := [(''degrade'', 1)]\<rparr>"

lemma one_bad_sample:
  "tr_SwitchTo below95 = ''strict''" "names_ok [below95, above99]" "counters_below [below95, above99] one_bad_sample"
  "map_of (LastTriggerFireTime one_bad_sample) (tr_Name below95) = None"
  "sint (requiredSamples (tr_When below95)) \<le> sint (samples one_bad_sample (tr_Name below95)) + 1"
proof -
  have s: "samples one_bad_sample ''degrade'' = 1" "samples one_bad_sample ''recover'' = 0"
    "tr_Name below95 = ''degrade''" "tr_Name above99 = ''recover''"
    by (simp_all add: one_bad_sample_def samples_def NewState_def sample_defs)
  have r: "sint (requiredSamples (tr_When below95)) = 2" "sint (requiredSamples (tr_When above99)) = 1" by code_simp+
  show "tr_SwitchTo below95 = ''strict''" by (simp add: below95_def)
  show "names_ok [below95, above99]" by (simp add: names_ok_def s)
  show "counters_below [below95, above99] one_bad_sample" by (simp add: counters_below_def s r)
  show "map_of (LastTriggerFireTime one_bad_sample) (tr_Name below95) = None" by (simp add: one_bad_sample_def NewState_def)
  show "sint (requiredSamples (tr_When below95)) \<le> sint (samples one_bad_sample (tr_Name below95)) + 1"
    by (simp add: s r)
qed

lemma managed_triggers: "Triggers (Spec (managed_policy cur)) = [below95, above99]"
  by (simp add: managed_policy_def sample_spec_def)

lemma managed_evaluable: "evaluable (calm_env (managed_policy ''open'')\<lparr>late_ticks := es\<rparr>) (managed_policy ''open'') 7"
  using managed_well_formed [of "''open''"]
  by (simp add: evaluable_def)
    (simp add: calm_env_def IsHumanOverrideEnabled_def map_get_def managed_policy_def sample_policy_def)

definition one_more :: Reconciler where
  \<comment> \<open>one bad sample is on record and the poller reports another\<close>
  "one_more = (sample_reconciler (managed_policy ''open'') (Some (sample_signals 90)))\<lparr>
     triggerState := [(sample_key, one_bad_sample)]\<rparr>"

theorem sustained_breach_switches_witness:
  "SwitchPatch (switch_patch (\<lambda>_. False) ''strict'' ''open'') \<in>
     set (api_calls (Reconcile (calm_env (managed_policy ''open'')) sample_key one_more))"
proof -
  let ?p = "managed_policy ''open''"
  let ?env = "calm_env ?p"
  have st: "stored sample_key one_more = one_bad_sample"
    by (simp add: stored_def one_more_def)
  have "seen ?env sample_key ?p one_more = sample_signals 90"
    by (simp add: seen_def one_more_def sample_reconciler_def NewAdaptivePolicyReconciler_def ensure_state_def
        ensurePoller_def calm_env_def read_signals_def)
  moreover have "holds (sample_signals 90) below95" by code_simp
  ultimately have pr: "presses below95 [(?p, seen ?env sample_key ?p one_more, 7)]"
    by (simp add: presses_def) (simp add: managed_policy_def sample_defs)
  have press: "pressing sample_key [below95, above99] [?env] one_more"
    using pr managed_triggers [of "''open''"] managed_evaluable [of "[]"] by (auto simp: calm_env_def)
  from sustained_breach_switches [OF one_bad_sample(2) press] obtain before env after q where
    *: "[?env] = before @ env # after" "k_get (kube env) [] = Got q"
    "SwitchPatch (switch_patch (isprint env) (tr_SwitchTo below95) (ActiveProfile (Spec q))) \<in>
      set (api_calls (Reconcile env sample_key (reconciles sample_key before one_more)))"
    using one_bad_sample(3-5) by (auto simp: st)
  then have b: "before = []" and v: "env = ?env" by (cases before; simp)+
  have q: "q = ?p" using *(2) unfolding v by (simp add: calm_env_def)
  have i: "isprint ?env = (\<lambda>_. False)" by (simp add: calm_env_def)
  have a: "ActiveProfile (Spec ?p) = ''open''" by (simp add: managed_policy_def)
  have n: "reconciles sample_key [] one_more = one_more" by (simp add: reconciles_def)
  show ?thesis using *(3) by (simp only: b v q i one_bad_sample(1) a n)
qed

end
