(* ===== verification/Breach_Props.thy ===== *)
theory Breach_Props
  imports Loop_Props Poller_Props Scraper_Props
begin

section \<open>From the pods to a profile switch\<close>

text \<open>
  The scraper, the poller and the reconcile composed: a run of breaching scrapes that confirms a
  breach is what the next reconcile evaluates, and if it meets the first trigger the profile is switched.
\<close>

fun poll_signals :: "AdaptivePolicy \<Rightarrow> scrape_env list \<Rightarrow> Scraper \<Rightarrow> Signals list" where
  \<comment> \<open>what the successful scrapes of a poller return\<close>
  "poll_signals p [] sc = []"
| "poll_signals p (e # es) sc = (case ReadSignals e p sc of
     (sg, None, sc') \<Rightarrow> sg # poll_signals p es sc'
   | (sg, Some x, sc') \<Rightarrow> poll_signals p es sc')"

lemma ticks_debounce: "fst (fold tick es (q, sc)) = fold debounce (poll_signals (poller_policy q) es sc) q"
proof (induction es arbitrary: q sc)
  case (Cons e es)
  obtain sg err sc' where r: "ReadSignals e (poller_policy q) sc = (sg, err, sc')"
    by (cases "ReadSignals e (poller_policy q) sc")
  have t: "tick e (q, sc) = (case err of None \<Rightarrow> (debounce sg q, sc') | Some _ \<Rightarrow> (q, sc'))"
    by (simp add: tick_def tick_with_def r split: option.splits)
  have pol: "poller_policy (debounce sg q) = poller_policy q" by (simp add: debounce_def Let_def)
  show ?case by (cases err) (simp_all add: t r Cons.IH pol)
qed simp

lemma breach_run_emits:
  assumes "\<not> firing (poller_state q)" "list_all (isBreaching (poller_policy q)) sgs" "sgs \<noteq> []"
    and "consecutiveBreach (poller_state q) + int (length sgs) = ConsecutiveBreaches (cfg q)"
  shows "out (fold debounce sgs q) = Some (last sgs)"
  using assms
proof (induction sgs arbitrary: q)
  case (Cons sg sgs)
  let ?q = "debounce sg q"
  have b: "isBreaching (poller_policy q) sg" using Cons.prems(2) by simp
  show ?case
  proof (cases "sgs = []")
    case True
    then show ?thesis using b Cons.prems(1,4) by (simp add: debounce_def Let_def)
  next
    case False
    then have "0 < length sgs" by simp
    then have "consecutiveBreach (poller_state q) + 1 < ConsecutiveBreaches (cfg q)"
      using Cons.prems(4) by (simp del: length_greater_0_conv)
    then have "\<not> firing (poller_state ?q)" "consecutiveBreach (poller_state ?q) = consecutiveBreach (poller_state q) + 1"
      using b Cons.prems(1) by (simp_all add: debounce_def Let_def)
    then show ?thesis using Cons.IH [of ?q] Cons.prems(2,4) False by simp
  qed
qed simp

definition polled :: "string \<Rightarrow> AdaptivePolicy \<Rightarrow> Reconciler \<Rightarrow> Poller" where
  \<comment> \<open>the poller whose channel a reconcile of the policy will read\<close>
  "polled key p r = (case ensurePoller key p (snd (ensure_state key r)) of (i, r') \<Rightarrow> g_poller (goroutines r' ! i))"

lemma ensurePoller_exists:
  assumes "pollers_ok r" "ensurePoller key p r = (i, r')"
  shows "i < length (goroutines r')"
proof (cases "\<exists>j. map_of (pollers r) key = Some j \<and> map_of (pollerGenerations r) key = Some (Generation p)")
  case True
  then obtain j where j: "map_of (pollers r) key = Some j" "map_of (pollerGenerations r) key = Some (Generation p)" by blast
  have "j < length (goroutines r)" using maps_ok_D(3) assms(1) j(1) by (metis empty_iff pollers_ok_def)
  then show ?thesis using assms(2) j by (simp add: ensurePoller_def)
next
  case False
  then have "\<exists>q. (i, r') = start_poller key p q"
    using assms(2) by (auto simp: ensurePoller_def split: option.splits if_splits intro: sym)
  then show ?thesis by (auto simp: start_poller_def Let_def)
qed

lemma seen_poller:
  assumes "pollers_ok r" "out (fst (fold tick (late_ticks env) (polled key p r, pollerScraper r))) = Some sg"
  shows "seen env key p r = sg"
proof -
  obtain st r1 where s1: "ensure_state key r = (st, r1)" by fastforce
  obtain i r2 where s2: "ensurePoller key p r1 = (i, r2)" by fastforce
  have ok: "pollers_ok r1" by (rule pollers_ok_view [OF ensure_state_view [OF s1] assms(1)])
  have i: "i < length (goroutines r2)" by (rule ensurePoller_exists [OF ok s2])
  have q: "polled key p r = g_poller (goroutines r2 ! i)" by (simp add: polled_def s1 s2)
  have sc: "pollerScraper r2 = pollerScraper r"
    using s1 s2 by (auto simp: ensure_state_def ensurePoller_def start_poller_def cancel_poller_def Let_def
        split: option.splits if_splits)
  show ?thesis
    using assms(2) i by (auto simp: seen_def s1 s2 run_ticks_def set_poller_def read_signals_def q sc split: prod.splits)
qed

text \<open>C4. From the pods to the switch: if the policy's poller is not firing and the scrapes since complete a run of
  breaches of the configured length, then the reconcile that reads the poller next acts on the last of
  these scrapes, and if it meets the policy's first trigger, which has not fired and needs one more
  sample, that reconcile sends the profile patch to the trigger's target.\<close>

theorem breaching_scrapes_switch:
  assumes "pollers_ok r" "evaluable env p now" "Triggers (Spec p) = t # ts" "names_ok (t # ts)"
    and "counters_below (t # ts) (stored key r)" "map_of (LastTriggerFireTime (stored key r)) (tr_Name t) = None"
    and "sint (requiredSamples (tr_When t)) \<le> sint (samples (stored key r) (tr_Name t)) + 1"
    and sgs: "sgs = poll_signals (poller_policy (polled key p r)) (late_ticks env) (pollerScraper r)"
    and "\<not> firing (poller_state (polled key p r))" "list_all (isBreaching (poller_policy (polled key p r))) sgs" "sgs \<noteq> []"
    and "consecutiveBreach (poller_state (polled key p r)) + int (length sgs) = ConsecutiveBreaches (cfg (polled key p r))"
    and "presses t [(p, last sgs, now)]"
  shows "seen env key p r = last sgs \<and>
    SwitchPatch (switch_patch (isprint env) (tr_SwitchTo t) (ActiveProfile (Spec p))) \<in> set (api_calls (Reconcile env key r))"
proof -
  have seen: "seen env key p r = last sgs"
    by (rule seen_poller [OF assms(1)]) (simp add: ticks_debounce sgs [symmetric] breach_run_emits [OF assms(9-12)])
  have "pressing key (t # ts) [env] r" using assms(2,3,13) by (simp, intro exI [of _ p] exI [of _ now]) (simp add: seen)
  from reconciles_switch [OF assms(4) this assms(5,6)] assms(7)
  obtain before env' after q where *: "[env] = before @ env' # after" "k_get (kube env') [] = Got q"
    "SwitchPatch (switch_patch (isprint env') (tr_SwitchTo t) (ActiveProfile (Spec q))) \<in>
      set (api_calls (Reconcile env' key (reconciles key before r)))" by auto
  then have b: "before = []" and e: "env' = env" by (cases before; simp)+
  have q: "q = p" using *(2) assms(2) unfolding e by (simp add: evaluable_def)
  have "reconciles key [] r = r" by (simp add: reconciles_def)
  then show ?thesis using *(3) seen unfolding b e q by simp
qed

definition breach_scrape :: scrape_env where
  \<comment> \<open>a tenth of the requests since the last scrape failed\<close>
  "breach_scrape = sample_env (\<lambda>_. sample_body 190 20) (\<lambda>n. 30 * second) [sample_pod ''a'']"

definition breach_env :: rec_env where
  "breach_env = (calm_env (managed_policy ''open''))\<lparr>late_ticks := [breach_scrape]\<rparr>"

definition two_breaches :: Reconciler where
  \<comment> \<open>the poller has seen two breaching scrapes of the three it needs\<close>
  "two_breaches = one_more\<lparr>pollerScraper := sample_previous,
     goroutines := [\<lparr>g_poller = (NewPoller (managed_policy ''open'') (pollerConfig None))\<lparr>poller_state :=
       \<lparr>consecutiveBreach = 2, consecutiveClean = 0, firing = False\<rparr>\<rparr>, g_cancelled = False, g_returned = False\<rparr>]\<rparr>"

lemma breach_scraped:
  "isBreaching (managed_policy ''open'') (fst (ReadSignals breach_scrape (managed_policy ''open'') sample_previous))"
  "fst (snd (ReadSignals breach_scrape (managed_policy ''open'') sample_previous)) = None"
  "SampleCount (fst (ReadSignals breach_scrape (managed_policy ''open'') sample_previous)) \<noteq> 0"
  "holds (fst (ReadSignals breach_scrape (managed_policy ''open'') sample_previous)) below95"
  by code_simp+

theorem breaching_scrapes_switch_witness:
  "SwitchPatch (switch_patch (\<lambda>_. False) ''strict'' ''open'') \<in> set (api_calls (Reconcile breach_env sample_key two_breaches))"
proof -
  let ?p = "managed_policy ''open''" and ?env = breach_env and ?r = two_breaches
  obtain sg sc where r: "ReadSignals breach_scrape ?p sample_previous = (sg, None, sc)"
    using breach_scraped(2) by (cases "ReadSignals breach_scrape ?p sample_previous") auto
  have sg: "isBreaching ?p sg" "SampleCount sg \<noteq> 0" "holds sg below95" using breach_scraped by (simp_all add: r)
  have st: "stored sample_key ?r = one_bad_sample"
    by (simp add: stored_def two_breaches_def one_more_def)
  have po: "polled sample_key ?p ?r = g_poller (goroutines ?r ! 0)"
    by (simp add: polled_def two_breaches_def one_more_def sample_reconciler_def NewAdaptivePolicyReconciler_def
        ensure_state_def ensurePoller_def)
  then have q: "poller_policy (polled sample_key ?p ?r) = ?p" "\<not> firing (poller_state (polled sample_key ?p ?r))"
    "consecutiveBreach (poller_state (polled sample_key ?p ?r)) = 2"
    by (simp_all add: two_breaches_def NewPoller_def)
  have b: "ConsecutiveBreaches (cfg (polled sample_key ?p ?r)) = 3"
    by (simp add: po two_breaches_def NewPoller_def) code_simp
  have ps: "poll_signals ?p (late_ticks ?env) (pollerScraper ?r) = [sg]"
    by (simp add: breach_env_def two_breaches_def r)
  have "config_ok (withDefaults (pollerConfig None))" by code_simp
  then have ok: "pollers_ok ?r"
    by (simp add: pollers_ok_def maps_ok_def two_breaches_def one_more_def sample_reconciler_def NewPoller_def
        NewAdaptivePolicyReconciler_def split: if_splits)
  have ev: "evaluable ?env ?p 7" unfolding breach_env_def by (rule managed_evaluable)
  have pr: "presses below95 [(?p, last [sg], 7)]"
    using sg by (simp add: presses_def) (simp add: managed_policy_def sample_defs)
  have i: "isprint ?env = (\<lambda>_. False)" by (simp add: breach_env_def calm_env_def)
  have a: "ActiveProfile (Spec ?p) = ''open''" by (simp add: managed_policy_def)
  show ?thesis
    using breaching_scrapes_switch [OF ok ev managed_triggers one_bad_sample(2) _ _ _ _ q(2) _ _ _ pr] one_bad_sample(1,3-5)
    by (simp add: st q b ps sg i a)
qed

end
