(* ===== verification/Delivery_Props.thy ===== *)
theory Delivery_Props
  imports Controller_Props Rtds_Props
begin

section \<open>From a profile switch to the proxies\<close>

text \<open>
  The reconcile that switches the profile also renders the policy it reads back and pushes the runtime
  layers: what the open streams have received when it returns.
\<close>

subsection \<open>Pushing the layers of a policy\<close>

definition accepts :: "rtds_env \<Rightarrow> Server \<Rightarrow> nat \<Rightarrow> bool" where
  \<comment> \<open>the stream is registered and open, and takes what it is sent\<close>
  "accepts env s i \<longleftrightarrow> i \<in> send_to ` snd ` set (streams s) \<and> \<not> ctx_closed env i \<and> (\<forall>resp. send_error env i resp = None)"

definition layer_text :: "jobject \<Rightarrow> layer_values" where
  "layer_text vals = map (\<lambda>(k, v). (k, fmt_v v)) vals"

definition got_layer :: "(nat \<times> DiscoveryResponse) list \<Rightarrow> nat \<Rightarrow> string \<Rightarrow> layer_values \<Rightarrow> bool" where
  "got_layer sent i l vals \<longleftrightarrow> (\<exists>resp. (i, resp) \<in> set sent \<and> RuntimeName resp = l \<and> RuntimeFields resp = vals)"

lemma Push_delivers:
  assumes "is_order (stream_order env)" "\<And>l vals. pack_error env l vals = None" "Connected c"
    and "Push env c l vals s = (err, sent, s')"
  shows "streams s' = streams s \<and> map_of (current s') = (map_of (current s))(l \<mapsto> layer_text vals) \<and>
    (accepts env s i \<longrightarrow> got_layer sent i l (layer_text vals))"
proof -
  obtain e where p: "PushLayer env l (layer_text vals) s = (e, sent, s')"
    using assms(3,4) by (auto simp: Push_def Let_def layer_text_def split: prod.splits option.splits)
  from PushLayer_sends [OF assms(1,2) p] obtain resp where
    *: "streams s' = streams s" "map_of (current s') = (map_of (current s))(l \<mapsto> layer_text vals)"
    "RuntimeName resp = l" "RuntimeFields resp = layer_text vals"
    "set sent = (\<lambda>st. (send_to st, resp)) ` {st \<in> snd ` set (streams s).
       \<not> ctx_closed env (send_to st) \<and> send_error env (send_to st) resp = None}" by blast
  have "(i, resp) \<in> set sent" if "accepts env s i" using that unfolding *(5) accepts_def by auto
  then show ?thesis using * by (auto simp: got_layer_def)
qed

lemma push_loop_delivers:
  assumes "is_order (stream_order (rtds env))" "\<And>l vals. pack_error (rtds env) l vals = None" "Connected c"
    and "push_loop env c ls ok s = (ok', sent, s')" "(l, vals) \<in> set ls"
  shows "accepts (rtds env) s i \<longrightarrow> got_layer sent i l (layer_text vals)"
  using assms(4,5)
proof (induction ls arbitrary: ok ok' s sent)
  case (Cons lv ls)
  obtain l1 v1 where lv: "lv = (l1, v1)" by (cases lv)
  obtain err sent1 s1 where p: "Push (rtds env) c l1 v1 s = (err, sent1, s1)" by (metis prod_cases3)
  obtain ok2 sent2 s2 where q: "push_loop env c ls (if err = None then ok else False) s1 = (ok2, sent2, s2)"
    by (metis prod_cases3)
  have sent: "sent = sent1 @ sent2" "s' = s2" using Cons.prems(1) by (simp_all add: lv p q)
  note push = Push_delivers [OF assms(1-3) p, of i]
  have acc: "accepts (rtds env) s1 i = accepts (rtds env) s i" using push by (simp add: accepts_def)
  show ?case
  proof (cases "(l, vals) \<in> set ls")
    case True
    then show ?thesis using Cons.IH [OF q [folded sent(2)]] by (auto simp: acc sent(1) got_layer_def)
  next
    case False
    then show ?thesis using Cons.prems(2) push by (auto simp: lv sent(1) got_layer_def)
  qed
qed simp

subsection \<open>The server during a reconcile\<close>

lemma server_kept [simp]:
  "rtds_server (set_poller i p r) = rtds_server r" "rtds_server (run_ticks envs i r) = rtds_server r"
  "rtds_server (store_state key st r) = rtds_server r" "rtds_server (cancel_poller key r) = rtds_server r"
  by (simp_all add: set_poller_def run_ticks_def store_state_def cancel_poller_def
      Let_def split: option.splits prod.splits)

lemma ensure_state_server: "ensure_state key r = (st, r') \<Longrightarrow> rtds_server r' = rtds_server r"
  by (auto simp: ensure_state_def split: option.splits)

lemma ensurePoller_server:
  assumes "ensurePoller key policy r = (i, r')"
  shows "rtds_server r' = rtds_server r"
proof -
  have "rtds_server (snd (ensurePoller key policy r)) = rtds_server r"
    by (auto simp add: ensurePoller_def start_poller_def Let_def split: option.split)
  then show ?thesis by (simp add: assms)
qed

lemma read_signals_server: "read_signals env policy i r = (sg, av, r') \<Longrightarrow> rtds_server r' = rtds_server r"
  by (auto simp: read_signals_def Let_def split: option.splits prod.splits)
lemma register_layers_connected:
  assumes "rtdsClient r = Some c"
  shows "\<exists>c'. rtdsClient (register_layers env p res r) = Some c' \<and> Connected c' = Connected c \<and>
    rtds_server (register_layers env p res r) = rtds_server r"
proof -
  have one: "Connected (RegisterLayer n ns sel c) = Connected c" for n ns sel c
    by (simp add: RegisterLayer_def Connected_def)
  have "Connected (fold (\<lambda>(n, _). RegisterLayer n ns sel) ls c) = Connected c"
    for ns sel c and ls :: "(string \<times> jobject) list"
    by (induction ls arbitrary: c) (simp_all add: one split: prod.split)
  then show ?thesis using assms by (simp add: register_layers_def)
qed

lemma switched_deliver:
  assumes "sw_switched sw" "r_Render mesh (selector_order env) q = Inr res" "r_RTDSSupported mesh"
    and "rtdsClient r = Some c" "Connected c"
    and "is_order (stream_order (rtds env))" "is_order (layers_order env)" "\<And>l vals. pack_error (rtds env) l vals = None"
    and "(l, vals) \<in> set (RTDSLayers res)" "accepts (rtds env) (rtds_server r) i"
  shows "got_layer (received (render_and_deliver env key mesh q sg av orig sw calls r)) i l (layer_text vals)"
proof -
  let ?r = "register_layers env q res r"
  obtain c' where c: "rtdsClient ?r = Some c'" "Connected c'" "rtds_server ?r = rtds_server r"
    using register_layers_connected [OF assms(4)] assms(5) by blast
  obtain ok sent s' where p: "push_loop env c' (layers_order env (RTDSLayers res)) True (rtds_server r) = (ok, sent, s')"
    by (metis prod_cases3)
  have "(l, vals) \<in> set (layers_order env (RTDSLayers res))" using assms(9) order_set [OF assms(7)] by simp
  from push_loop_delivers [OF assms(6,8) c(2) p this] assms(10) have "got_layer sent i l (layer_text vals)" by simp
  then show ?thesis using assms(1-3) c p by (simp add: render_and_deliver_def push_layers_def Let_def finish_calls)
qed


definition admitted :: "string \<Rightarrow> AdaptivePolicy" where
  \<comment> \<open>the managed policy with admission control, in the given profile\<close>
  "admitted cur = (managed_policy cur)\<lparr>Spec := (Spec (managed_policy cur))\<lparr>AdmissionControl := Some
     \<lparr>ac_Enabled = True, ac_SuccessRateWindow = ''30s'', ac_SuccessRateThreshold = ''90'', ac_SheddingSpeed = ''2'',
      ac_MinRequestsPerSecond = 5, ac_MaxRejectionPercent = ''80'', ac_SuccessCodes = [], ac_SkipPaths = []\<rparr>\<rparr>\<rparr>"

definition switching_env :: rec_env where
  \<comment> \<open>after the first read the policy is in its open profile\<close>
  "switching_env = (calm_env (admitted ''strict''))\<lparr>kube := (kube (calm_env (admitted ''strict'')))\<lparr>k_get :=
     (\<lambda>calls. Got (admitted (if calls = [] then ''strict'' else ''open'')))\<rparr>\<rparr>"

definition proxied :: Reconciler where
  \<comment> \<open>a recovered service, and one proxy on stream 4\<close>
  "proxied = (sample_reconciler (admitted ''strict'') (Some (sample_signals 100)))\<lparr>rtdsClient := Some (NewClient True),
     rtds_server := \<lparr>streams = [(''n'', \<lparr>nodeID = ''n'', send_to = 4\<rparr>)], current = [], version = 0\<rparr>\<rparr>"

lemma proxied_switches:
  "filter is_switch (api_calls (Reconcile switching_env sample_key proxied)) =
    [SwitchPatch (switch_patch (\<lambda>_. False) ''open'' ''strict'')]"
  by code_simp

lemma open_layers:
  "(case r_Render IstioRenderer (\<lambda>xs. xs) (admitted ''open'') of Inl _ \<Rightarrow> [] | Inr res \<Rightarrow> RTDSLayers res) =
    [(''shedpilot-checkout-admission-control'', admission_layer (admitted ''open''))]"
  by code_simp


end
