(* ===== verification/Runtime_Values.thy ===== *)
theory Runtime_Values
  imports Delivery_Props Controller_State_Props Render_Props Scraper_Props
begin

section \<open>What the runtime server can serve\<close>

text \<open>
  Over all reachable states: the values the server keeps and sends are text of layers some backend
  rendered, and nothing else.
\<close>

definition layer_of :: "AdaptivePolicy \<Rightarrow> string \<Rightarrow> layer_values \<Rightarrow> bool" where
  \<comment> \<open>the text of a layer that a backend renders for the policy\<close>
  "layer_of p l vals \<longleftrightarrow> (\<exists>mesh ord res v. mesh \<in> {IstioRenderer, CiliumRenderer} \<and>
     r_Render mesh ord p = Inr res \<and> (l, v) \<in> set (RTDSLayers res) \<and> vals = layer_text v)"

definition serves_rendered :: "Server \<Rightarrow> bool" where
  "serves_rendered s \<longleftrightarrow> (\<forall>(l, vals) \<in> set (current s). \<exists>p. layer_of p l vals)"

definition sent_layers :: "AdaptivePolicy \<Rightarrow> (nat \<times> DiscoveryResponse) list \<Rightarrow> bool" where
  "sent_layers p sent \<longleftrightarrow> (\<forall>(i, resp) \<in> set sent. layer_of p (RuntimeName resp) (RuntimeFields resp))"

lemma sent_layers_simps [simp]:
  "sent_layers p []" "sent_layers p (a @ b) \<longleftrightarrow> sent_layers p a \<and> sent_layers p b"
  by (auto simp: sent_layers_def)

lemma alist_update_subset: "set (AList.update k v ps) \<subseteq> insert (k, v) (set ps)"
  by (induction ps) auto

lemma detected_backend: "DetectAndBuild c policy = Inr mesh \<Longrightarrow> mesh \<in> {IstioRenderer, CiliumRenderer}"
  by (auto simp: DetectAndBuild_def detect_def split: if_splits sum.splits)

subsection \<open>Pushes\<close>

lemma Push_rendered:
  assumes "Push env c l v s = (err, sent, s')" "layer_of p l (layer_text v)" "serves_rendered s"
  shows "serves_rendered s' \<and> sent_layers p sent"
proof (cases "Connected c")
  case False
  then show ?thesis using assms by (auto simp: Push_def)
next
  case True
  obtain e where push: "PushLayer env l (layer_text v) s = (e, sent, s')"
    using True assms(1) by (auto simp: Push_def Let_def layer_text_def split: prod.splits option.splits)
  have s': "s' = update_layer l (layer_text v) s"
    using push by (auto simp: PushLayer_def Let_def split: if_splits sum.splits)
  have "serves_rendered s'"
    using assms(2,3) alist_update_subset [of l "layer_text v" "current s"]
    unfolding s' serves_rendered_def update_layer_def by fastforce
  moreover have "RuntimeName resp = l \<and> RuntimeFields resp = layer_text v" if "(i, resp) \<in> set sent" for i resp
    using push that by (auto simp: PushLayer_def buildResponse_def Let_def split: if_splits sum.splits option.splits)
  ultimately show ?thesis using assms(2) by (auto simp: sent_layers_def)
qed

lemma push_loop_rendered:
  assumes "push_loop env c ls ok s = (ok', sent, s')" "\<And>l v. (l, v) \<in> set ls \<Longrightarrow> layer_of p l (layer_text v)"
    and "serves_rendered s"
  shows "serves_rendered s' \<and> sent_layers p sent"
  using assms
proof (induction ls arbitrary: ok ok' s s' sent)
  case (Cons lv ls)
  obtain l v where lv: "lv = (l, v)" by (cases lv)
  obtain err sent1 s1 where push: "Push (rtds env) c l v s = (err, sent1, s1)" by (metis prod_cases3)
  obtain ok2 sent2 s2 where q: "push_loop env c ls (if err = None then ok else False) s1 = (ok2, sent2, s2)"
    by (metis prod_cases3)
  have sent: "sent = sent1 @ sent2" "s' = s2" using Cons.prems(1) by (simp_all add: lv push q)
  have "serves_rendered s1 \<and> sent_layers p sent1" using Push_rendered [OF push, of p] Cons.prems(2,3) by (simp add: lv)
  then show ?case using Cons.IH [OF q] Cons.prems(2) by (auto simp: sent)
qed simp

subsection \<open>Reconciles\<close>

definition keeps_rendered :: "rec_env \<Rightarrow> rec_out \<Rightarrow> bool" where
  \<comment> \<open>what was sent was rendered for a policy this reconcile fetched\<close>
  "keeps_rendered env res \<longleftrightarrow> serves_rendered (rtds_server (rec_after res)) \<and>
     (\<exists>p reads. received res = [] \<or> k_get (kube env) reads = Got p \<and> sent_layers p (received res))"

lemma keeps_lists [simp]: "keeps_rendered env (ro\<lparr>list_calls := ls\<rparr>) \<longleftrightarrow> keeps_rendered env ro"
  by (simp add: keeps_rendered_def)

lemma degraded_keeps: "serves_rendered (rtds_server r) \<Longrightarrow> keeps_rendered env (degraded_return env p reason m d calls r)"
  by (simp add: keeps_rendered_def degraded_return_def split: prod.splits)

lemma deliver_keeps:
  assumes "mesh \<in> {IstioRenderer, CiliumRenderer}" "is_order (layers_order env)" "serves_rendered (rtds_server r)"
    and "k_get (kube env) reads = Got p"
  shows "keeps_rendered env (render_and_deliver env key mesh p sg av orig sw calls r)"
proof (cases "r_Render mesh (selector_order env) p")
  case (Inl e)
  then show ?thesis using degraded_keeps assms(3) by (simp add: render_and_deliver_def)
next
  case (Inr res)
  obtain err calls1 where ap: "(if sw_switched sw then (None, calls) else apply_all env (Resources res) calls) =
      (err, calls1)" by fastforce
  obtain ok sent r' where push: "push_layers env mesh (sw_switched sw) res (register_layers env p res r) = (ok, sent, r')"
    by (metis prod_cases3)
  have reg: "rtds_server (register_layers env p res r) = rtds_server r"
    by (simp add: register_layers_def split: option.split)
  have layers: "(l, v) \<in> set (layers_order env (RTDSLayers res)) \<Longrightarrow> layer_of p l (layer_text v)" for l v
    unfolding order_set [OF assms(2)] layer_of_def using assms(1) Inr by blast
  have "serves_rendered (rtds_server r') \<and> sent_layers p sent"
    using push push_loop_rendered [OF _ layers] assms(3)
    by (auto simp: push_layers_def reg split: option.splits if_splits prod.splits)
  then show ?thesis
    using Inr ap push degraded_keeps [OF assms(3)] assms(4)
    by (cases err) (auto simp: render_and_deliver_def Let_def finish_def keeps_rendered_def split: prod.splits)
qed

lemma switch_keeps:
  assumes "mesh \<in> {IstioRenderer, CiliumRenderer}" "is_order (layers_order env)" "serves_rendered (rtds_server r)"
    and "k_get (kube env) reads = Got p"
  shows "keeps_rendered env (switch_and_deliver env key mesh p st sg av calls r)"
proof -
  have s: "serves_rendered (rtds_server (store_state key st' r))" for st' using assms(3) by simp
  note d = deliver_keeps [OF assms(1,2) s]
  show ?thesis
    using switch_and_deliver_cases [of env p sg st calls key mesh av r]
  proof cases
    case kept
    then show ?thesis using d [OF assms(4)] by simp
  next
    case (refetched q)
    then show ?thesis using d [OF refetched(2)] by simp
  next
    case (gone e)
    then show ?thesis using s by (simp add: keeps_rendered_def)
  qed
qed

lemma Reconcile_keeps:
  assumes "orders_ok env" "serves_rendered (rtds_server r)"
  shows "keeps_rendered env (Reconcile env key r)"
proof (cases "k_get (kube env) []")
  case (Got p)
  then have rec: "Reconcile env key r = reconcile_policy env key p r" by (simp add: Reconcile_def)
  show ?thesis
    using reconcile_cases [of env p key r]
  proof cases
    case (refused reason m)
    then show ?thesis using assms(2) by (simp add: rec keeps_rendered_def)
  next
    case (no_mesh e)
    then show ?thesis using assms(2) degraded_keeps by (simp add: rec)
  next
    case (meshed mesh st r1 i r2 sg av r3)
    have "rtds_server r3 = rtds_server r"
      using ensure_state_server [OF meshed(3)] ensurePoller_server [OF meshed(4)] read_signals_server [OF meshed(5)] by simp
    then show ?thesis
      using switch_keeps [OF detected_backend [OF meshed(2)], of env r3 "[]" p] assms Got
      by (simp add: rec meshed(6) keeps_rendered_def orders_ok_def)
  qed
next
  case NotFound
  have "rtds_server (policy_deleted key r) = rtds_server r" by (simp add: policy_deleted_def Let_def)
  then show ?thesis using NotFound assms(2) by (simp add: Reconcile_def keeps_rendered_def)
next
  case (GetFailed e)
  then show ?thesis using assms(2) by (simp add: Reconcile_def keeps_rendered_def)
qed

lemma running_serves: "running c r \<Longrightarrow> serves_rendered (rtds_server r)"
  unfolding running_def
proof (induction rule: rtranclp_induct)
  case base
  show ?case by (simp add: serves_rendered_def NewAdaptivePolicyReconciler_def NewServer_def)
next
  case (step y z)
  from step(2) show ?case
  proof cases
    case (sys_reconcile env key)
    then show ?thesis using Reconcile_keeps [OF _ step(3)] by (simp add: keeps_rendered_def)
  qed (use step(3) in \<open>simp_all add: goroutine_ticks_def serves_rendered_def\<close>)
qed

subsection \<open>A controller that has pushed\<close>

definition served_env :: "nat \<Rightarrow> rec_env" where
  \<comment> \<open>each reconcile sees a hundred more requests than the one before, all successful\<close>
  "served_env n = switching_env\<lparr>scrape := sample_env (\<lambda>_. sample_body (100 + 100 * int n) 0)
     (\<lambda>_. int n * 30 * second) [sample_pod ''a'']\<rparr>"

definition served :: Reconciler where
  \<comment> \<open>after a reconcile that first scrapes, and one that switches to the open profile\<close>
  "served = rec_after (Reconcile (served_env 1) sample_key
     (rec_after (Reconcile (served_env 0) sample_key (NewAdaptivePolicyReconciler (Some (NewClient True))))))"

lemma served_orders: "orders_ok (served_env n)"
  by (simp add: orders_ok_def served_env_def switching_env_def calm_env_def sample_env_def)

lemma served_running: "running (Some (NewClient True)) served"
  unfolding running_def served_def
  by (rule rtranclp.rtrancl_into_rtrancl [OF r_into_rtranclp]) (rule sys_reconcile [OF served_orders])+

lemma served_current: "map fst (current (rtds_server served)) = [''shedpilot-checkout-admission-control'']"
  by code_simp

text \<open>C27. Proxies are only told what was rendered: in every state the controller can reach, by reconciles of any
  policies interleaved with ticks and with proxies coming and going, every layer the runtime server keeps for
  new connections is the text of a layer that the Istio or Cilium backend renders for some policy, under that
  layer's own name, and all responses a reconcile from there sends are layers of one policy it fetched.\<close>

theorem runtime_values_are_rendered:
  assumes "running c r" "orders_ok env"
  shows "(\<forall>(l, vals) \<in> set (current (rtds_server r)). \<exists>p. layer_of p l vals) \<and>
    (\<exists>p reads. received (Reconcile env key r) = [] \<or> k_get (kube env) reads = Got p \<and>
      (\<forall>(i, resp) \<in> set (received (Reconcile env key r)). layer_of p (RuntimeName resp) (RuntimeFields resp)))"
  using running_serves [OF assms(1)] Reconcile_keeps [OF assms(2) running_serves [OF assms(1)], of key]
  by (simp add: serves_rendered_def sent_layers_def keeps_rendered_def)

theorem runtime_values_are_rendered_witness:
  "\<exists>vals p. running (Some (NewClient True)) served \<and> layer_of p ''shedpilot-checkout-admission-control'' vals \<and>
    current (rtds_server served) = [(''shedpilot-checkout-admission-control'', vals)]"
proof -
  obtain vals where c: "current (rtds_server served) = [(''shedpilot-checkout-admission-control'', vals)]"
    using served_current by auto
  have "\<forall>(l, vals) \<in> set (current (rtds_server served)). \<exists>p. layer_of p l vals"
    using runtime_values_are_rendered [OF served_running served_orders] by blast
  with c served_running show ?thesis by auto
qed

subsection \<open>And what the proxies ask for\<close>

lemma layer_of_not_subscribed:
  assumes "layer_of p l vals"
  shows "JStr l \<notin> set subscribed_names"
proof -
  obtain mesh ord res v where m: "mesh \<in> {IstioRenderer, CiliumRenderer}" "r_Render mesh ord p = Inr res"
    "(l, v) \<in> set (RTDSLayers res)" using assms by (auto simp: layer_of_def)
  have "renderer_contract (r_Render mesh)"
    using m(1) istio.renderer_contract_axioms cilium.renderer_contract_axioms by (auto simp: IstioRenderer_def CiliumRenderer_def)
  from renderer_contract.layer_not_subscribed [OF this m(2)] m(3) have "l \<noteq> ''shedpilot-runtime''" by force
  then show ?thesis by (simp add: subscribed_names_def BootstrapPatch_def)
qed

text \<open>C38. No proxy asks for what is pushed: the bootstrap patch subscribes every proxy to one runtime name, and in no
  state the controller can reach does the runtime server keep a layer of that name, nor does any reconcile
  from there send one. Over the discovery protocol a proxy may drop every resource it did not ask for.\<close>

theorem nothing_pushed_is_subscribed:
  assumes "running c r" "orders_ok env"
  shows "length subscribed_names = 1 \<and> (\<forall>l \<in> fst ` set (current (rtds_server r)) \<union>
    RuntimeName ` snd ` set (received (Reconcile env key r)). JStr l \<notin> set subscribed_names)"
proof -
  note s = running_serves [OF assms(1)]
  have "JStr l \<notin> set subscribed_names" if "(l, vals) \<in> set (current (rtds_server r))" for l vals
    using s that layer_of_not_subscribed by (auto simp: serves_rendered_def)
  moreover have "JStr (RuntimeName resp) \<notin> set subscribed_names"
    if "(i, resp) \<in> set (received (Reconcile env key r))" for i resp
    using Reconcile_keeps [OF assms(2) s, of key] that layer_of_not_subscribed
    by (fastforce simp: keeps_rendered_def sent_layers_def)
  moreover have "length subscribed_names = 1" by (simp add: subscribed_names_def BootstrapPatch_def)
  ultimately show ?thesis by auto
qed

theorem nothing_pushed_is_subscribed_witness:
  "running (Some (NewClient True)) served \<and> fst ` set (current (rtds_server served)) \<noteq> {} \<and>
    JStr ''shedpilot-checkout-admission-control'' \<notin> set subscribed_names"
proof -
  have c: "fst ` set (current (rtds_server served)) = {''shedpilot-checkout-admission-control''}"
    using served_current by (simp only: set_map [symmetric]) simp
  have "\<forall>l \<in> fst ` set (current (rtds_server served)). JStr l \<notin> set subscribed_names"
    using nothing_pushed_is_subscribed [OF served_running served_orders] by blast
  with c served_running show ?thesis by simp
qed

end
