(* ===== verification/Patch_Json.thy ===== *)
theory Patch_Json
  imports Controller_Core Go_Parse_Facts
begin

section \<open>The profile patch as JSON\<close>

text \<open>
  The controller writes its profile patch with \<open>%q\<close>, Go's quoting, and the API server reads it as JSON. A
  reader of the JSON it can contain (objects of strings, RFC 8259 strings, no white space) shows when
  the two agree and what the patch then says.
\<close>

subsection \<open>A reader\<close>

definition hex_value :: "char \<Rightarrow> int option" where
  "hex_value c = (let n = char_code c in
     if 48 \<le> n \<and> n \<le> 57 then Some (n - 48) else if 97 \<le> n \<and> n \<le> 102 then Some (n - 87)
     else if 65 \<le> n \<and> n \<le> 70 then Some (n - 55) else None)"

fun read_hex :: "nat \<Rightarrow> int \<Rightarrow> string \<Rightarrow> (int \<times> string) option" where
  "read_hex 0 v s = Some (v, s)"
| "read_hex (Suc k) v [] = None"
| "read_hex (Suc k) v (c # s) = (case hex_value c of None \<Rightarrow> None | Some d \<Rightarrow> read_hex k (v * 16 + d) s)"

definition utf8 :: "int \<Rightarrow> string" where
  \<comment> \<open>the encoding of a rune of the basic plane\<close>
  "utf8 r = map (\<lambda>n. char_of (nat n))
     (if r < 128 then [r] else if r < 2048 then [192 + r div 64, 128 + r mod 64]
      else [224 + r div 4096, 128 + r div 64 mod 64, 128 + r mod 64])"

fun json_escape :: "string \<Rightarrow> (string \<times> string) option" where
  \<comment> \<open>what follows a backslash; surrogate escapes are not read\<close>
  "json_escape [] = None"
| "json_escape (c # s) =
     (if c = CHR 0x22 \<or> c = CHR 0x5C \<or> c = CHR ''/'' then Some ([c], s)
      else if c = CHR ''b'' then Some ([char_of (8 :: nat)], s)
      else if c = CHR ''f'' then Some ([char_of (12 :: nat)], s)
      else if c = CHR ''n'' then Some ([char_of (10 :: nat)], s)
      else if c = CHR ''r'' then Some ([char_of (13 :: nat)], s)
      else if c = CHR ''t'' then Some ([char_of (9 :: nat)], s)
      else if c = CHR ''u'' then (case read_hex 4 0 s of None \<Rightarrow> None
        | Some (r, s') \<Rightarrow> if 55296 \<le> r \<and> r < 57344 then None else Some (utf8 r, s'))
      else None)"

lemma read_hex_length: "read_hex k v s = Some (r, s') \<Longrightarrow> length s' \<le> length s"
  by (induction k v s rule: read_hex.induct) (auto split: option.splits)

lemma json_escape_length: "json_escape s = Some (t, s') \<Longrightarrow> length s' < length s"
  by (cases s) (auto split: if_splits option.splits dest!: read_hex_length)

function json_chars :: "string \<Rightarrow> (string \<times> string) option" where
  \<comment> \<open>a string after its opening quote\<close>
  "json_chars [] = None"
| "json_chars (c # s) =
     (if c = CHR 0x22 then Some ([], s)
      else if c = CHR 0x5C then (case json_escape s of None \<Rightarrow> None
        | Some (t, s') \<Rightarrow> map_option (\<lambda>(u, r). (t @ u, r)) (json_chars s'))
      else if char_code c < 32 then None
      else map_option (\<lambda>(u, r). (c # u, r)) (json_chars s))"
  by pat_completeness auto
termination by (relation "measure length") (auto dest: json_escape_length)

fun json_value :: "nat \<Rightarrow> string \<Rightarrow> (jval \<times> string) option"
  and json_members :: "nat \<Rightarrow> string \<Rightarrow> ((string \<times> jval) list \<times> string) option" where
  "json_value (Suc n) (c # s) =
     (if c = CHR 0x22 then map_option (\<lambda>(t, r). (JStr t, r)) (json_chars s)
      else if c = CHR ''{'' then map_option (\<lambda>(m, r). (JMap m, r)) (json_members n s) else None)"
| "json_value _ _ = None"
| "json_members (Suc n) (c # s) =
     (if c = CHR 0x22 then (case json_chars s of
          Some (k, d # r) \<Rightarrow> if d = CHR '':'' then (case json_value n r of
              Some (v, e # r') \<Rightarrow>
                if e = CHR ''}'' then Some ([(k, v)], r')
                else if e = CHR '','' then map_option (\<lambda>(m, r''). ((k, v) # m, r'')) (json_members n r')
                else None
            | _ \<Rightarrow> None) else None
        | _ \<Rightarrow> None) else None)"
| "json_members _ _ = None"

definition json_parse :: "string \<Rightarrow> jval option" where
  "json_parse s = (case json_value (length s) s of Some (v, []) \<Rightarrow> Some v | _ \<Rightarrow> None)"

subsection \<open>Runes\<close>

function runes :: "string \<Rightarrow> int option list" where
  \<comment> \<open>the runes of a string, \<open>None\<close> for a byte that is not UTF-8\<close>
  "runes [] = []"
| "runes (c # s) = (case decode_rune (c # s) of
     None \<Rightarrow> None # runes s
   | Some (r, w) \<Rightarrow> Some r # runes (drop (max 1 w) (c # s)))"
  by pat_completeness auto
termination by (relation "measure length") auto

definition json_rune :: "(int \<Rightarrow> bool) \<Rightarrow> int option \<Rightarrow> bool" where
  \<comment> \<open>Go and JSON quote the rune alike\<close>
  "json_rune ip x = (case x of None \<Rightarrow> False
     | Some r \<Rightarrow> r \<in> {8, 9, 10, 12, 13} \<or> 32 \<le> r \<and> r < 127 \<or> 128 \<le> r \<and> (ip r \<or> r < 65536))"

definition json_safe :: "(int \<Rightarrow> bool) \<Rightarrow> string \<Rightarrow> bool" where
  "json_safe ip s \<longleftrightarrow> list_all (json_rune ip) (runes s)"

lemma char_code_inverse [simp]: "char_of (nat (char_code c)) = (c :: char)"
  by (simp add: char_code_def)

lemma char_code_eq: "x = y \<longleftrightarrow> char_code x = char_code y"
  by (simp add: char_code_def)

lemma char_code_nonneg [simp]: "0 \<le> char_code c"
  by (simp add: char_code_nat)

lemma decode_ascii: "char_code c < 128 \<Longrightarrow> decode_rune (c # s) = Some (char_code c, 1)"
  by (simp add: decode_rune_def)

lemma digits64:
  "(a :: int) \<in> {0..<64} \<Longrightarrow> (b * 64 + a) div 64 = b" "(a :: int) \<in> {0..<64} \<Longrightarrow> (b * 64 + a) mod 64 = a"
  "(a :: int) \<in> {0..<64} \<Longrightarrow> b \<in> {0..<64} \<Longrightarrow> (c * 4096 + b * 64 + a) div 4096 = c"
  by auto

definition multi_byte :: "string \<Rightarrow> int \<Rightarrow> nat \<Rightarrow> bool" where
  \<comment> \<open>the string starts with the \<open>w\<close>-byte encoding of the rune \<open>r\<close>, which is not ASCII\<close>
  "multi_byte s r w \<longleftrightarrow> 128 \<le> r \<and> 1 \<le> w \<and> list_all (\<lambda>x. 128 \<le> char_code x) (take w s) \<and>
    (r < 65536 \<longrightarrow> utf8 r = take w s \<and> \<not> (55296 \<le> r \<and> r < 57344))"

definition two_byte :: "string \<Rightarrow> bool" where
  "two_byte s \<longleftrightarrow> byte_in s 0 194 223 \<and> byte_in s 1 128 191"

definition three_byte :: "string \<Rightarrow> bool" where
  "three_byte s \<longleftrightarrow> byte_in s 0 224 239 \<and> byte_in s 1 (if char_code (hd s) = 224 then 160 else 128)
     (if char_code (hd s) = 237 then 159 else 191) \<and> byte_in s 2 128 191"

definition four_byte :: "string \<Rightarrow> bool" where
  "four_byte s \<longleftrightarrow> byte_in s 0 240 244 \<and> byte_in s 1 (if char_code (hd s) = 240 then 144 else 128)
     (if char_code (hd s) = 244 then 143 else 191) \<and> byte_in s 2 128 191 \<and> byte_in s 3 128 191"

lemma decode_rune_bytes:
  assumes "128 \<le> char_code (hd s)"
  shows "decode_rune s =
    (if two_byte s then Some ((char_code (hd s) - 192) * 64 + cont s 1, 2)
     else if three_byte s then Some ((char_code (hd s) - 224) * 4096 + cont s 1 * 64 + cont s 2, 3)
     else if four_byte s then Some ((char_code (hd s) - 240) * 262144 + cont s 1 * 4096 + cont s 2 * 64 + cont s 3, 4)
     else None)"
proof -
  have "\<not> char_code (hd s) < 128" using assms by simp
  then show ?thesis by (simp only: decode_rune_def Let_def two_byte_def three_byte_def four_byte_def if_False)
qed

lemma two_byte:
  assumes "two_byte s"
  shows "multi_byte s ((char_code (hd s) - 192) * 64 + cont s 1) 2"
proof -
  from assms obtain c d s' where s: "s = c # d # s'"
    by (cases s; cases "tl s") (auto simp: byte_in_def two_byte_def)
  let ?a = "char_code c" and ?b = "char_code d"
  have b: "194 \<le> ?a" "?a \<le> 223" "128 \<le> ?b" "?b \<le> 191" using assms by (simp_all add: byte_in_def two_byte_def s)
  define r where "r = (?a - 192) * 64 + (?b - 128)"
  have "r div 64 = ?a - 192" "r mod 64 = ?b - 128" unfolding r_def by (rule digits64, use b in simp)+
  moreover have "128 \<le> r" "r < 2048" using b by (simp_all add: r_def)
  ultimately have "multi_byte s r 2" using b by (simp add: multi_byte_def utf8_def s)
  then show ?thesis by (simp add: r_def s cont_def)
qed

lemma three_byte:
  assumes "three_byte s"
  shows "multi_byte s ((char_code (hd s) - 224) * 4096 + cont s 1 * 64 + cont s 2) 3"
proof -
  from assms obtain c d e s' where s: "s = c # d # e # s'"
    by (cases s; cases "tl s"; cases "tl (tl s)") (auto simp: byte_in_def three_byte_def)
  let ?a = "char_code c" and ?b = "char_code d" and ?e = "char_code e"
  define r where "r = (?a - 224) * 4096 + (?b - 128) * 64 + (?e - 128)"
  have b: "224 \<le> ?a" "?a \<le> 239" "128 \<le> ?b" "?b \<le> 191" "128 \<le> ?e" "?e \<le> 191"
    "?a = 224 \<Longrightarrow> 160 \<le> ?b" "?a = 237 \<Longrightarrow> ?b \<le> 159"
    using assms by (auto simp: byte_in_def three_byte_def s split: if_splits)
  have r: "r = ((?a - 224) * 64 + (?b - 128)) * 64 + (?e - 128)" by (simp add: r_def algebra_simps)
  have "2048 \<le> r" using b by (cases "?a = 224") (simp_all add: r_def)
  moreover have "\<not> (55296 \<le> r \<and> r < 57344)" using b by (cases "?a = 237"; cases "?a < 237") (simp_all add: r_def)
  moreover have "r div 4096 = ?a - 224" unfolding r_def by (rule digits64) (use b in auto)
  moreover have "r mod 64 = ?e - 128" unfolding r by (rule digits64) (use b in auto)
  moreover have "r div 64 = (?a - 224) * 64 + (?b - 128)" unfolding r by (rule digits64) (use b in auto)
  moreover have "((?a - 224) * 64 + (?b - 128)) mod 64 = ?b - 128" by (rule digits64) (use b in auto)
  ultimately have "multi_byte s r 3" using b by (simp add: multi_byte_def utf8_def s numeral_3_eq_3)
  then show ?thesis by (simp add: r_def s cont_def)
qed

lemma four_byte:
  assumes "four_byte s"
  shows "multi_byte s ((char_code (hd s) - 240) * 262144 + cont s 1 * 4096 + cont s 2 * 64 + cont s 3) 4"
proof -
  from assms obtain c d e f s' where s: "s = c # d # e # f # s'"
    by (cases s; cases "tl s"; cases "tl (tl s)"; cases "tl (tl (tl s))") (auto simp: byte_in_def four_byte_def)
  have b: "240 \<le> char_code c" "128 \<le> char_code d" "128 \<le> char_code e" "128 \<le> char_code f"
    "char_code c = 240 \<Longrightarrow> 144 \<le> char_code d"
    using assms by (auto simp: byte_in_def four_byte_def s split: if_splits)
  then show ?thesis by (cases "char_code c = 240") (simp_all add: multi_byte_def s cont_def eval_nat_numeral)
qed

lemma decode_multi: "decode_rune s = Some (r, w) \<Longrightarrow> 128 \<le> char_code (hd s) \<Longrightarrow> multi_byte s r w"
  using two_byte three_byte four_byte by (auto simp: decode_rune_bytes split: if_splits)

subsection \<open>Quoting read back\<close>

lemma json_chars_high:
  "list_all (\<lambda>x. 128 \<le> char_code x) xs \<Longrightarrow>
    json_chars (xs @ t) = map_option (\<lambda>(u, r). (xs @ u, r)) (json_chars t)"
proof (induction xs)
  case (Cons x xs)
  then have "x \<noteq> CHR 0x22" "x \<noteq> CHR 0x5C" "\<not> char_code x < 32" by (auto simp: char_code_def)
  then show ?case using Cons by (cases "json_chars t") auto
qed (cases "json_chars t"; auto)

lemma char_code_of: "0 \<le> n \<Longrightarrow> n < 256 \<Longrightarrow> char_code (char_of (nat n)) = n"
proof -
  assume "0 \<le> n" "n < 256"
  then have "int (of_char (char_of (nat n))) = n" by (simp only: of_char_of) simp
  then show ?thesis by (simp only: of_nat_of_char char_code_def)
qed

lemma hex_value_char: "0 \<le> n \<Longrightarrow> n < 16 \<Longrightarrow> hex_value (hex_char n) = Some n"
  by (simp add: hex_value_def hex_char_def char_code_of Let_def)

lemma four_hex_digits:
  assumes "0 \<le> r" "r < 65536"
  shows "((r div 16 div 16 div 16 mod 16 * 16 + r div 16 div 16 mod 16) * 16 + r div 16 mod 16) * 16 + r mod 16 = (r :: int)"
proof -
  have ring: "((c * 16 + z) * 16 + y) * 16 + x = r" if "r = 16 * a + x" "a = 16 * b + y" "b = 16 * c + z"
    for a b c x y z :: int using that by simp
  have "r div 16 div 16 div 16 mod 16 = r div 16 div 16 div 16" using assms by simp
  then show ?thesis
    using ring [of "r div 16" "r mod 16" "r div 16 div 16" "r div 16 mod 16" "r div 16 div 16 div 16" "r div 16 div 16 mod 16"]
    by (simp only: mult_div_mod_eq)
qed

lemma read_hex_digits:
  assumes "0 \<le> r" "r < 65536"
  shows "read_hex 4 0 (hex_digits 4 r @ t) = Some (r, t)"
proof -
  have h: "hex_value (hex_char (n mod 16)) = Some (n mod 16)" for n by (simp add: hex_value_char)
  have "read_hex 4 0 (hex_digits 4 r @ t) =
      Some (((r div 16 div 16 div 16 mod 16 * 16 + r div 16 div 16 mod 16) * 16 + r div 16 mod 16) * 16 + r mod 16, t)"
    by (simp add: numeral_eq_Suc h del: div_mult2_eq')
  then show ?thesis by (simp only: four_hex_digits [OF assms])
qed

lemma json_chars_ascii:
  assumes "0 \<le> r" "r < 128"
  shows "json_chars (quote_rune ip r [char_of (nat r)] @ t) =
    (if json_rune ip (Some r) then map_option (\<lambda>(u, x). (char_of (nat r) # u, x)) (json_chars t) else None)"
proof -
  note c = char_code_of [of r]
  have "char_code (CHR 0x22) = 34" "char_code (CHR 0x5C) = 92" by (simp_all add: char_code_def)
  then have q: "char_of (nat r) = CHR 0x22 \<longleftrightarrow> r = 34" "char_of (nat r) = CHR 0x5C \<longleftrightarrow> r = 92"
    using c assms by (simp_all only: char_code_eq)
  consider "r = 34 \<or> r = 92" | "32 \<le> r" "r < 127" "r \<noteq> 34" "r \<noteq> 92" | "r \<in> {8, 9, 10, 12, 13}"
    | "r = 127 \<or> r < 32 \<and> r \<notin> {8, 9, 10, 12, 13}" using assms by force
  then show ?thesis
  proof cases
    case 2
    then show ?thesis using c assms q by (auto simp: quote_rune_def json_rune_def split: option.splits)
  next
    case 4
    then have "\<exists>e xs. quote_rune ip r [char_of (nat r)] = CHR 0x5C # e # xs \<and> e \<in> {CHR ''a'', CHR ''v'', CHR ''x''}"
      unfolding quote_rune_def by (cases "r = 7"; cases "r = 11") auto
    moreover have "\<not> json_rune ip (Some r)" using 4 by (simp add: json_rune_def) linarith
    ultimately show ?thesis by auto
  next
    case 1
    then have "char_of (nat r) \<in> {CHR 0x22, CHR 0x5C}" using q by auto
    moreover have "quote_rune ip r [char_of (nat r)] = [CHR 0x5C, char_of (nat r)]" "json_rune ip (Some r)"
      using 1 by (auto simp: quote_rune_def json_rune_def)
    ultimately show ?thesis by auto
  next
    case 3
    then show ?thesis unfolding insert_iff empty_iff by (elim disjE) (simp_all add: quote_rune_def json_rune_def)
  qed
qed

lemma json_chars_rune:
  assumes "decode_rune (c # s) = Some (r, w)"
  shows "json_chars (quote_rune ip r (take w (c # s)) @ t) =
    (if json_rune ip (Some r) then map_option (\<lambda>(u, x). (take w (c # s) @ u, x)) (json_chars t) else None)"
proof (cases "char_code c < 128")
  case True
  then have r: "r = char_code c" "w = 1" using assms decode_ascii by auto
  have "0 \<le> r" by (simp add: r)
  then show ?thesis using json_chars_ascii [of r ip t] True by (simp add: r)
next
  case False
  then have m: "multi_byte (c # s) r w" using decode_multi [OF assms] by simp
  show ?thesis
  proof (cases "ip r")
    case True
    then show ?thesis using m json_chars_high [of "take w (c # s)" t] by (simp add: quote_rune_def json_rune_def multi_byte_def)
  next
    case nip: False
    show ?thesis
    proof (cases "r < 65536")
      case True
      then have "json_escape (CHR ''u'' # hex_digits 4 r @ t) = Some (take w (c # s), t)"
        using m read_hex_digits [of r t] by (simp add: multi_byte_def)
      then show ?thesis using m True nip by (simp add: quote_rune_def json_rune_def multi_byte_def)
    next
      case False
      then show ?thesis using m nip by (simp add: quote_rune_def json_rune_def multi_byte_def)
    qed
  qed
qed

lemma json_chars_quote:
  "json_chars (quote_body ip s @ CHR 0x22 # t) = (if json_safe ip s then Some (s, t) else None)"
proof (induction ip s rule: quote_body.induct)
  case (2 ip c s)
  show ?case
  proof (cases "decode_rune (c # s)")
    case None
    then show ?thesis by (simp add: json_safe_def json_rune_def)
  next
    case (Some rw)
    obtain r w where rw: "decode_rune (c # s) = Some (r, w)" using Some by (cases rw) auto
    have w: "1 \<le> w" using rw decode_ascii [of c s] decode_multi [OF rw]
      by (cases "char_code c < 128") (auto simp: multi_byte_def)
    then have "take w (c # s) @ drop (max 1 w) (c # s) = c # s" by (simp add: max_def)
    then show ?thesis
      using 2(2) [OF rw refl] json_chars_rune [OF rw, of ip "quote_body ip (drop (max 1 w) (c # s)) @ CHR 0x22 # t"]
      by (auto simp: rw json_safe_def)
  qed
qed (simp add: json_safe_def)

subsection \<open>The patch\<close>

lemma json_safe_plain:
  assumes "plain_ascii k"
  shows "json_safe ip k"
proof -
  have "json_rune ip x" if "x \<in> set (runes k)" for x
    using assms that
  proof (induction k rule: runes.induct)
    case (2 c s)
    then have c: "32 \<le> char_code c" "char_code c < 127" by (auto simp: plain_ascii_def)
    then have d: "decode_rune (c # s) = Some (char_code c, 1)" by (intro decode_ascii) simp
    show ?case using 2(2) [OF d refl] 2(3,4) c by (auto simp: d json_rune_def plain_ascii_def)
  qed simp
  then show ?thesis by (simp add: json_safe_def list_all_iff)
qed

lemma json_chars_plain: "plain_ascii k \<Longrightarrow> json_chars (k @ CHR 0x22 # t) = Some (k, t)"
  using json_chars_quote [of "\<lambda>_. True" k t] by (simp add: quote_body_plain json_safe_plain)

text \<open>C23. The profile patch is the JSON document that sets \<open>spec.activeProfile\<close> to the target and the annotation of the previous profile,
  and nothing else, exactly if Go and JSON quote every rune of both names alike. A name with any other
  rune (a bell, a delete, an unprintable rune beyond the basic plane) makes a patch that is not JSON.\<close>

theorem switch_patch_reads_back:
  "json_parse (switch_patch ip target prior) =
     (if json_safe ip target \<and> json_safe ip prior
      then Some (JMap [(''spec'', JMap [(''activeProfile'', JStr target)]),
        (''metadata'', JMap [(''annotations'', JMap [(AnnotationPreviousProfile, JStr prior)])])])
      else None)"
proof -
  have plain: "plain_ascii ''spec''" "plain_ascii ''activeProfile''" "plain_ascii ''metadata''"
    "plain_ascii ''annotations''" "plain_ascii AnnotationPreviousProfile"
    by (simp_all add: plain_ascii_def AnnotationPreviousProfile_def char_code_def)
  note read = plain [THEN json_chars_plain, unfolded append.simps]
  let ?p = "switch_patch ip target prior"
  have "10 \<le> length ?p" by (simp add: switch_patch_def quoted_def)
  then obtain n where n: "length ?p = n + 10" by (metis le_add_diff_inverse2)
  show ?thesis
    unfolding json_parse_def n
    by (simp add: switch_patch_def quoted_def fmt_q_plain [OF plain(5)] fmt_q_def read json_chars_quote json_safe_plain [OF plain(5)] numeral_eq_Suc
        del: json_chars.simps)
qed

end
