(* ===== verification/Operator_Main.thy ===== *)
theory Operator_Main
  imports Controller_Reconcile
begin

section \<open>Wiring of the operator (cmd/main.go)\<close>

text \<open>
  \<open>main_run\<close> is the sequence of steps of \<open>main\<close> with the parsed flags; which step fails, if any, is its
  argument. Logging is left out.
\<close>

subsection \<open>The scheme\<close>

text \<open>The types the package registers, in the scheme the manager works with. The scheme and its builder belong to the
  Kubernetes libraries: the empty scheme, the registration of the built-in types and the one of a
  list of kinds under a group and version are parameters.\<close>

record GroupVersion =
  gv_Group :: string
  gv_Version :: string

definition GroupVersion_v1alpha1 :: GroupVersion where
  "GroupVersion_v1alpha1 = \<lparr>gv_Group = ''resilience.shedpilot.io'', gv_Version = ''v1alpha1''\<rparr>"

definition registered_kinds :: "string list" where
  "registered_kinds = [''AdaptivePolicy'', ''AdaptivePolicyList'']"

definition AddToScheme :: "(GroupVersion \<Rightarrow> string list \<Rightarrow> 's \<Rightarrow> string + 's) \<Rightarrow> 's \<Rightarrow> string + 's" where
  "AddToScheme add s = add GroupVersion_v1alpha1 registered_kinds s"

definition init_scheme :: "'s \<Rightarrow> ('s \<Rightarrow> string + 's) \<Rightarrow> (GroupVersion \<Rightarrow> string list \<Rightarrow> 's \<Rightarrow> string + 's) \<Rightarrow> string + 's" where
  \<comment> \<open>a failed registration is a panic before \<open>main\<close>\<close>
  "init_scheme s0 builtin add = (case builtin s0 of Inl e \<Rightarrow> Inl e | Inr s \<Rightarrow> AddToScheme add s)"

subsection \<open>The steps of main\<close>

record flags =
  metricsAddr :: string
  probeAddr :: string
  leaderElect :: bool
  enableRTDS :: bool
  rtdsPort :: int

definition default_flags :: flags where
  "default_flags = \<lparr>metricsAddr = '':8080'', probeAddr = '':8081'', leaderElect = True, enableRTDS = True,
     rtdsPort = RTDSPort\<rparr>"

datatype main_step =
    CreateManager string string bool string
  | StartRTDS int  \<comment> \<open>in the background\<close>
  | SetupController
  | AddHealthz
  | AddReadyz
  | StartManager

definition main_client :: "flags \<Rightarrow> Client option" where
  \<comment> \<open>\<open>NewClient\<close> never returns an error\<close>
  "main_client fl = (if enableRTDS fl then Some (NewClient True) else None)"

definition main_plan :: "flags \<Rightarrow> main_step list" where
  "main_plan fl =
     [CreateManager (metricsAddr fl) (probeAddr fl) (leaderElect fl) ''shedpilot.resilience.shedpilot.io''] @
     (if enableRTDS fl then [StartRTDS (rtdsPort fl)] else []) @
     [SetupController, AddHealthz, AddReadyz, StartManager]"

fun run_steps :: "(main_step \<Rightarrow> bool) \<Rightarrow> main_step list \<Rightarrow> int \<times> main_step list" where
  \<comment> \<open>the exit code and the steps taken; a failed server start is only logged\<close>
  "run_steps fails [] = (0, [])"
| "run_steps fails (s # ss) =
     (if fails s \<and> (\<forall>port. s \<noteq> StartRTDS port) then (1, [s])
      else (let (code, taken) = run_steps fails ss in (code, s # taken)))"

definition main_reconciler :: "flags \<Rightarrow> Reconciler" where
  "main_reconciler fl = NewAdaptivePolicyReconciler (main_client fl)"

definition main_run :: "(main_step \<Rightarrow> bool) \<Rightarrow> flags \<Rightarrow> int \<times> main_step list" where
  "main_run fails fl = run_steps fails (main_plan fl)"


end
