(* ===== verification/Operator_Flags.thy ===== *)
theory Operator_Flags
  imports Operator_Main Go_Parse_Facts
begin

section \<open>The command line\<close>

text \<open>
  \<open>flag.Parse\<close> on the five flags \<open>main\<close> declares. The flags of the logging and configuration libraries share
  the command line: which names they add, which of those are boolean and which values they accept are
  parameters. A malformed command line ends the program with code 2, a call for help with code 0.
\<close>

subsection \<open>Values\<close>

definition parse_bool :: "string \<Rightarrow> bool option" where
  \<comment> \<open>\<open>strconv.ParseBool\<close>\<close>
  "parse_bool s = (if s \<in> {''1'', ''t'', ''T'', ''true'', ''TRUE'', ''True''} then Some True
     else if s \<in> {''0'', ''f'', ''F'', ''false'', ''FALSE'', ''False''} then Some False else None)"

definition int_base :: "string \<Rightarrow> int \<times> string" where
  \<comment> \<open>the base a literal names, and its digits\<close>
  "int_base s =
     (if has_prefix s ''0'' then
        if 3 \<le> length s \<and> eq_fold (s ! 1) (CHR ''b'') then (2, drop 2 s)
        else if 3 \<le> length s \<and> eq_fold (s ! 1) (CHR ''o'') then (8, drop 2 s)
        else if 3 \<le> length s \<and> eq_fold (s ! 1) (CHR ''x'') then (16, drop 2 s)
        else (8, drop 1 s)
      else (10, s))"

definition any_digit :: "char \<Rightarrow> int option" where
  "any_digit c = (let n = char_code c in
     if 48 \<le> n \<and> n \<le> 57 then Some (n - 48) else if 97 \<le> n \<and> n \<le> 122 then Some (n - 87)
     else if 65 \<le> n \<and> n \<le> 90 then Some (n - 55) else None)"

fun read_uint :: "int \<Rightarrow> string \<Rightarrow> int \<Rightarrow> int option" where
  \<comment> \<open>the digits of a literal, underscores skipped; overflow is left to the bounds of \<open>parse_int\<close>\<close>
  "read_uint base [] n = Some n"
| "read_uint base (c # s) n =
     (if c = CHR ''_'' then read_uint base s n
      else (case any_digit c of None \<Rightarrow> None
        | Some d \<Rightarrow> if base \<le> d then None else read_uint base s (n * base + d)))"

fun underscores_ok :: "bool \<Rightarrow> char \<Rightarrow> string \<Rightarrow> bool" where
  \<comment> \<open>the loop of \<open>underscoreOK\<close>; \<open>saw\<close> is the kind of the last character\<close>
  "underscores_ok hex saw [] \<longleftrightarrow> saw \<noteq> CHR ''_''"
| "underscores_ok hex saw (c # s) \<longleftrightarrow>
     (if is_dec c \<or> hex \<and> hex_digit c \<noteq> None then underscores_ok hex (CHR ''0'') s
      else if c = CHR ''_'' then saw = CHR ''0'' \<and> underscores_ok hex (CHR ''_'') s
      else saw \<noteq> CHR ''_'' \<and> underscores_ok hex (CHR ''!'') s)"

definition parse_uint :: "string \<Rightarrow> int option" where
  \<comment> \<open>\<open>strconv.ParseUint(s, 0, 64)\<close>, without its upper bound\<close>
  "parse_uint s =
     (if s = [] then None
      else let (base, ds) = int_base s; prefixed = (length ds + 2 = length s)
           in if CHR ''_'' \<in> set ds \<and> \<not> underscores_ok (base = 16) (if prefixed then CHR ''0'' else CHR ''^'')
                   (if prefixed then ds else s)
              then None else read_uint base ds 0)"

definition parse_int :: "string \<Rightarrow> int option" where
  \<comment> \<open>\<open>strconv.ParseInt(s, 0, 64)\<close>\<close>
  "parse_int s =
     (let neg = has_prefix s ''-''; u = (if neg \<or> has_prefix s ''+'' then drop 1 s else s)
      in case parse_uint u of None \<Rightarrow> None
         | Some n \<Rightarrow> if n < 2 ^ 63 then Some (if neg then - n else n)
                     else if neg \<and> n = 2 ^ 63 then Some (- n) else None)"

subsection \<open>The loop over the arguments\<close>

record library_flags =
  lib_flag :: "string \<Rightarrow> bool option"  \<comment> \<open>a flag of a library, and whether it is boolean\<close>
  lib_ok :: "string \<Rightarrow> string \<Rightarrow> bool"  \<comment> \<open>it accepts the value\<close>

datatype parsed_flags = Flags flags "string list" | Exit int

definition main_flag :: "string \<Rightarrow> bool option" where
  \<comment> \<open>a flag of \<open>main\<close>, and whether it is boolean\<close>
  "main_flag name =
     (if name \<in> {''metrics-bind-address'', ''health-probe-bind-address'', ''rtds-port''} then Some False
      else if name \<in> {''leader-elect'', ''enable-rtds''} then Some True else None)"

definition set_flag :: "string \<Rightarrow> string \<Rightarrow> flags \<Rightarrow> flags option" where
  \<comment> \<open>assign a flag of \<open>main\<close>\<close>
  "set_flag name v fl =
     (if name = ''metrics-bind-address'' then Some (fl\<lparr>metricsAddr := v\<rparr>)
      else if name = ''health-probe-bind-address'' then Some (fl\<lparr>probeAddr := v\<rparr>)
      else if name = ''leader-elect'' then map_option (\<lambda>b. fl\<lparr>leaderElect := b\<rparr>) (parse_bool v)
      else if name = ''enable-rtds'' then map_option (\<lambda>b. fl\<lparr>enableRTDS := b\<rparr>) (parse_bool v)
      else map_option (\<lambda>n. fl\<lparr>rtdsPort := n\<rparr>) (parse_int v))"

definition assign_flag :: "library_flags \<Rightarrow> string \<Rightarrow> string \<Rightarrow> flags \<Rightarrow> flags option" where
  "assign_flag lib name v fl =
     (if main_flag name \<noteq> None then set_flag name v fl else if lib_ok lib name v then Some fl else None)"

definition flag_kind :: "library_flags \<Rightarrow> string \<Rightarrow> bool option" where
  "flag_kind lib name = (case main_flag name of Some b \<Rightarrow> Some b | None \<Rightarrow> lib_flag lib name)"

definition split_value :: "string \<Rightarrow> string \<times> string option" where
  \<comment> \<open>name and value of \<open>name=value\<close>; the name has at least one character\<close>
  "split_value s = (let n = take 1 s @ takeWhile (\<lambda>c. c \<noteq> CHR ''='') (drop 1 s); r = drop (length n) s
     in (n, if r = [] then None else Some (drop 1 r)))"

fun parse_args :: "library_flags \<Rightarrow> flags \<Rightarrow> string list \<Rightarrow> parsed_flags" where
  "parse_args lib fl [] = Flags fl []"
| "parse_args lib fl (s # args) =
     (if length s < 2 \<or> hd s \<noteq> CHR ''-'' then Flags fl (s # args)
      else if s = ''--'' then Flags fl args
      else let body = drop (if s ! 1 = CHR ''-'' then 2 else 1) s
      in if hd body = CHR ''-'' \<or> hd body = CHR ''='' then Exit 2
      else let (name, val) = split_value body
      in case flag_kind lib name of
           None \<Rightarrow> if name = ''help'' \<or> name = ''h'' then Exit 0 else Exit 2
         | Some True \<Rightarrow> (case assign_flag lib name (case val of None \<Rightarrow> ''true'' | Some v \<Rightarrow> v) fl of
               None \<Rightarrow> Exit 2 | Some fl' \<Rightarrow> parse_args lib fl' args)
         | Some False \<Rightarrow> (case val of
               Some v \<Rightarrow> (case assign_flag lib name v fl of None \<Rightarrow> Exit 2 | Some fl' \<Rightarrow> parse_args lib fl' args)
             | None \<Rightarrow> (case args of [] \<Rightarrow> Exit 2
                 | v # rest \<Rightarrow> (case assign_flag lib name v fl of
                     None \<Rightarrow> Exit 2 | Some fl' \<Rightarrow> parse_args lib fl' rest))))"

definition main_exit :: "library_flags \<Rightarrow> (main_step \<Rightarrow> bool) \<Rightarrow> string list \<Rightarrow> int \<times> main_step list" where
  \<comment> \<open>the program on a command line: its exit code and the wiring steps it took\<close>
  "main_exit lib fails args = (case parse_args lib default_flags args of
     Exit code \<Rightarrow> (code, []) | Flags fl rest \<Rightarrow> main_run fails fl)"

subsection \<open>A command line reads back\<close>

definition flag_args :: "flags \<Rightarrow> string list" where
  \<comment> \<open>a command line that sets every flag\<close>
  "flag_args fl =
     [''--metrics-bind-address='' @ metricsAddr fl, ''--health-probe-bind-address='' @ probeAddr fl,
      ''--leader-elect='' @ fmt_v_bool (leaderElect fl), ''--enable-rtds='' @ fmt_v_bool (enableRTDS fl),
      ''--rtds-port='' @ fmt_d (rtdsPort fl)]"

lemma read_uint_digits:
  "digits ds \<Longrightarrow> read_uint 10 ds n = Some (foldl (\<lambda>a c. a * 10 + the (dec_digit c)) n ds)"
proof (induction ds arbitrary: n)
  case (Cons c ds)
  then have c: "is_dec c" "digits ds" by (simp_all add: digits_def)
  then have "any_digit c = dec_digit c" "dec_digit c \<noteq> None" "the (dec_digit c) < 10"
    by (auto simp: any_digit_def dec_digit_def is_dec_def Let_def split: if_splits)
  then show ?case using Cons.IH [OF c(2)] is_dec_neq(1) [OF c(1)] by auto
qed simp

lemma digits_of_hd: "1 \<le> n \<Longrightarrow> hd (digits_of n) \<noteq> CHR ''0''"
proof (induction n rule: digits_of.induct)
  case (1 n)
  show ?case
  proof (cases "n < 10")
    case True
    then have "dec_digit (hd (digits_of n)) = Some n"
      using 1(2) by (subst digits_of.simps) (simp add: digit_char_dec max_def)
    then show ?thesis using 1(2) by (auto simp: dec_digit_def char_code_def)
  next
    case False
    then have "digits_of (n div 10) \<noteq> []" using digits_of_dec [of "n div 10"] by simp
    then show ?thesis using 1 False by (subst digits_of.simps) simp
  qed
qed

lemma parse_uint_digits_of:
  assumes "0 \<le> n"
  shows "parse_uint (digits_of n) = Some n"
proof (cases "n = 0")
  case True
  have "digits_of 0 = ''0''" by code_simp
  then show ?thesis by (simp add: True parse_uint_def int_base_def has_prefix_def)
next
  case False
  note d = digits_of_dec [OF assms]
  have "\<not> has_prefix (digits_of n) ''0''"
    using digits_of_hd [of n] False assms d by (cases "digits_of n") (auto simp: has_prefix_def)
  moreover have "CHR ''_'' \<notin> set (digits_of n)" using d is_dec_neq(1) by (auto simp: digits_def list_all_iff)
  ultimately show ?thesis using d read_uint_digits [of "digits_of n" 0]
    by (simp add: parse_uint_def int_base_def dec_value_def)
qed

lemma parse_int_fmt_d:
  assumes "- (2 ^ 63) \<le> n" "n < 2 ^ 63"
  shows "parse_int (fmt_d n) = Some n"
proof (cases "n < 0")
  case True
  then show ?thesis using parse_uint_digits_of [of "- n"] assms
    by (simp add: parse_int_def fmt_d_def has_prefix_def Let_def)
next
  case False
  then obtain c ds where c: "digits_of n = c # ds" "is_dec c"
    using digits_of_dec [of n] by (cases "digits_of n") (auto simp: digits_def)
  then have "\<not> has_prefix (digits_of n) ''-''" "\<not> has_prefix (digits_of n) ''+''"
    using is_dec_neq(3,4) by (auto simp: has_prefix_def)
  then show ?thesis using parse_uint_digits_of [of n] False assms by (simp add: parse_int_def fmt_d_def)
qed

lemma split_flag: "CHR ''='' \<notin> set n \<Longrightarrow> n \<noteq> [] \<Longrightarrow> split_value (n @ CHR ''='' # v) = (n, Some v)"
  by (cases n) (auto simp: split_value_def takeWhile_append)

lemma parse_valued:
  assumes "main_flag n = Some b" "set_flag n v fl = Some fl'"
  shows "parse_args lib fl ((''--'' @ n @ CHR ''='' # v) # args) = parse_args lib fl' args"
proof -
  let ?names = "[''metrics-bind-address'', ''health-probe-bind-address'', ''rtds-port'', ''leader-elect'', ''enable-rtds'']"
  have "list_all (\<lambda>n. n \<noteq> [] \<and> CHR ''='' \<notin> set n \<and> hd n \<noteq> CHR ''-'' \<and> hd n \<noteq> CHR ''='') ?names" by simp
  moreover have "n \<in> set ?names" using assms(1) by (rule contrapos_pp) (simp add: main_flag_def)
  ultimately have n: "n \<noteq> []" "CHR ''='' \<notin> set n" "hd n \<noteq> CHR ''-''" "hd n \<noteq> CHR ''=''"
    unfolding list_all_iff by blast+
  then have "hd (n @ CHR ''='' # v) = hd n" by (cases n) auto
  then show ?thesis using n assms split_flag [OF n(2,1), of v]
    by (cases b) (simp_all add: flag_kind_def assign_flag_def)
qed

lemma parse_bool_fmt: "parse_bool (fmt_v_bool b) = Some b"
  by (simp add: parse_bool_def fmt_v_bool_def)

text \<open>C24. The command line reads back: a command line that states every flag runs the program with exactly these
  flags, whatever the defaults are and whatever flags the libraries add, for every address and every
  64-bit port number.\<close>

theorem command_line_reads_back:
  assumes "- (2 ^ 63) \<le> rtdsPort fl" "rtdsPort fl < 2 ^ 63"
  shows "main_exit lib fails (flag_args fl) = main_run fails fl"
proof -
  have fl: "fl0\<lparr>metricsAddr := metricsAddr fl, probeAddr := probeAddr fl, leaderElect := leaderElect fl,
      enableRTDS := enableRTDS fl, rtdsPort := rtdsPort fl\<rparr> = fl" for fl0 :: flags by simp
  have "parse_args lib default_flags (flag_args fl) = Flags fl []"
    using parse_valued [of "''metrics-bind-address''" False "metricsAddr fl"]
      parse_valued [of "''health-probe-bind-address''" False "probeAddr fl"]
      parse_valued [of "''leader-elect''" True "fmt_v_bool (leaderElect fl)"]
      parse_valued [of "''enable-rtds''" True "fmt_v_bool (enableRTDS fl)"]
      parse_valued [of "''rtds-port''" False "fmt_d (rtdsPort fl)"]
    by (simp add: flag_args_def main_flag_def set_flag_def parse_bool_fmt parse_int_fmt_d [OF assms] fl
        del: parse_args.simps(2))
  then show ?thesis by (simp add: main_exit_def)
qed

definition no_library :: library_flags where
  "no_library = \<lparr>lib_flag = (\<lambda>_. None), lib_ok = (\<lambda>_ _. False)\<rparr>"

theorem command_line_reads_back_witness:
  "main_exit no_library (\<lambda>s. s = AddReadyz) [''--metrics-bind-address=:9090'', ''--health-probe-bind-address='',
     ''--leader-elect=true'', ''--enable-rtds=false'', ''--rtds-port=-5''] =
   (1, [CreateManager '':9090'' [] True ''shedpilot.resilience.shedpilot.io'', SetupController, AddHealthz, AddReadyz])"
proof -
  let ?fl = "\<lparr>metricsAddr = '':9090'', probeAddr = [], leaderElect = True, enableRTDS = False, rtdsPort = - 5\<rparr>"
  have "digits_of 5 = ''5''" by code_simp
  then have "flag_args ?fl = [''--metrics-bind-address=:9090'', ''--health-probe-bind-address='',
     ''--leader-elect=true'', ''--enable-rtds=false'', ''--rtds-port=-5'']"
    by (simp add: flag_args_def fmt_v_bool_def fmt_d_def)
  moreover have "main_run (\<lambda>s. s = AddReadyz) ?fl =
      (1, [CreateManager '':9090'' [] True ''shedpilot.resilience.shedpilot.io'', SetupController, AddHealthz, AddReadyz])"
    by (simp add: main_run_def main_plan_def)
  ultimately show ?thesis using command_line_reads_back [of ?fl no_library "\<lambda>s. s = AddReadyz"] by simp
qed

end
