(* ===== verification/Spec2Isabelle.thy ===== *)
theory Spec2Isabelle
  imports Trigger_Props Scraper_Props Poller_Props Render_Props Rtds_Stream Status_Memory Steady_Props Schema_Props
    Breach_Props Runtime_Values Patch_Json Operator_Flags
begin

text \<open>
  Shedpilot is a Kubernetes controller. It watches \<open>AdaptivePolicy\<close> objects, reads request counters from the
  Envoy sidecars of the pods a policy selects, decides by the policy's triggers when to switch the
  policy's active profile, renders the mesh configuration of the profile in effect (Istio or Cilium),
  applies it, and pushes runtime values to the proxies over a gRPC stream. This development models its
  Go code (the directories \<open>api\<close> and \<open>internal\<close>) and proves what makes the parts, and the reconcile loop that
  composes them, correct.

  \<^bold>\<open>Go.\<close> \<open>Prelude_Lib\<close> has machine integers, instants and maps (association lists; the order of a range loop is a
  parameter, any permutation). \<open>Go_Float\<close> is IEEE binary64, exact, with \<open>Go_Float_Facts\<close> on its
  rounding; \<open>Go_Strings\<close> has the string functions, \<open>strconv.ParseFloat\<close> and \<open>fmt.Sscanf\<close> of a float; \<open>Go_Fmt\<close>
  the formatting verbs; \<open>Go_Parse_Facts\<close> that parsing reads back what formatting writes.

  \<^bold>\<open>Policies\<close> (\<open>api/v1alpha1/adaptivepolicy_types.go\<close>). \<open>Policy_Types\<close>: one record per struct, the predicates and
  the effective settings. \<open>Sample_Policy\<close> holds the inputs of the witnesses.

  \<^bold>\<open>Policies in memory\<close> (\<open>api/v1alpha1/zz_generated.deepcopy.go\<close>). The other theories treat a policy as a value; Go shares slices,
  maps and pointers. \<open>Policy_Memory\<close> has a heap of typed cells, the structs as they lie in it (\<open>AdaptivePolicy_mem\<close> and
  so on), and what each denotes as a value. \<open>Deep_Copy\<close> is every generated \<open>DeepCopyInto\<close>, \<open>DeepCopy\<close> and
  \<open>DeepCopyObject\<close>, the copies of the Kubernetes structs being parameters; the locale \<open>deep_copier\<close> of
  \<open>Deep_Copy_Facts\<close> says what a copier owes its caller, and is interpreted on every struct
  (\<open>Deep_Copy_Structs\<close>, \<open>Deep_Copy_Props\<close>): a copy only allocates, denotes the same value, and neither of the
  two sees a write to the other. A value does not tell a nil slice or map from an empty one; \<open>Deep_Copy_Nils\<close> has
  readings that do, which the copies keep too. \<open>Status_Memory\<close> carries that to \<open>markDegraded\<close>, which overwrites the
  conditions in place and patches against a deep copy taken before.

  \<^bold>\<open>Triggers\<close> (\<open>internal/trigger/evaluator.go\<close>). \<open>Trigger_Eval\<close>: \<open>Evaluate\<close> over \<open>State\<close>, with the n-th clock reading
  of the call as a parameter. \<open>Trigger_Facts\<close> and \<open>Trigger_Props\<close>: the declarative choice it implements,
  safety of every switch, the counters, and runs of evaluations (evidence, cooldown, liveness).

  \<^bold>\<open>Signals\<close> (\<open>internal/signal\<close>). \<open>Signal_Scraper\<close>: parsing an exposition, \<open>scrapePod\<close> and \<open>ReadSignals\<close> over the map of
  previous snapshots; \<open>Scraper_Facts\<close>, \<open>Scraper_Reads\<close>, \<open>Scraper_Props\<close>: the parser reads what is printed, and
  what \<open>ReadSignals\<close> returns from the counter increments. \<open>Signal_Poller\<close> and \<open>Poller_Props\<close>: the
  debouncer against a specification over the history of scrapes, the goroutine and its consumer
  as step relations. The locale \<open>signal_source\<close> is what a poller needs of a scraper; \<open>ReadSignals\<close> provides it.

  \<^bold>\<open>Rendering\<close> (\<open>internal/renderer\<close>). \<open>Json_Value\<close> and \<open>Render_Common\<close>: values, objects (header fields and the
  \<open>SetNested\<close> calls in order) and shared helpers; \<open>Render_Istio\<close> and \<open>Render_Cilium\<close>: the backends and their
  detection. \<open>Render_Facts\<close> states the locale \<open>renderer_contract\<close>, what the controller relies on, and
  interprets it on both backends; \<open>Render_Props\<close> has ownership, inventory, dry-run (which the DestinationRule ignores) and units.

  \<^bold>\<open>Runtime discovery\<close> (\<open>internal/rtds/client.go\<close>). \<open>Rtds_Server\<close>: the server's state and operations, the client,
  the bootstrap patch, and \<open>rtds_step\<close>, connections and pushes cut at the points where the code
  releases its lock; a send that is left out needs an ended context or a failing send, as in the code. \<open>Rtds_Props\<close>: one push, where delivered values come from, registration, two races.
  \<open>Rtds_Rest\<close>: a measure on its states, by which every run without new connections and pushes ends, and that such a
  run delivers every outstanding replay and push when nothing but disconnections is left to happen.
  \<open>Rtds_Stream\<close>: \<open>StreamRuntime\<close> as one function, and that it and \<open>PushLayer\<close>, run whole, are runs of \<open>rtds_step\<close>.

  \<^bold>\<open>The reconciler\<close> (\<open>internal/controller\<close>). \<open>Controller_Core\<close>: its state and helpers; poller goroutines are
  numbered in the order they start, and the answers of the API server are functions of the calls
  made so far in the reconcile. The list calls of mesh detection and of pod discovery only read and are kept
  apart from the other calls (\<open>list_calls\<close>); the bounds on the cost of a reconcile count both. \<open>Controller_Reconcile\<close>: the sections of \<open>Reconcile\<close> in source order,
  and \<open>sys_step\<close>, reconciles interleaved with poller goroutines and proxies. Policies are values here, with one
  exception: a poller keeps the pointer of the reconcile that started it, so \<open>share_policy\<close> gives it the policy
  as that reconcile leaves it. \<open>Controller_Facts\<close>
  (conditions, the bookkeeping of pollers) and \<open>Controller_Calls\<close> (which calls each stage adds, with the
  client's lemmas inside \<open>renderer_contract\<close>) carry \<open>Controller_Props\<close> (profile switches), \<open>Reconcile_Props\<close>
  (refusal, requeue, own resources), \<open>Controller_State_Props\<close> (pollers and the abstract supervisor they refine,
  missing signals), \<open>Status_Props\<close> (conditions, history, the FilterEffective check) and \<open>Loop_Props\<close> (from
  sustained evidence to the profile patch, over a sequence of reconciles). \<open>Breach_Props\<close> composes scraper, poller
  and reconcile, from the pods to the switch, and \<open>Delivery_Props\<close> goes on to the proxies;
  \<open>Runtime_Values\<close> says what the runtime server can serve in any reachable state; \<open>Steady_Props\<close> bounds the calls of a reconcile and shows that a
  settled policy stays as it is; \<open>Schema_Props\<close> checks every status sent against the schema of its
  conditions in the CRD, of which only the length of a message can be broken; \<open>Patch_Json\<close> reads the profile patch as the API server does.

  \<^bold>\<open>Bounds and fuel.\<close> \<open>int32\<close> fields are 32-bit words; \<open>int64\<close> generations and versions and the \<open>int\<close> counters of a
  poller, which would need 2^63 steps to wrap, are integers. There is fuel in two
  places: seventeen digits always suffice for the shortest decimal of a double (\<open>fmt_v_float\<close>), and the JSON
  reader gets the length of its text, of which each level and member takes a character. All other
  loops are structural or have a measure.

  \<^bold>\<open>The entry point\<close> (\<open>cmd/main.go\<close>). \<open>Operator_Main\<close>: the scheme (also \<open>api/v1alpha1/groupversion_info.go\<close>), the
  flags, and the wiring steps with the exit code. \<open>Operator_Flags\<close>: the parsing of the command line.

  \<^bold>\<open>Not modelled.\<close> Logging, the manager, and the flags the libraries add (parameters of the command line). The
  Kubernetes API, HTTP, protobuf packing, sends, clocks, contexts and the registration in a scheme are parameters.
  A failed delete is only logged, so its answer does not appear. Reconciles do not overlap, as with the
  controller's default of one worker.
\<close>

end
